theory Spec2Isabelle
  imports Complex_Main "HOL-Library.AList"
begin

section \<open>JavaScript values and strings\<close>

text \<open>
  Both ETL scripts are plain JavaScript over untyped JSON. A value is modelled by the
  datatype below. A number is a double: a finite one is named by the rational it
  denotes (every number \<open>JSON.parse\<close> returns is finite), and the three values that are
  not finite stand beside them; arithmetic on numbers is not computed here but taken as
  a parameter where the code adds or divides. An object is the list of its entries in
  the order they were created, one entry per key (\<open>ownKeys\<close> below is the order in
  which they are enumerated), and strings are lists of code units below 256 (the
  Latin-1 range), for which the character classes and the case mapping below are the
  ones of JavaScript.
\<close>

datatype jsnum = Fin rat | PosInf | NegInf | NaN

datatype jsval =
    JUndefined
  | JNull
  | JBool bool
  | JNumber jsnum
  | JStr string
  | JArr "jsval list"
  | JObj "(string \<times> jsval) list"

abbreviation JNum :: "rat \<Rightarrow> jsval" where
  "JNum r \<equiv> JNumber (Fin r)"

datatype js_error =
    TypeError
  | Error string

text \<open>\<open>!v\<close> is \<open>\<not> truthy v\<close>.\<close>

fun truthy :: "jsval \<Rightarrow> bool" where
  "truthy JUndefined = False"
| "truthy JNull = False"
| "truthy (JBool b) = b"
| "truthy (JNumber n) = (case n of Fin r \<Rightarrow> r \<noteq> 0 | PosInf \<Rightarrow> True | NegInf \<Rightarrow> True | NaN \<Rightarrow> False)"
| "truthy (JStr s) = (s \<noteq> [])"
| "truthy (JArr xs) = True"
| "truthy (JObj kvs) = True"

text \<open>\<open>a || b\<close> on values.\<close>

definition js_or :: "jsval \<Rightarrow> jsval \<Rightarrow> jsval" where
  "js_or a b = (if truthy a then a else b)"

text \<open>
  \<open>String(v)\<close>. A string converts to itself; the formatting of a number is the parameter
  \<open>fmt\<close>; an array joins the conversions of its elements with commas, an element that
  is \<open>null\<close> or \<open>undefined\<close> giving the empty string; an object without an entry
  \<open>toString\<close> of its own converts to \<open>[object Object]\<close>. An object with such an entry
  has no primitive value, since no JSON value is a function, and its conversion throws
  a \<open>TypeError\<close>.
\<close>

fun String_js :: "(jsnum \<Rightarrow> string) \<Rightarrow> jsval \<Rightarrow> js_error + string"
  and joinElements :: "(jsnum \<Rightarrow> string) \<Rightarrow> jsval list \<Rightarrow> js_error + string" where
  "String_js fmt JUndefined = Inr ''undefined''"
| "String_js fmt JNull = Inr ''null''"
| "String_js fmt (JBool b) = Inr (if b then ''true'' else ''false'')"
| "String_js fmt (JNumber n) = Inr (fmt n)"
| "String_js fmt (JStr s) = Inr s"
| "String_js fmt (JArr xs) = joinElements fmt xs"
| "String_js fmt (JObj kvs) =
     (if ''toString'' \<in> set (map fst kvs) then Inl TypeError else Inr ''[object Object]'')"
| "joinElements fmt [] = Inr []"
| "joinElements fmt (x # xs) =
     (case (if x = JNull \<or> x = JUndefined then Inr [] else String_js fmt x) of
        Inl e \<Rightarrow> Inl e
      | Inr s \<Rightarrow>
          if xs = [] then Inr s
          else (case joinElements fmt xs of Inl e \<Rightarrow> Inl e | Inr rest \<Rightarrow> Inr (s @ '','' @ rest)))"

text \<open>White space as \<open>\s\<close> and \<open>trim\<close> see it, word characters as \<open>\b\<close> sees them.\<close>

definition isSpace :: "char \<Rightarrow> bool" where
  "isSpace c = (c = CHR 0x09 \<or> c = CHR 0x0A \<or> c = CHR 0x0B \<or> c = CHR 0x0C \<or> c = CHR 0x0D
     \<or> c = CHR 0x20 \<or> c = CHR 0xA0)"

definition isWordChar :: "char \<Rightarrow> bool" where
  "isWordChar c = (let n = (of_char c :: nat) in
     (48 \<le> n \<and> n \<le> 57) \<or> (65 \<le> n \<and> n \<le> 90) \<or> n = 95 \<or> (97 \<le> n \<and> n \<le> 122))"

definition lowerChar :: "char \<Rightarrow> char" where
  "lowerChar c = (let n = (of_char c :: nat) in
     if (65 \<le> n \<and> n \<le> 90) \<or> (192 \<le> n \<and> n \<le> 222 \<and> n \<noteq> 215) then char_of (n + 32) else c)"

definition toLowerCase :: "string \<Rightarrow> string" where
  "toLowerCase s = map lowerChar s"

definition trim :: "string \<Rightarrow> string" where
  "trim s = rev (dropWhile isSpace (rev (dropWhile isSpace s)))"

fun startsWith :: "string \<Rightarrow> string \<Rightarrow> bool" where
  "startsWith [] s = True"
| "startsWith (a # as) [] = False"
| "startsWith (a # as) (c # cs) = (a = c \<and> startsWith as cs)"

text \<open>\<open>/sub/.test(s)\<close> for a literal \<open>sub\<close>.\<close>

fun testLiteral :: "string \<Rightarrow> string \<Rightarrow> bool" where
  "testLiteral sub [] = (sub = [])"
| "testLiteral sub (c # cs) = (startsWith sub (c # cs) \<or> testLiteral sub cs)"

text \<open>
  \<open>/sub\b/.test(s)\<close> for a literal \<open>sub\<close> that ends in a word character: the match must
  be followed by the end of the string or by a character that is not a word character.
\<close>

fun testLiteralB :: "string \<Rightarrow> string \<Rightarrow> bool" where
  "testLiteralB sub [] = (sub = [])"
| "testLiteralB sub (c # cs) =
     ((startsWith sub (c # cs) \<and>
        (case drop (length sub) (c # cs) of [] \<Rightarrow> True | x # _ \<Rightarrow> \<not> isWordChar x))
      \<or> testLiteralB sub cs)"

section \<open>Schools ETL: delimiter detection\<close>

text \<open>
  \<open>detectCSVDelimiter\<close> builds its regular expression from the template literal
  \<^verbatim>\<open>`\${d}`\<close>. The backslash escapes the dollar sign, so nothing is substituted: for
  every candidate \<open>d\<close> the source text of the expression is the four characters
  \<open>$\<close>, \<open>{\<close>, \<open>d\<close>, \<open>}\<close>.
\<close>

definition delimiterRegExpSource :: "char \<Rightarrow> string" where
  "delimiterRegExpSource d = ''${d}''"

text \<open>
  In a regular expression without the \<open>m\<close> flag \<open>$\<close> asserts the end of the input; a
  brace that opens no quantifier is a literal character. The parse below covers the
  sources this program builds: \<open>$\<close> and literal characters.
\<close>

datatype re_atom = AssertEnd | Lit char

definition regExpAtoms :: "string \<Rightarrow> re_atom list" where
  "regExpAtoms src = map (\<lambda>c. if c = CHR ''$'' then AssertEnd else Lit c) src"

fun matchAt :: "re_atom list \<Rightarrow> string \<Rightarrow> bool" where
  "matchAt [] s = True"
| "matchAt (AssertEnd # p) s = (s = [] \<and> matchAt p s)"
| "matchAt (Lit c # p) [] = False"
| "matchAt (Lit c # p) (x # s) = (x = c \<and> matchAt p s)"

definition matchWidth :: "re_atom list \<Rightarrow> nat" where
  "matchWidth p = length (filter (\<lambda>a. a \<noteq> AssertEnd) p)"

text \<open>
  \<open>(sample.match(re) || []).length\<close> for a global expression: the matches are counted
  from left to right, each search resuming after the previous match.
\<close>

function countMatches :: "re_atom list \<Rightarrow> string \<Rightarrow> nat" where
  "countMatches p [] = (if matchAt p [] then 1 else 0)"
| "countMatches p (c # cs) =
     (if matchAt p (c # cs) then Suc (countMatches p (drop (matchWidth p - 1) cs))
      else countMatches p cs)"
  by pat_completeness auto
termination
  by (relation "measure (\<lambda>(p, s). length s)") auto

definition detectCSVDelimiter :: "string \<Rightarrow> char" where
  "detectCSVDelimiter sample =
     fst (foldl
       (\<lambda>(best, bestCount) d.
          let count = int (countMatches (regExpAtoms (delimiterRegExpSource d)) sample)
          in if count > bestCount then (d, count) else (best, bestCount))
       (CHR '','', - 1)
       [CHR '','', CHR '';'', CHR 0x09])"

section \<open>Schools ETL: free-text classifiers\<close>

text \<open>
  Both classifiers return \<open>unknown\<close> on a falsy value without converting it; every
  other value they convert first, and a conversion that throws ends the call. The
  classification of the converted text is written apart.
\<close>

definition ownershipOfText :: "string \<Rightarrow> string" where
  "ownershipOfText t =
     (let s = toLowerCase t in
        if testLiteral ''gov'' s \<or> testLiteral ''public'' s \<or> testLiteral ''state'' s
          then ''government''
        else if testLiteral ''private'' s \<or> testLiteral ''ngo'' s \<or> testLiteral ''foundation'' s
                \<or> testLiteral ''independent'' s
          then ''private''
        else if testLiteral ''relig'' s \<or> testLiteral ''catholic'' s \<or> testLiteral ''anglican'' s
                \<or> testLiteral ''muslim'' s \<or> testLiteral ''church'' s \<or> testLiteral ''islam'' s
          then ''religious''
        else if s \<noteq> [] then s else ''unknown'')"

definition guessOwnership :: "(jsnum \<Rightarrow> string) \<Rightarrow> jsval \<Rightarrow> js_error + string" where
  "guessOwnership fmt v =
     (if \<not> truthy v then Inr ''unknown''
      else map_sum id ownershipOfText (String_js fmt v))"

definition genderOfText :: "string \<Rightarrow> string" where
  "genderOfText t =
     (let s = toLowerCase t in
        if testLiteral ''boys'' s \<or> testLiteralB ''male'' s then ''boys''
        else if testLiteral ''girls'' s \<or> testLiteralB ''female'' s then ''girls''
        else if testLiteral ''mixed'' s \<or> testLiteral ''coed'' s \<or> testLiteral ''co-ed'' s
                \<or> testLiteral ''unisex'' s
          then ''mixed''
        else if s \<noteq> [] then s else ''unknown'')"

definition guessGender :: "(jsnum \<Rightarrow> string) \<Rightarrow> jsval \<Rightarrow> js_error + string" where
  "guessGender fmt v =
     (if \<not> truthy v then Inr ''unknown''
      else map_sum id genderOfText (String_js fmt v))"

section \<open>Objects and features\<close>

text \<open>\<open>o[k]\<close> and \<open>o[k] = v\<close> on the entries of an object.\<close>

definition getProp :: "(string \<times> jsval) list \<Rightarrow> string \<Rightarrow> jsval" where
  "getProp kvs k = (case map_of kvs k of None \<Rightarrow> JUndefined | Some v \<Rightarrow> v)"

definition setProp :: "string \<Rightarrow> jsval \<Rightarrow> (string \<times> jsval) list \<Rightarrow> (string \<times> jsval) list" where
  "setProp k v kvs = AList.update k v kvs"

text \<open>
  \<open>v.k\<close> for a name \<open>k\<close> that no prototype defines: a \<open>TypeError\<close> on \<open>null\<close> and
  \<open>undefined\<close>, the entry of an object, \<open>undefined\<close> on every other value.
\<close>

fun member :: "jsval \<Rightarrow> string \<Rightarrow> js_error + jsval" where
  "member JUndefined k = Inl TypeError"
| "member JNull k = Inl TypeError"
| "member (JObj kvs) k = Inr (getProp kvs k)"
| "member v k = Inr JUndefined"

fun isArray :: "jsval \<Rightarrow> bool" where
  "isArray (JArr xs) = True"
| "isArray v = False"

text \<open>\<open>typeof v === 'number'\<close>: true of every number, finite or not.\<close>

fun isNumber :: "jsval \<Rightarrow> bool" where
  "isNumber (JNumber n) = True"
| "isNumber v = False"

function decimal :: "nat \<Rightarrow> string" where
  "decimal n = (if n < 10 then [char_of (48 + n)] else decimal (n div 10) @ [char_of (48 + n mod 10)])"
  by pat_completeness auto
termination
  by (relation "measure id") auto

text \<open>
  \<open>Object.keys(obj)\<close>: the keys that are array indices (the decimal numerals below
  \<open>2\<^sup>3\<^sup>2 - 1\<close>) in ascending order, then the other keys in insertion order.
\<close>

definition isDigit :: "char \<Rightarrow> bool" where
  "isDigit c = (let n = (of_char c :: nat) in 48 \<le> n \<and> n \<le> 57)"

definition digitsValue :: "string \<Rightarrow> int" where
  "digitsValue k = foldl (\<lambda>n c. 10 * n + (of_char c - 48)) 0 k"

definition isArrayIndex :: "string \<Rightarrow> bool" where
  "isArrayIndex k =
     (k \<noteq> [] \<and> list_all isDigit k \<and> (k = ''0'' \<or> hd k \<noteq> CHR ''0'') \<and> digitsValue k < 4294967295)"

definition ownKeys :: "(string \<times> jsval) list \<Rightarrow> string list" where
  "ownKeys obj =
     sort_key digitsValue (filter isArrayIndex (map fst obj))
     @ filter (\<lambda>k. \<not> isArrayIndex k) (map fst obj)"

text \<open>The entries of \<open>{ ...v }\<close>.\<close>

fun spread :: "jsval \<Rightarrow> (string \<times> jsval) list" where
  "spread (JObj kvs) = kvs"
| "spread (JArr xs) = map (\<lambda>i. (decimal i, xs ! i)) [0..<length xs]"
| "spread (JStr s) = map (\<lambda>i. (decimal i, JStr [s ! i])) [0..<length s]"
| "spread v = []"

text \<open>
  A feature the scripts build, \<open>{ type: 'Feature', geometry, properties }\<close>; a feature
  collection they build is the list of its features.
\<close>

record feature =
  geometry :: jsval
  properties :: jsval

definition pointGeometry :: "jsval \<Rightarrow> jsval" where
  "pointGeometry coords = JObj [(''type'', JStr ''Point''), (''coordinates'', coords)]"

section \<open>Schools ETL: CSV parsing\<close>

fun replaceCRLF :: "string \<Rightarrow> string" where
  "replaceCRLF (a # b # cs) =
     (if a = CHR 0x0D \<and> b = CHR 0x0A then CHR 0x0A # replaceCRLF cs else a # replaceCRLF (b # cs))"
| "replaceCRLF cs = cs"

definition replaceCR :: "string \<Rightarrow> string" where
  "replaceCR s = map (\<lambda>c. if c = CHR 0x0D then CHR 0x0A else c) s"

fun split :: "char \<Rightarrow> string \<Rightarrow> string list" where
  "split d [] = [[]]"
| "split d (c # cs) =
     (if c = d then [] # split d cs
      else (case split d cs of [] \<Rightarrow> [[c]] | l # ls \<Rightarrow> (c # l) # ls))"

fun join :: "string \<Rightarrow> string list \<Rightarrow> string" where
  "join sep [] = []"
| "join sep [l] = l"
| "join sep (l # ls) = l @ sep @ join sep ls"

definition isBlank :: "string \<Rightarrow> bool" where
  "isBlank l = (trim l = [])"

text \<open>The lines of the text, the empty leading lines skipped.\<close>

definition csvLines :: "string \<Rightarrow> string list" where
  "csvLines text = dropWhile isBlank (split (CHR 0x0A) (replaceCR (replaceCRLF text)))"

text \<open>
  \<open>splitLine\<close>: the loop over the characters of a line, with the cells finished so far,
  the current cell and the quote flag.
\<close>

fun splitLineLoop :: "char \<Rightarrow> string \<Rightarrow> string list \<Rightarrow> string \<Rightarrow> bool \<Rightarrow> string list" where
  "splitLineLoop delimiter [] out cur inQuotes = out @ [cur]"
| "splitLineLoop delimiter (ch # rest) out cur inQuotes =
     (if ch = CHR 0x22 then
        (case rest of
           [] \<Rightarrow> splitLineLoop delimiter rest out cur (\<not> inQuotes)
         | x # rest' \<Rightarrow>
             if inQuotes \<and> x = CHR 0x22 then splitLineLoop delimiter rest' out (cur @ [CHR 0x22]) inQuotes
             else splitLineLoop delimiter rest out cur (\<not> inQuotes))
      else if ch = delimiter \<and> \<not> inQuotes then splitLineLoop delimiter rest (out @ [cur]) [] inQuotes
      else splitLineLoop delimiter rest out (cur @ [ch]) inQuotes)"

definition splitLine :: "char \<Rightarrow> string \<Rightarrow> string list" where
  "splitLine delimiter line = splitLineLoop delimiter line [] [] False"

definition columnKey :: "string list \<Rightarrow> nat \<Rightarrow> string" where
  "columnKey header j = (if header ! j \<noteq> [] then header ! j else ''col_'' @ decimal j)"

text \<open>
  \<open>obj[key] = cell\<close> for a string \<open>cell\<close>. The key \<open>__proto__\<close> names the prototype
  accessor that every object inherits, and assigning a string through it stores nothing.
\<close>

definition assignCell :: "string \<Rightarrow> string \<Rightarrow> (string \<times> jsval) list \<Rightarrow> (string \<times> jsval) list" where
  "assignCell key cell obj = (if key = ''__proto__'' then obj else setProp key (JStr cell) obj)"

definition csvRow :: "string list \<Rightarrow> string list \<Rightarrow> (string \<times> jsval) list" where
  "csvRow header cols =
     foldl (\<lambda>obj j. assignCell (columnKey header j) (if j < length cols then cols ! j else []) obj)
       [] [0..<length header]"

definition csvDelimiter :: "string list \<Rightarrow> char" where
  "csvDelimiter lines = detectCSVDelimiter (join [CHR 0x0A] (take (min (length lines) 5) lines))"

definition csvHeader :: "string list \<Rightarrow> string list" where
  "csvHeader lines = map trim (splitLine (csvDelimiter lines) (hd lines))"

definition parseCSV :: "string \<Rightarrow> (string \<times> jsval) list list" where
  "parseCSV text =
     (let lines = csvLines text in
      if lines = [] then []
      else map (\<lambda>line. csvRow (csvHeader lines) (splitLine (csvDelimiter lines) line))
             (filter (\<lambda>line. \<not> (line = [] \<or> isBlank line)) (tl lines)))"

section \<open>Schools ETL: field detection and enrichment\<close>

definition isLowerAZ :: "char \<Rightarrow> bool" where
  "isLowerAZ c = (let n = (of_char c :: nat) in 97 \<le> n \<and> n \<le> 122)"

text \<open>
  \<open>normalizeKey\<close>: every call passes a key of an object or a candidate name, which are
  strings, so \<open>String(s || '')\<close> is \<open>s\<close> itself.
\<close>

definition normalizeKey :: "string \<Rightarrow> string" where
  "normalizeKey s =
     filter (\<lambda>c. isLowerAZ c \<or> isDigit c \<or> c = CHR ''_'')
       (filter (\<lambda>c. \<not> isSpace c) (toLowerCase s))"

text \<open>
  \<open>s.replace(/\bdistrict\b/g, '')\<close>, scanning from the left with the character before
  the current position: the word is removed where no word character stands before or
  after it.
\<close>

definition boundaryBefore :: "char option \<Rightarrow> bool" where
  "boundaryBefore prev = (case prev of None \<Rightarrow> True | Some p \<Rightarrow> \<not> isWordChar p)"

definition boundaryAfter :: "string \<Rightarrow> bool" where
  "boundaryAfter rest = (case rest of [] \<Rightarrow> True | x # _ \<Rightarrow> \<not> isWordChar x)"

function removeDistrictWord :: "char option \<Rightarrow> string \<Rightarrow> string" where
  "removeDistrictWord prev [] = []"
| "removeDistrictWord prev (c # cs) =
     (if boundaryBefore prev \<and> startsWith ''district'' (c # cs) \<and> boundaryAfter (drop 7 cs)
      then removeDistrictWord (Some (CHR ''t'')) (drop 7 cs)
      else c # removeDistrictWord (Some c) cs)"
  by pat_completeness auto
termination
  by (relation "measure (\<lambda>(prev, s). length s)") auto

text \<open>\<open>s.replace(/\s+/g, ' ')\<close>.\<close>

function collapseSpaces :: "string \<Rightarrow> string" where
  "collapseSpaces [] = []"
| "collapseSpaces (c # cs) =
     (if isSpace c then CHR 0x20 # collapseSpaces (dropWhile isSpace cs) else c # collapseSpaces cs)"
  by pat_completeness auto
termination
  by (relation "measure length") (auto simp: length_dropWhile_le le_imp_less_Suc)

text \<open>
  \<open>normalizeDistrictName\<close>: the four steps applied to the lower-cased and trimmed text
  of the name, all the steps applied to the text, and the function itself, which
  returns the empty string on a falsy name and converts every other name first.
\<close>

definition normalizeLowered :: "string \<Rightarrow> string" where
  "normalizeLowered s =
     trim (filter (\<lambda>c. isLowerAZ c \<or> isSpace c) (collapseSpaces (removeDistrictWord None s)))"

definition normalizeDistrictText :: "string \<Rightarrow> string" where
  "normalizeDistrictText t = normalizeLowered (trim (toLowerCase t))"

definition normalizeDistrictName :: "(jsnum \<Rightarrow> string) \<Rightarrow> jsval \<Rightarrow> js_error + string" where
  "normalizeDistrictName fmt name =
     (if \<not> truthy name then Inr []
      else map_sum id normalizeDistrictText (String_js fmt name))"

text \<open>
  \<open>detectField\<close>: the map from normalised key to key is built over the keys as
  \<open>Object.keys\<close> lists them, a later key replacing an earlier one with the same
  normalised form; a key found must be truthy, that is, not the empty string.
\<close>

definition detectField :: "(string \<times> jsval) list \<Rightarrow> string list \<Rightarrow> string option" where
  "detectField obj candidates =
     (let normMap = map_of (rev (map (\<lambda>k. (normalizeKey k, k)) (ownKeys obj))) in
      case filter (\<lambda>got. got \<noteq> []) (List.map_filter (\<lambda>c. normMap (normalizeKey c)) candidates) of
        [] \<Rightarrow> None
      | got # _ \<Rightarrow> Some got)"

text \<open>
  \<open>toNumber\<close>: \<open>Number\<close> on strings is the parameter \<open>numberOf\<close>, with \<open>None\<close> where the
  result is not finite.
\<close>

definition toNumber :: "(string \<Rightarrow> rat option) \<Rightarrow> (jsnum \<Rightarrow> string) \<Rightarrow> jsval \<Rightarrow> js_error + rat option" where
  "toNumber numberOf fmt n = map_sum id (\<lambda>s. numberOf (trim s)) (String_js fmt n)"

text \<open>
  \<open>enrichProperties\<close> on the entries of \<open>{ ...props }\<close>. The classifiers and the
  normaliser convert to text, so each of the three calls may throw.
\<close>

definition enrichProperties ::
  "(jsnum \<Rightarrow> string) \<Rightarrow> (string \<times> jsval) list \<Rightarrow> (string \<Rightarrow> jsval)
     \<Rightarrow> js_error + (string \<times> jsval) list" where
  "enrichProperties fmt props districtToRegion =
     (let p = props in
      case guessOwnership fmt
             (js_or (getProp p ''ownership'') (js_or (getProp p ''operator:type'')
               (js_or (getProp p ''operator_type'') (js_or (getProp p ''operatorType'')
                 (getProp p ''management''))))) of
        Inl e \<Rightarrow> Inl e
      | Inr ownership \<Rightarrow>
          (let p = setProp ''ownership'' (JStr ownership) p in
           case guessGender fmt
                  (js_or (getProp p ''gender'') (js_or (getProp p ''gender_of_students'') (getProp p ''sex''))) of
             Inl e \<Rightarrow> Inl e
           | Inr gender \<Rightarrow>
               (let p = setProp ''gender'' (JStr gender) p;
                    district = js_or (getProp p ''district'') (js_or (getProp p ''addr:district'')
                                 (js_or (getProp p ''is_in:district'') (js_or (getProp p ''admin2'')
                                   (js_or (getProp p ''ADM2_NAME'') (getProp p ''subcounty'')))));
                    p = setProp ''district'' (js_or district JNull) p;
                    region = js_or (getProp p ''region'') (js_or (getProp p ''ADM1_NAME'')
                               (js_or (getProp p ''province'') JNull))
                in if \<not> truthy region \<and> truthy (getProp p ''district'')
                   then (case normalizeDistrictName fmt (getProp p ''district'') of
                           Inl e \<Rightarrow> Inl e
                         | Inr k \<Rightarrow> Inr (setProp ''region'' (js_or (districtToRegion k) JNull) p))
                   else Inr (setProp ''region'' region p))))"

text \<open>
  A loop that pushes what its body yields for an element, goes on to the next element
  where the body yields nothing, and ends where the body throws.
\<close>

fun collect :: "('a \<Rightarrow> js_error + 'b option) \<Rightarrow> 'a list \<Rightarrow> js_error + 'b list" where
  "collect body [] = Inr []"
| "collect body (x # xs) =
     (case body x of
        Inl e \<Rightarrow> Inl e
      | Inr y \<Rightarrow>
          (case collect body xs of
             Inl e \<Rightarrow> Inl e
           | Inr out \<Rightarrow> Inr (case y of None \<Rightarrow> out | Some v \<Rightarrow> v # out)))"

text \<open>The body of the loop of \<open>rowsToGeoJSON\<close>, and the function.\<close>

definition rowFeature ::
  "(string \<Rightarrow> rat option) \<Rightarrow> (jsnum \<Rightarrow> string) \<Rightarrow> string \<Rightarrow> string \<Rightarrow> string option \<Rightarrow> string option
     \<Rightarrow> string option \<Rightarrow> string option \<Rightarrow> (string \<times> jsval) list \<Rightarrow> js_error + feature option" where
  "rowFeature numberOf fmt latKey lonKey nameKey ownershipKey genderKey districtKey r =
     (case toNumber numberOf fmt (getProp r latKey) of
        Inl e \<Rightarrow> Inl e
      | Inr lat \<Rightarrow>
          (case toNumber numberOf fmt (getProp r lonKey) of
             Inl e \<Rightarrow> Inl e
           | Inr lon \<Rightarrow>
               Inr (case (lat, lon) of
                      (Some la, Some lo) \<Rightarrow>
                        (let props = [];
                             props = (case nameKey of None \<Rightarrow> props | Some k \<Rightarrow> setProp ''name'' (getProp r k) props);
                             props = (case ownershipKey of None \<Rightarrow> props
                                      | Some k \<Rightarrow> setProp ''ownership'' (getProp r k) props);
                             props = (case genderKey of None \<Rightarrow> props | Some k \<Rightarrow> setProp ''gender'' (getProp r k) props);
                             props = (case districtKey of None \<Rightarrow> props
                                      | Some k \<Rightarrow> setProp ''district'' (getProp r k) props)
                         in Some \<lparr> geometry = pointGeometry (JArr [JNum lo, JNum la]), properties = JObj props \<rparr>)
                    | _ \<Rightarrow> None)))"

definition rowsToGeoJSON ::
  "(string \<Rightarrow> rat option) \<Rightarrow> (jsnum \<Rightarrow> string) \<Rightarrow> (string \<times> jsval) list list \<Rightarrow> js_error + feature list" where
  "rowsToGeoJSON numberOf fmt rows =
     (case rows of
        [] \<Rightarrow> Inr []
      | first # _ \<Rightarrow>
          (let latKey = detectField first [''lat'', ''latitude'', ''y'', ''geom_lat'', ''Latitude'', ''Lat''];
               lonKey = detectField first
                 [''lon'', ''lng'', ''longitude'', ''x'', ''geom_lon'', ''Longitude'', ''Long'', ''Lng''];
               nameKey = detectField first [''name'', ''school'', ''school_name'', ''name_of_school'', ''Name''];
               ownershipKey = detectField first [''ownership'', ''ownership_type'', ''management'', ''operator:type''];
               genderKey = detectField first [''gender'', ''gender_of_students'', ''sex''];
               districtKey = detectField first [''district'', ''adm2'', ''admin2'', ''ADM2_NAME'']
           in case (latKey, lonKey) of
                (Some la, Some lo) \<Rightarrow>
                  collect (rowFeature numberOf fmt la lo nameKey ownershipKey genderKey districtKey) rows
              | _ \<Rightarrow> Inl (Error ''CSV dataset does not contain recognizable lat/lon columns'')))"

section \<open>Schools ETL: geometry\<close>

text \<open>\<open>v.k\<close> on a value known not to be \<open>null\<close> or \<open>undefined\<close>.\<close>

definition field :: "jsval \<Rightarrow> string \<Rightarrow> jsval" where
  "field v k = (case v of JObj kvs \<Rightarrow> getProp kvs k | _ \<Rightarrow> JUndefined)"

text \<open>\<open>for (const c of v)\<close>: arrays and strings are iterable, nothing else is.\<close>

fun iterate :: "jsval \<Rightarrow> js_error + jsval list" where
  "iterate (JArr xs) = Inr xs"
| "iterate (JStr s) = Inr (map (\<lambda>c. JStr [c]) s)"
| "iterate v = Inl TypeError"

text \<open>\<open>v[0]\<close>.\<close>

fun index0 :: "jsval \<Rightarrow> js_error + jsval" where
  "index0 JUndefined = Inl TypeError"
| "index0 JNull = Inl TypeError"
| "index0 (JArr xs) = Inr (case xs of [] \<Rightarrow> JUndefined | x # _ \<Rightarrow> x)"
| "index0 (JStr s) = Inr (case s of [] \<Rightarrow> JUndefined | c # _ \<Rightarrow> JStr [c])"
| "index0 (JObj kvs) = Inr (getProp kvs ''0'')"
| "index0 v = Inr JUndefined"

text \<open>\<open>v.flat()\<close> and \<open>v.flat(2)\<close>: only an array has the method.\<close>

definition flat1 :: "jsval list \<Rightarrow> jsval list" where
  "flat1 xs = concat (map (\<lambda>x. case x of JArr ys \<Rightarrow> ys | _ \<Rightarrow> [x]) xs)"

fun flat :: "nat \<Rightarrow> jsval \<Rightarrow> js_error + jsval" where
  "flat depth (JArr xs) = Inr (JArr ((flat1 ^^ depth) xs))"
| "flat depth v = Inl TypeError"

text \<open>
  The two operations of \<open>basicCentroid\<close> on numbers: \<open>a + b\<close> on doubles, which rounds
  and may overflow, and \<open>a / n\<close> for a count \<open>n\<close>. They are parameters of every function
  that computes a centroid.
\<close>

record arith =
  numAdd :: "jsnum \<Rightarrow> jsnum \<Rightarrow> jsnum"
  numDiv :: "jsnum \<Rightarrow> nat \<Rightarrow> jsnum"

definition centroidStep :: "arith \<Rightarrow> jsnum \<times> jsnum \<times> nat \<Rightarrow> jsval \<Rightarrow> jsnum \<times> jsnum \<times> nat" where
  "centroidStep ar acc c =
     (case acc of (sx, sy, n) \<Rightarrow>
        (case c of
           JArr (JNumber x # JNumber y # _) \<Rightarrow> (numAdd ar sx x, numAdd ar sy y, Suc n)
         | _ \<Rightarrow> (sx, sy, n)))"

definition basicCentroid :: "arith \<Rightarrow> jsval \<Rightarrow> js_error + jsval" where
  "basicCentroid ar coords =
     (case iterate coords of
        Inl e \<Rightarrow> Inl e
      | Inr cs \<Rightarrow>
          (case foldl (centroidStep ar) (Fin 0, Fin 0, 0) cs of (sx, sy, n) \<Rightarrow>
             Inr (if n = 0 then JNull else JArr [JNumber (numDiv ar sx n), JNumber (numDiv ar sy n)])))"

definition centroidPoint :: "arith \<Rightarrow> js_error + jsval \<Rightarrow> js_error + jsval" where
  "centroidPoint ar coords =
     (case coords of Inl e \<Rightarrow> Inl e | Inr c \<Rightarrow> map_sum id pointGeometry (basicCentroid ar c))"

definition toPointGeometry :: "arith \<Rightarrow> jsval \<Rightarrow> js_error + jsval" where
  "toPointGeometry ar g =
     (if \<not> truthy g then Inr JNull
      else if field g ''type'' = JStr ''Point'' then Inr g
      else if field g ''type'' = JStr ''MultiPoint''
        then map_sum id pointGeometry (index0 (field g ''coordinates''))
      else if field g ''type'' = JStr ''LineString''
        then centroidPoint ar (Inr (field g ''coordinates''))
      else if field g ''type'' = JStr ''MultiLineString''
        then centroidPoint ar (flat 1 (field g ''coordinates''))
      else if field g ''type'' = JStr ''Polygon''
        then centroidPoint ar (flat 1 (field g ''coordinates''))
      else if field g ''type'' = JStr ''MultiPolygon''
        then centroidPoint ar (flat 2 (field g ''coordinates''))
      else Inr JNull)"

definition featureCollection :: "jsval \<Rightarrow> jsval" where
  "featureCollection features = JObj [(''type'', JStr ''FeatureCollection''), (''features'', features)]"

definition anyToFeatureCollection :: "jsval \<Rightarrow> jsval" where
  "anyToFeatureCollection obj =
     (if \<not> truthy obj then featureCollection (JArr [])
      else if field obj ''type'' = JStr ''FeatureCollection'' \<and> isArray (field obj ''features'') then obj
      else if isArray obj then featureCollection obj
      else if isArray (field obj ''features'') then featureCollection (field obj ''features'')
      else featureCollection (JArr []))"

text \<open>The test of \<open>coerceToPoints\<close> that keeps a feature.\<close>

definition keepsPoint :: "jsval \<Rightarrow> bool" where
  "keepsPoint geom =
     (truthy geom \<and>
      (case field geom ''coordinates'' of JArr ns \<Rightarrow> list_all isNumber ns | _ \<Rightarrow> False))"

fun coerceFeatures :: "arith \<Rightarrow> jsval list \<Rightarrow> js_error + feature list" where
  "coerceFeatures ar [] = Inr []"
| "coerceFeatures ar (f # fs) =
     (case member f ''geometry'' of
        Inl e \<Rightarrow> Inl e
      | Inr g \<Rightarrow>
          (case toPointGeometry ar g of
             Inl e \<Rightarrow> Inl e
           | Inr geom \<Rightarrow>
               (case coerceFeatures ar fs of
                  Inl e \<Rightarrow> Inl e
                | Inr out \<Rightarrow>
                    Inr (if keepsPoint geom
                         then \<lparr> geometry = geom, properties = js_or (field f ''properties'') (JObj []) \<rparr> # out
                         else out))))"

definition coerceToPoints :: "arith \<Rightarrow> jsval \<Rightarrow> js_error + feature list" where
  "coerceToPoints ar fc =
     (case iterate (js_or (field fc ''features'') (JArr [])) of
        Inl e \<Rightarrow> Inl e
      | Inr fs \<Rightarrow> coerceFeatures ar fs)"

text \<open>The body of the loop of \<open>enrichFeatureCollection\<close>, and the function.\<close>

definition enrichFeature :: "(jsnum \<Rightarrow> string) \<Rightarrow> (string \<Rightarrow> jsval) \<Rightarrow> feature \<Rightarrow> js_error + feature" where
  "enrichFeature fmt districtToRegion f =
     (let props = spread (js_or (properties f) (JObj []));
          nameKey = detectField props [''name'', ''school'', ''school_name'', ''Name''];
          props = (case nameKey of
                     None \<Rightarrow> props
                   | Some k \<Rightarrow> if \<not> truthy (getProp props ''name'')
                               then setProp ''name'' (getProp props k) props else props)
      in map_sum id (\<lambda>p. \<lparr> geometry = geometry f, properties = JObj p \<rparr>)
           (enrichProperties fmt props districtToRegion))"

fun enrichFeatureCollection ::
  "(jsnum \<Rightarrow> string) \<Rightarrow> (string \<Rightarrow> jsval) \<Rightarrow> feature list \<Rightarrow> js_error + feature list" where
  "enrichFeatureCollection fmt districtToRegion [] = Inr []"
| "enrichFeatureCollection fmt districtToRegion (f # fs) =
     (case enrichFeature fmt districtToRegion f of
        Inl e \<Rightarrow> Inl e
      | Inr g \<Rightarrow>
          (case enrichFeatureCollection fmt districtToRegion fs of
             Inl e \<Rightarrow> Inl e
           | Inr out \<Rightarrow> Inr (g # out)))"

section \<open>Schools ETL: sourcing\<close>

text \<open>
  What a run of the schools script meets outside itself: the files under the project
  root (\<open>None\<close> for a path that does not exist, \<open>Inl\<close> for a file whose read throws),
  the environment variables, the answers of the network, the outcome of writing the
  output file (\<open>Some\<close> the error when the write throws), and the runtime's \<open>JSON.parse\<close>
  (\<open>None\<close> where it throws), \<open>Number\<close> on strings, number formatting and arithmetic.
  \<open>regionsTable\<close> is the outcome of the first lines of \<open>main\<close> (the directories are
  ensured, regions.json is read and \<open>buildDistrictToRegionMap\<close> builds the lookup
  table): \<open>Inl\<close> when one of them throws, else the lookup \<open>districtToRegion[k]\<close>.
\<close>

record world =
  files :: "string \<Rightarrow> (js_error + string) option"
  envVar :: "string \<Rightarrow> string option"
  httpGet :: "string \<Rightarrow> js_error + string"
  httpPost :: "string \<Rightarrow> js_error + string"
  writeResult :: "js_error option"
  jsonParse :: "string \<Rightarrow> jsval option"
  numberOf :: "string \<Rightarrow> rat option"
  formatNumber :: "jsnum \<Rightarrow> string"
  arithmetic :: arith
  regionsTable :: "js_error + (string \<Rightarrow> jsval)"

text \<open>The reads, requests and writes of a run, in the order they happen.\<close>

datatype effect = ReadFile string | Get string | Post string | WriteFile string

definition tryParseJSON :: "world \<Rightarrow> string \<Rightarrow> jsval" where
  "tryParseJSON w text = (case jsonParse w text of None \<Rightarrow> JNull | Some j \<Rightarrow> j)"

definition localCandidates :: "string list" where
  "localCandidates =
     [''data/official_secondary_schools.geojson'',
      ''data/official_secondary_schools.json'',
      ''data/official_secondary_schools.csv'']"

definition tryReadLocalOfficialDataset :: "world \<Rightarrow> string option" where
  "tryReadLocalOfficialDataset w = find (\<lambda>p. files w p \<noteq> None) localCandidates"

definition extname :: "string \<Rightarrow> string" where
  "extname p = (if CHR ''.'' \<in> set p then CHR ''.'' # rev (takeWhile (\<lambda>c. c \<noteq> CHR ''.'') (rev p)) else [])"

text \<open>An environment variable that is unset or empty is falsy.\<close>

definition envOr :: "world \<Rightarrow> string \<Rightarrow> string \<Rightarrow> string" where
  "envOr w name other = (case envVar w name of None \<Rightarrow> other | Some v \<Rightarrow> if v \<noteq> [] then v else other)"

text \<open>
  \<open>tryLoadOfficialDataset\<close>, first half: the branch taken when a local candidate file
  exists. It returns or throws; it never falls through to the URL.
\<close>

definition loadLocalOfficial :: "world \<Rightarrow> (string \<Rightarrow> jsval) \<Rightarrow> string \<Rightarrow> js_error + (string \<times> feature list) option" where
  "loadLocalOfficial w districtToRegion localPath =
     (case files w localPath of
        None \<Rightarrow> Inl (Error ''ENOENT'')
      | Some (Inl e) \<Rightarrow> Inl e
      | Some (Inr raw) \<Rightarrow>
          if toLowerCase (extname localPath) = ''.csv'' then
            (case rowsToGeoJSON (numberOf w) (formatNumber w) (parseCSV raw) of
               Inl e \<Rightarrow> Inl e
             | Inr fc \<Rightarrow>
                 map_sum id (\<lambda>fc. Some (''official-local'', fc))
                   (enrichFeatureCollection (formatNumber w) districtToRegion fc))
          else if \<not> truthy (tryParseJSON w raw) then Inl (Error ''Failed to parse local official dataset JSON'')
          else
            (case coerceToPoints (arithmetic w) (anyToFeatureCollection (tryParseJSON w raw)) of
               Inl e \<Rightarrow> Inl e
             | Inr fc \<Rightarrow>
                 map_sum id (\<lambda>fc. Some (''official-local'', fc))
                   (enrichFeatureCollection (formatNumber w) districtToRegion fc)))"

text \<open>Second half: the URL of the environment, reached only when no local file exists.\<close>

definition officialUrl :: "world \<Rightarrow> string" where
  "officialUrl w = envOr w ''OFFICIAL_SCHOOLS_URL'' (envOr w ''SECONDARY_SCHOOLS_URL'' [])"

definition loadRemoteOfficial ::
  "world \<Rightarrow> (string \<Rightarrow> jsval) \<Rightarrow> effect list \<times> (js_error + (string \<times> feature list) option)" where
  "loadRemoteOfficial w districtToRegion =
     (if officialUrl w = [] then ([], Inr None)
      else
        ([Get (officialUrl w)],
         (case httpGet w (officialUrl w) of
            Inl e \<Rightarrow> Inl e
          | Inr text \<Rightarrow>
              if truthy (tryParseJSON w text) then
                (case coerceToPoints (arithmetic w) (anyToFeatureCollection (tryParseJSON w text)) of
                   Inl e \<Rightarrow> Inl e
                 | Inr fc \<Rightarrow>
                     map_sum id (\<lambda>fc. Some (''official-remote'', fc))
                       (enrichFeatureCollection (formatNumber w) districtToRegion fc))
              else if parseCSV text \<noteq> [] then
                (case rowsToGeoJSON (numberOf w) (formatNumber w) (parseCSV text) of
                   Inl e \<Rightarrow> Inl e
                 | Inr fc \<Rightarrow>
                     map_sum id (\<lambda>fc. Some (''official-remote-csv'', fc))
                       (enrichFeatureCollection (formatNumber w) districtToRegion fc))
              else Inr None)))"

definition tryLoadOfficialDataset ::
  "world \<Rightarrow> (string \<Rightarrow> jsval) \<Rightarrow> effect list \<times> (js_error + (string \<times> feature list) option)" where
  "tryLoadOfficialDataset w districtToRegion =
     (case tryReadLocalOfficialDataset w of
        Some localPath \<Rightarrow> ([ReadFile localPath], loadLocalOfficial w districtToRegion localPath)
      | None \<Rightarrow> loadRemoteOfficial w districtToRegion)"

text \<open>\<open>fetchOverpass\<close>: one feature per element that has a position.\<close>

definition elementPosition :: "jsval \<Rightarrow> (jsval \<times> jsval) option" where
  "elementPosition el =
     (if field el ''type'' = JStr ''node'' \<and> isNumber (field el ''lon'') \<and> isNumber (field el ''lat'')
        then Some (field el ''lon'', field el ''lat'')
      else if truthy (field el ''center'') \<and> isNumber (field (field el ''center'') ''lon'')
              \<and> isNumber (field (field el ''center'') ''lat'')
        then Some (field (field el ''center'') ''lon'', field (field el ''center'') ''lat'')
      else None)"

definition overpassProperties :: "jsval \<Rightarrow> jsval" where
  "overpassProperties el =
     (let props = spread (js_or (field el ''tags'') (JObj []));
          props = setProp ''name'' (js_or (getProp props ''name'') (js_or (getProp props ''official_name'') JNull)) props;
          props = setProp ''ownership''
                    (js_or (getProp props ''ownership'') (js_or (getProp props ''operator:type'')
                       (js_or (getProp props ''operator_type'') (getProp props ''operator'')))) props;
          props = setProp ''gender'' (js_or (getProp props ''gender'') (getProp props ''student:gender'')) props;
          props = setProp ''district''
                    (js_or (getProp props ''addr:district'') (js_or (getProp props ''district'')
                       (js_or (getProp props ''is_in:district'') JNull))) props
      in JObj props)"

fun overpassFeatures :: "jsval list \<Rightarrow> js_error + feature list" where
  "overpassFeatures [] = Inr []"
| "overpassFeatures (el # els) =
     (case member el ''type'' of
        Inl e \<Rightarrow> Inl e
      | Inr _ \<Rightarrow>
          (case overpassFeatures els of
             Inl e \<Rightarrow> Inl e
           | Inr out \<Rightarrow>
               (case elementPosition el of
                  None \<Rightarrow> Inr out
                | Some (lon, lat) \<Rightarrow>
                    Inr (\<lparr> geometry = pointGeometry (JArr [lon, lat]), properties = overpassProperties el \<rparr> # out))))"

definition overpassEndpoint :: "world \<Rightarrow> string" where
  "overpassEndpoint w = envOr w ''OVERPASS_URL'' ''https://overpass-api.de/api/interpreter''"

definition fetchOverpass :: "world \<Rightarrow> effect list \<times> (js_error + feature list)" where
  "fetchOverpass w =
     ([Post (overpassEndpoint w)],
      (case httpPost w (overpassEndpoint w) of
         Inl e \<Rightarrow> Inl e
       | Inr text \<Rightarrow>
           if \<not> (truthy (tryParseJSON w text) \<and> isArray (field (tryParseJSON w text) ''elements''))
           then Inl (Error ''Invalid Overpass response'')
           else
             (case iterate (field (tryParseJSON w text) ''elements'') of
                Inl e \<Rightarrow> Inl e
              | Inr els \<Rightarrow> overpassFeatures els)))"

text \<open>
  \<open>main\<close>: the effects of the run and, when it wrote the output file, the \<open>meta.source\<close>
  and the features written; \<open>Inl\<close> is the error that sets the exit code. The last lines
  of the \<open>try\<close> block write the collection, and the write itself may throw.
\<close>

definition outputPath :: string where
  "outputPath = ''public/data/schools.geojson''"

definition writeOutput ::
  "world \<Rightarrow> effect list \<Rightarrow> string \<Rightarrow> feature list \<Rightarrow> effect list \<times> (js_error + string \<times> feature list)" where
  "writeOutput w effs source fc =
     (effs @ [WriteFile outputPath],
      (case writeResult w of Some e \<Rightarrow> Inl e | None \<Rightarrow> Inr (source, fc)))"

definition main :: "world \<Rightarrow> effect list \<times> (js_error + string \<times> feature list)" where
  "main w =
     (case regionsTable w of
        Inl e \<Rightarrow> ([], Inl e)
      | Inr districtToRegion \<Rightarrow>
          (case tryLoadOfficialDataset w districtToRegion of
             (effs, Inr (Some (source, fc))) \<Rightarrow> writeOutput w effs source fc
           | (effs, _) \<Rightarrow>
               (case fetchOverpass w of
                  (effs', Inl e) \<Rightarrow> (effs @ effs', Inl e)
                | (effs', Inr overpassFC) \<Rightarrow>
                    (case enrichFeatureCollection (formatNumber w) districtToRegion overpassFC of
                       Inl e \<Rightarrow> (effs @ effs', Inl e)
                     | Inr fc \<Rightarrow> writeOutput w (effs @ effs') ''overpass'' fc))))"

section \<open>Fiber ETL: retry coordinator\<close>

text \<open>
  What one \<open>fetch\<close> meets: the request is rejected, or a response arrives whose body
  can be read as text and as JSON (\<open>Inl\<close> where the read throws).
\<close>

datatype http_outcome =
    Rejected js_error
  | Response (ok: bool) (status: nat) (statusText: string) (bodyText: "js_error + string")
      (bodyJson: "js_error + jsval")

text \<open>
  \<open>endpoints[(attempt - 1) % endpoints.length]\<close>: with no endpoint the index is \<open>NaN\<close>
  and the read is \<open>undefined\<close>.
\<close>

definition endpointOf :: "string list \<Rightarrow> nat \<Rightarrow> string option" where
  "endpointOf endpoints attempt =
     (if endpoints = [] then None else Some (endpoints ! ((attempt - 1) mod length endpoints)))"

text \<open>
  The body of the \<open>try\<close> block after \<open>fetch\<close> has settled with \<open>h\<close>: the payload it
  returns or the error it throws.
\<close>

definition responseOutcome :: "(jsnum \<Rightarrow> string) \<Rightarrow> http_outcome \<Rightarrow> js_error + jsval" where
  "responseOutcome fmt h =
     (case h of
        Rejected e \<Rightarrow> Inl e
      | Response okay st stText txt js \<Rightarrow>
          if \<not> okay then
            (case txt of
               Inl e \<Rightarrow> Inl e
             | Inr t \<Rightarrow> Inl (Error (''Overpass HTTP '' @ decimal st @ '': '' @ stText @ '' - '' @ take 200 t)))
          else
            (case js of
               Inl e \<Rightarrow> Inl e
             | Inr json \<Rightarrow>
                 if truthy json \<and> (isArray json \<or> (case json of JObj _ \<Rightarrow> True | _ \<Rightarrow> False))
                    \<and> truthy (field json ''remark'')
                 then (case String_js fmt (field json ''remark'') of
                         Inl e \<Rightarrow> Inl e
                       | Inr remark \<Rightarrow> Inl (Error (''Overpass remark: '' @ remark)))
                 else Inr json))"

text \<open>
  The result of \<open>postJSONWithRetry\<close>: the endpoints handed to \<open>fetch\<close>, the delays slept,
  and the payload returned or the error thrown.
\<close>

record retry_run =
  requests :: "string option list"
  sleeps :: "int list"
  outcome :: "js_error + jsval"

text \<open>
  The loop of \<open>postJSONWithRetry\<close> from attempt \<open>attempt\<close> on. \<open>net attempt endpoint\<close> is
  how the \<open>fetch\<close> of that attempt settles when it is sent to \<open>endpoint\<close>, and
  \<open>delay baseDelayMs attempt\<close> is the delay computed after that attempt has failed, a
  rounded product of doubles that depends on the draw of \<open>Math.random\<close>.
\<close>

function retryLoop ::
  "(jsnum \<Rightarrow> string) \<Rightarrow> (nat \<Rightarrow> string option \<Rightarrow> http_outcome) \<Rightarrow> (rat \<Rightarrow> nat \<Rightarrow> int) \<Rightarrow> string list
     \<Rightarrow> nat \<Rightarrow> rat \<Rightarrow> nat \<Rightarrow> js_error option \<Rightarrow> retry_run" where
  "retryLoop fmt net delay endpoints maxAttempts baseDelayMs attempt lastError =
     (if attempt \<le> maxAttempts then
        (let endpoint = endpointOf endpoints attempt in
         case responseOutcome fmt (net attempt endpoint) of
           Inr json \<Rightarrow> \<lparr> requests = [endpoint], sleeps = [], outcome = Inr json \<rparr>
         | Inl err \<Rightarrow>
             (let rest = retryLoop fmt net delay endpoints maxAttempts baseDelayMs (Suc attempt) (Some err)
              in rest \<lparr> requests := endpoint # requests rest,
                        sleeps := (if attempt < maxAttempts
                                   then delay baseDelayMs attempt # sleeps rest
                                   else sleeps rest) \<rparr>))
      else \<lparr> requests = [], sleeps = [],
             outcome = Inl (case lastError of Some e \<Rightarrow> e | None \<Rightarrow> Error ''Overpass query failed'') \<rparr>)"
  by pat_completeness auto
termination
  by (relation "measure (\<lambda>(fmt, net, delay, endpoints, maxAttempts, baseDelayMs, attempt, lastError).
        Suc maxAttempts - attempt)") auto

definition postJSONWithRetry ::
  "(jsnum \<Rightarrow> string) \<Rightarrow> (nat \<Rightarrow> string option \<Rightarrow> http_outcome) \<Rightarrow> (rat \<Rightarrow> nat \<Rightarrow> int) \<Rightarrow> string list
     \<Rightarrow> nat \<Rightarrow> rat \<Rightarrow> retry_run" where
  "postJSONWithRetry fmt net delay endpoints maxAttempts baseDelayMs =
     retryLoop fmt net delay endpoints maxAttempts baseDelayMs 1 None"

section \<open>Fiber ETL: elements to features\<close>

text \<open>
  The texts this part of the script builds are those of the tags it tests and of the
  type and id of an element, which in an Overpass response are strings and numbers. A
  string is its own text; the text of every other value is the parameter \<open>conv\<close>.
\<close>

definition textOf :: "(jsval \<Rightarrow> string) \<Rightarrow> jsval \<Rightarrow> string" where
  "textOf conv v = (case v of JStr s \<Rightarrow> s | _ \<Rightarrow> conv v)"

text \<open>
  \<open>/fibre|fiber/i.test(v)\<close> and \<open>/^(exchange|distribution_point|data_center)$/i.test(v)\<close>;
  \<open>test\<close> converts its argument to a string, and on the code units modelled ignoring
  case is comparing the lower-cased text.
\<close>

definition testFiber :: "(jsval \<Rightarrow> string) \<Rightarrow> jsval \<Rightarrow> bool" where
  "testFiber conv v =
     (testLiteral ''fibre'' (toLowerCase (textOf conv v)) \<or> testLiteral ''fiber'' (toLowerCase (textOf conv v)))"

definition testTelecomSite :: "(jsval \<Rightarrow> string) \<Rightarrow> jsval \<Rightarrow> bool" where
  "testTelecomSite conv v =
     (toLowerCase (textOf conv v) = ''exchange'' \<or> toLowerCase (textOf conv v) = ''distribution_point''
      \<or> toLowerCase (textOf conv v) = ''data_center'')"

definition featureType :: "(jsval \<Rightarrow> string) \<Rightarrow> jsval \<Rightarrow> jsval \<Rightarrow> jsval" where
  "featureType conv el tags =
     (let featureType =
            (if (field el ''type'' = JStr ''way'' \<or> field el ''type'' = JStr ''relation'')
                \<and> ((field tags ''cable'' = JStr ''telecom''
                      \<and> testFiber conv (js_or (field tags ''cable:medium'') (JStr [])))
                    \<or> (truthy (field tags ''communication:line'')
                        \<and> testFiber conv (js_or (field tags ''communication:medium'') (JStr []))))
             then JStr ''fiber_line'' else JNull)
      in if field el ''type'' = JStr ''node'' then
           (if testTelecomSite conv (js_or (field tags ''telecom'') (JStr [])) then JStr ''telecom_site''
            else if field tags ''man_made'' = JStr ''street_cabinet'' \<and> truthy (field tags ''telecom'')
              then JStr ''telecom_cabinet''
            else if field tags ''man_made'' = JStr ''utility_pole'' \<and> field tags ''utility'' = JStr ''telecom''
              then JStr ''telecom_pole''
            else featureType)
         else featureType)"

definition fiberProperties :: "(jsval \<Rightarrow> string) \<Rightarrow> jsval \<Rightarrow> jsval \<Rightarrow> jsval" where
  "fiberProperties conv el tags =
     JObj [(''osm_id'', field el ''id''),
           (''osm_type'', field el ''type''),
           (''name'', js_or (field tags ''name'') (js_or (field tags ''ref'') JNull)),
           (''operator'', js_or (field tags ''operator'') JNull),
           (''owner'', js_or (field tags ''owner'') JNull),
           (''telecom'', js_or (field tags ''telecom'') JNull),
           (''cable_medium'', js_or (field tags ''cable:medium'') JNull),
           (''communication_medium'', js_or (field tags ''communication:medium'') JNull),
           (''source'', JStr ''OpenStreetMap''),
           (''licence'', JStr ''ODbL-1.0''),
           (''attribution'', JStr (CHR 0xA9 # '' OpenStreetMap contributors'')),
           (''feature_type'', featureType conv el tags),
           (''tags'', tags)]"

text \<open>\<open>vs.map((p) => [p.lon, p.lat])\<close>: a \<open>TypeError\<close> on a vertex that is \<open>null\<close>.\<close>

fun vertexPairs :: "jsval list \<Rightarrow> js_error + jsval list" where
  "vertexPairs [] = Inr []"
| "vertexPairs (p # ps) =
     (case member p ''lon'' of
        Inl e \<Rightarrow> Inl e
      | Inr lon \<Rightarrow>
          (case vertexPairs ps of
             Inl e \<Rightarrow> Inl e
           | Inr out \<Rightarrow> Inr (JArr [lon, field p ''lat''] # out)))"

text \<open>The vertices of a member that is a way and carries geometry.\<close>

definition wayVertices :: "jsval \<Rightarrow> jsval list option" where
  "wayVertices m =
     (if field m ''type'' = JStr ''way''
      then (case field m ''geometry'' of JArr vs \<Rightarrow> Some vs | _ \<Rightarrow> None)
      else None)"

fun memberLines :: "jsval list \<Rightarrow> js_error + jsval list" where
  "memberLines [] = Inr []"
| "memberLines (m # ms) =
     (case member m ''type'' of
        Inl e \<Rightarrow> Inl e
      | Inr _ \<Rightarrow>
          (case wayVertices m of
             None \<Rightarrow> memberLines ms
           | Some vs \<Rightarrow>
               (case vertexPairs vs of
                  Inl e \<Rightarrow> Inl e
                | Inr line \<Rightarrow>
                    (case memberLines ms of
                       Inl e \<Rightarrow> Inl e
                     | Inr lines \<Rightarrow> Inr (JArr line # lines)))))"

definition lineGeometry :: "string \<Rightarrow> jsval \<Rightarrow> jsval" where
  "lineGeometry type coords = JObj [(''type'', JStr type), (''coordinates'', coords)]"

text \<open>The geometry of an element, \<open>null\<close> when it has none.\<close>

definition fiberGeometry :: "jsval \<Rightarrow> js_error + jsval" where
  "fiberGeometry el =
     (if field el ''type'' = JStr ''node'' \<and> isNumber (field el ''lon'') \<and> isNumber (field el ''lat'')
        then Inr (pointGeometry (JArr [field el ''lon'', field el ''lat'']))
      else if field el ''type'' = JStr ''way'' \<and> isArray (field el ''geometry'')
        then (case iterate (field el ''geometry'') of
                Inl e \<Rightarrow> Inl e
              | Inr vs \<Rightarrow> map_sum id (\<lambda>coords. lineGeometry ''LineString'' (JArr coords)) (vertexPairs vs))
      else if field el ''type'' = JStr ''relation'' \<and> isArray (field el ''members'')
        then (case iterate (field el ''members'') of
                Inl e \<Rightarrow> Inl e
              | Inr ms \<Rightarrow>
                  (case memberLines ms of
                     Inl e \<Rightarrow> Inl e
                   | Inr lines \<Rightarrow>
                       Inr (if length lines > 0
                            then (if length lines = 1 then lineGeometry ''LineString'' (lines ! 0)
                                  else lineGeometry ''MultiLineString'' (JArr lines))
                            else JNull)))
      else Inr JNull)"

record fiber_feature = feature +
  featureId :: string

definition elementToGeoJSONFeature :: "(jsval \<Rightarrow> string) \<Rightarrow> jsval \<Rightarrow> js_error + fiber_feature option" where
  "elementToGeoJSONFeature conv el =
     (case member el ''tags'' of
        Inl e \<Rightarrow> Inl e
      | Inr t \<Rightarrow>
          (case fiberGeometry el of
             Inl e \<Rightarrow> Inl e
           | Inr geom \<Rightarrow>
               if \<not> truthy geom then Inr None
               else Inr (Some \<lparr> geometry = geom,
                                 properties = fiberProperties conv el (js_or t (JObj [])),
                                 featureId = textOf conv (field el ''type'') @ ''/'' @ textOf conv (field el ''id'') \<rparr>)))"

fun buildFeatureCollection :: "(jsval \<Rightarrow> string) \<Rightarrow> jsval list \<Rightarrow> js_error + fiber_feature list" where
  "buildFeatureCollection conv [] = Inr []"
| "buildFeatureCollection conv (el # elements) =
     (case elementToGeoJSONFeature conv el of
        Inl e \<Rightarrow> Inl e
      | Inr f \<Rightarrow>
          (case buildFeatureCollection conv elements of
             Inl e \<Rightarrow> Inl e
           | Inr features \<Rightarrow> Inr (case f of None \<Rightarrow> features | Some x \<Rightarrow> x # features)))"

section \<open>Notions used to state the properties\<close>



text \<open>
  A value that has a text: it is not an object with an entry \<open>toString\<close> of its own,
  nor an array that holds a value without a text.
\<close>

fun convertible :: "jsval \<Rightarrow> bool" where
  "convertible (JObj kvs) = (''toString'' \<notin> set (map fst kvs))"
| "convertible (JArr xs) = list_all convertible xs"
| "convertible v = True"

text \<open>
  The region that enrichment resolves for the record \<open>props\<close> when its district is the
  string \<open>d\<close>.
\<close>

definition regionOf ::
  "(jsnum \<Rightarrow> string) \<Rightarrow> (string \<Rightarrow> jsval) \<Rightarrow> (string \<times> jsval) list \<Rightarrow> string \<Rightarrow> js_error + jsval" where
  "regionOf fmt districtToRegion props d =
     map_sum id (\<lambda>p. getProp p ''region'')
       (enrichProperties fmt (setProp ''district'' (JStr d) props) districtToRegion)"

text \<open>A character that is neither a word character nor white space.\<close>

definition isPunctuation :: "char \<Rightarrow> bool" where
  "isPunctuation c = (\<not> isWordChar c \<and> \<not> isSpace c)"

text \<open>
  The numeric coordinate pair an element of a coordinate list holds, the pairs of a
  list, and the point the code computes from them: each component is summed from 0
  in the order of the list and the sum is divided by the number of pairs, in the
  arithmetic of doubles.
\<close>

definition pairOf :: "jsval \<Rightarrow> (jsnum \<times> jsnum) option" where
  "pairOf c = (case c of JArr (JNumber x # JNumber y # _) \<Rightarrow> Some (x, y) | _ \<Rightarrow> None)"

definition coordinatePairs :: "jsval list \<Rightarrow> (jsnum \<times> jsnum) list" where
  "coordinatePairs cs = List.map_filter pairOf cs"

definition meanPoint :: "arith \<Rightarrow> (jsnum \<times> jsnum) list \<Rightarrow> jsval" where
  "meanPoint ar ps =
     JArr [JNumber (numDiv ar (foldl (numAdd ar) (Fin 0) (map fst ps)) (length ps)),
           JNumber (numDiv ar (foldl (numAdd ar) (Fin 0) (map snd ps)) (length ps))]"

text \<open>
  An arithmetic in which the sum of two finite numbers and the quotient of a finite
  number by a count are exact. Doubles agree with it wherever the exact result is a
  double, as on the small integers of the examples below; its values on the numbers
  that are not finite are not used.
\<close>

definition exactArith :: arith where
  "exactArith =
     \<lparr> numAdd = (\<lambda>a b. case (a, b) of (Fin x, Fin y) \<Rightarrow> Fin (x + y) | _ \<Rightarrow> NaN),
       numDiv = (\<lambda>a n. case a of Fin x \<Rightarrow> Fin (x / of_nat n) | _ \<Rightarrow> NaN) \<rparr>"

text \<open>
  The sum of a list of finite numbers, accumulated from 0 in the order of the list, and
  its quotient by the length of the list are exact.
\<close>

definition exactSums :: "arith \<Rightarrow> rat list \<Rightarrow> bool" where
  "exactSums ar rs =
     (foldl (numAdd ar) (Fin 0) (map Fin rs) = Fin (sum_list rs)
      \<and> numDiv ar (Fin (sum_list rs)) (length rs) = Fin (sum_list rs / of_nat (length rs)))"

text \<open>
  The specification's words: all numeric coordinate pairs found anywhere in a nested
  coordinate structure.
\<close>

fun nestedPairs :: "jsval \<Rightarrow> (jsnum \<times> jsnum) list" where
  "nestedPairs (JArr (JNumber x # JNumber y # rest)) = [(x, y)]"
| "nestedPairs (JArr xs) = concat (map nestedPairs xs)"
| "nestedPairs v = []"


definition vertexPair :: "jsval \<Rightarrow> jsval" where
  "vertexPair p = JArr [field p ''lon'', field p ''lat'']"

definition numericVertex :: "jsval \<Rightarrow> bool" where
  "numericVertex p = (isNumber (field p ''lon'') \<and> isNumber (field p ''lat''))"

text \<open>The lines of a relation: one per member way that carries geometry, in member order.\<close>

definition relationLines :: "jsval list \<Rightarrow> jsval list" where
  "relationLines ms = map (\<lambda>vs. JArr (map vertexPair vs)) (List.map_filter wayVertices ms)"

text \<open>The vertices from which the geometry of a way or a relation is built.\<close>

definition elementVertices :: "jsval \<Rightarrow> jsval list" where
  "elementVertices el =
     (if field el ''type'' = JStr ''way''
        then (case field el ''geometry'' of JArr vs \<Rightarrow> vs | _ \<Rightarrow> [])
      else if field el ''type'' = JStr ''relation''
        then (case field el ''members'' of JArr ms \<Rightarrow> concat (List.map_filter wayVertices ms) | _ \<Rightarrow> [])
      else [])"

text \<open>A geometry that is not null and whose coordinate leaves are all numbers.\<close>

fun numericLeaves :: "jsval \<Rightarrow> bool" where
  "numericLeaves (JNumber n) = True"
| "numericLeaves (JArr xs) = list_all numericLeaves xs"
| "numericLeaves v = False"

definition validGeometry :: "jsval \<Rightarrow> bool" where
  "validGeometry geom = (truthy geom \<and> numericLeaves (field geom ''coordinates''))"

text \<open>The specification's words: attempt \<open>i\<close> goes to \<open>endpoints[(i - 1) mod N]\<close>.\<close>

definition rotated :: "string list \<Rightarrow> nat \<Rightarrow> string option" where
  "rotated endpoints i = Some (endpoints ! ((i - 1) mod length endpoints))"

text \<open>
  The outcome of a run that has obtained the collection \<open>x\<close> and writes it; the
  collection of the fallback, which is the answer of Overpass converted and enriched;
  and the fallback of \<open>main\<close> as a run shows it: the request to Overpass, followed by
  the write of the output file when the fallback has a collection.
\<close>

definition written :: "world \<Rightarrow> string \<times> feature list \<Rightarrow> js_error + string \<times> feature list" where
  "written w x = (case writeResult w of Some e \<Rightarrow> Inl e | None \<Rightarrow> Inr x)"

definition fallbackCollection :: "world \<Rightarrow> (string \<Rightarrow> jsval) \<Rightarrow> js_error + feature list" where
  "fallbackCollection w districtToRegion =
     (case snd (fetchOverpass w) of
        Inl e \<Rightarrow> Inl e
      | Inr fc \<Rightarrow> enrichFeatureCollection (formatNumber w) districtToRegion fc)"

definition fallbackEffects :: "world \<Rightarrow> (string \<Rightarrow> jsval) \<Rightarrow> effect list" where
  "fallbackEffects w districtToRegion =
     Post (overpassEndpoint w)
     # (if isl (fallbackCollection w districtToRegion) then [] else [WriteFile outputPath])"

definition fallbackResult :: "world \<Rightarrow> (string \<Rightarrow> jsval) \<Rightarrow> js_error + string \<times> feature list" where
  "fallbackResult w districtToRegion =
     (case fallbackCollection w districtToRegion of
        Inl e \<Rightarrow> Inl e
      | Inr fc \<Rightarrow> written w (''overpass'', fc))"

text \<open>
  Six worlds. In each the lookup table is empty, \<open>OFFICIAL_SCHOOLS_URL\<close> is set and
  serves a GeoJSON array with one point feature, and Overpass answers with no element.
  They differ in the local file: none, a JSON file that does not parse, a CSV file that
  holds only its header line, a CSV file with one school, and a JSON file with one
  school whose \<open>ownership\<close> is the object \<open>{"toString": 1}\<close>; in the sixth there is no
  local file and the output file cannot be written.
\<close>

definition remotePayload :: jsval where
  "remotePayload =
     JArr [JObj [(''geometry'', JObj [(''type'', JStr ''Point''), (''coordinates'', JArr [JNum 32, JNum 1])])]]"

definition localPayload :: jsval where
  "localPayload =
     JArr [JObj [(''geometry'', JObj [(''type'', JStr ''Point''), (''coordinates'', JArr [JNum 32, JNum 1])]),
                 (''properties'', JObj [(''ownership'', JObj [(''toString'', JNum 1)])])]]"

definition baseWorld :: "(string \<Rightarrow> (js_error + string) option) \<Rightarrow> world" where
  "baseWorld fs =
     \<lparr> files = fs,
       envVar = (\<lambda>n. if n = ''OFFICIAL_SCHOOLS_URL'' then Some ''http://official.example/schools'' else None),
       httpGet = (\<lambda>u. Inr ''REMOTE''),
       httpPost = (\<lambda>u. Inr ''OVERPASS''),
       writeResult = None,
       jsonParse = (\<lambda>t. if t = ''REMOTE'' then Some remotePayload
                          else if t = ''LOCAL'' then Some localPayload
                          else if t = ''OVERPASS'' then Some (JObj [(''elements'', JArr [])])
                          else None),
       numberOf = (\<lambda>s. if s = [] then Some 0 else if s = ''0.3'' then Some (3 / 10)
                         else if s = ''32.5'' then Some (65 / 2) else None),
       formatNumber = (\<lambda>n. []),
       arithmetic = exactArith,
       regionsTable = Inr (\<lambda>k. JUndefined) \<rparr>"

definition remoteOnlyWorld :: world where
  "remoteOnlyWorld = baseWorld (\<lambda>p. None)"

definition brokenLocalWorld :: world where
  "brokenLocalWorld =
     baseWorld (\<lambda>p. if p = ''data/official_secondary_schools.json'' then Some (Inr ''{ not json'') else None)"

definition headerOnlyWorld :: world where
  "headerOnlyWorld =
     baseWorld (\<lambda>p. if p = ''data/official_secondary_schools.csv'' then Some (Inr ''Name,Lat,Lng,Ownership'')
                    else None)"

definition localCsvWorld :: world where
  "localCsvWorld =
     baseWorld (\<lambda>p. if p = ''data/official_secondary_schools.csv''
                    then Some (Inr (''Name,Lat,Lng,Ownership'' @ [CHR 0x0A] @ ''St. Marys,0.3,32.5,Government''))
                    else None)"

definition unconvertibleLocalWorld :: world where
  "unconvertibleLocalWorld =
     baseWorld (\<lambda>p. if p = ''data/official_secondary_schools.json'' then Some (Inr ''LOCAL'') else None)"

definition unwritableWorld :: world where
  "unwritableWorld = (baseWorld (\<lambda>p. None)) \<lparr> writeResult := Some (Error ''EACCES'') \<rparr>"

section \<open>Properties\<close>

lemma matchAt_delimiter_source: "matchAt (regExpAtoms (delimiterRegExpSource d)) s = False"
  by (cases s) (simp_all add: regExpAtoms_def delimiterRegExpSource_def)

lemma countMatches_delimiter_source:
  "countMatches (regExpAtoms (delimiterRegExpSource d)) s = 0"
  by (induction s) (simp_all add: matchAt_delimiter_source)

lemma detectCSVDelimiter_comma: "detectCSVDelimiter sample = CHR '',''"
  by (simp add: detectCSVDelimiter_def countMatches_delimiter_source)

text \<open>
  C5. The claim: the delimiter that occurs most often in the sample is returned, so a
  sample whose only candidate delimiters are semicolons yields the semicolon. On the
  sample \<open>a;b;c\<close>, where the semicolon occurs twice and neither the comma nor the tab
  occurs, the code returns the comma: its expression never matches, every count is 0,
  and the first candidate keeps the lead.
\<close>

theorem detectCSVDelimiter_semicolon_sample:
  "detectCSVDelimiter ''a;b;c'' = CHR '',''
   \<and> countMatches (regExpAtoms (delimiterRegExpSource (CHR '';''))) ''a;b;c'' = 0
   \<and> length (filter (\<lambda>c. c = CHR '';'') ''a;b;c'') = 2"
  by (simp add: detectCSVDelimiter_comma countMatches_delimiter_source del: countMatches.simps)

subsection \<open>Strings and objects\<close>

lemma char_of_eq_iff_nat: "(char_of (n::nat) = c) = (n mod 256 = of_char c)"
  by (metis char_of_char of_char_of)

lemma eq_char_of_iff_nat: "(c = char_of (n::nat)) = (n mod 256 = of_char c)"
  by (metis char_of_char of_char_of)

lemma lowerChar_idem: "lowerChar (lowerChar c) = lowerChar c"
  unfolding lowerChar_def Let_def
  by (auto simp: mod_if split: if_splits)

lemma toLowerCase_idem: "toLowerCase (toLowerCase s) = toLowerCase s"
  by (simp add: toLowerCase_def lowerChar_idem)

lemma toLowerCase_Nil_iff: "toLowerCase s = [] \<longleftrightarrow> s = []"
  by (simp add: toLowerCase_def)

lemma getProp_setProp: "getProp (setProp k v kvs) k' = (if k' = k then v else getProp kvs k')"
  by (simp add: getProp_def setProp_def update_conv')

lemma js_or_truthy: "truthy a \<Longrightarrow> js_or a b = a"
  by (simp add: js_or_def)

lemma js_or_falsy: "\<not> truthy a \<Longrightarrow> js_or a b = b"
  by (simp add: js_or_def)

lemma map_sum_id_Inr: "map_sum id f x = Inr y \<longleftrightarrow> (\<exists>z. x = Inr z \<and> y = f z)"
  by (cases x) auto

lemma map_sum_id_Inl: "map_sum id f x = Inl e \<longleftrightarrow> x = Inl e"
  by (cases x) auto

text \<open>A value has a text exactly when its conversion does not throw.\<close>

lemma String_js_convertible:
  "(convertible v \<longrightarrow> (\<exists>t. String_js fmt v = Inr t))
   \<and> (\<not> convertible v \<longrightarrow> String_js fmt v = Inl TypeError)"
  "(list_all convertible xs \<longrightarrow> (\<exists>t. joinElements fmt xs = Inr t))
   \<and> (\<not> list_all convertible xs \<longrightarrow> joinElements fmt xs = Inl TypeError)"
proof (induction fmt v and fmt xs rule: String_js_joinElements.induct)
  case (9 fmt x xs)
  show ?case
  proof (cases "x = JNull \<or> x = JUndefined")
    case True
    then have cx: "convertible x" by auto
    from True cx "9.IH"(2) [of "[]"] show ?thesis
      by (cases "xs = []") auto
  next
    case False
    note ih1 = "9.IH"(1) [OF False]
    show ?thesis
    proof (cases "convertible x")
      case True
      with ih1 obtain t where t: "String_js fmt x = Inr t" by auto
      from False t True "9.IH"(2) [of t] show ?thesis
        by (cases "xs = []") auto
    next
      case nc: False
      with ih1 have "String_js fmt x = Inl TypeError" by simp
      with False nc show ?thesis by simp
    qed
  qed
qed simp_all

lemma convertible_not_truthy: "\<not> truthy v \<Longrightarrow> convertible v"
  by (cases v) simp_all

subsection \<open>The classifiers\<close>

lemma ownershipOfText_fixed:
  "ownershipOfText ''government'' = ''government''"
  "ownershipOfText ''private'' = ''private''"
  "ownershipOfText ''religious'' = ''religious''"
  "ownershipOfText ''unknown'' = ''unknown''"
  by (simp_all add: ownershipOfText_def toLowerCase_def lowerChar_def)

lemma genderOfText_fixed:
  "genderOfText ''boys'' = ''boys''"
  "genderOfText ''girls'' = ''girls''"
  "genderOfText ''mixed'' = ''mixed''"
  "genderOfText ''unknown'' = ''unknown''"
  by (simp_all add: genderOfText_def toLowerCase_def lowerChar_def isWordChar_def)

lemma ownershipOfText_lower: "ownershipOfText (toLowerCase t) = ownershipOfText t"
  by (simp add: ownershipOfText_def toLowerCase_idem)

lemma genderOfText_lower: "genderOfText (toLowerCase t) = genderOfText t"
  by (simp add: genderOfText_def toLowerCase_idem)

lemma ownershipOfText_range:
  "ownershipOfText t \<in> {''government'', ''private'', ''religious'', ''unknown''}
   \<or> (ownershipOfText t = toLowerCase t \<and> t \<noteq> [])"
  by (simp add: ownershipOfText_def Let_def toLowerCase_Nil_iff)

lemma genderOfText_range:
  "genderOfText t \<in> {''boys'', ''girls'', ''mixed'', ''unknown''}
   \<or> (genderOfText t = toLowerCase t \<and> t \<noteq> [])"
  by (simp add: genderOfText_def Let_def toLowerCase_Nil_iff)

lemma ownershipOfText_nonempty: "ownershipOfText t \<noteq> []"
  using ownershipOfText_range [of t] by (auto simp: toLowerCase_Nil_iff)

lemma genderOfText_nonempty: "genderOfText t \<noteq> []"
  using genderOfText_range [of t] by (auto simp: toLowerCase_Nil_iff)

lemma ownershipOfText_idem: "ownershipOfText (ownershipOfText t) = ownershipOfText t"
proof -
  from ownershipOfText_range [of t] show ?thesis
  proof (elim disjE conjE)
    assume "ownershipOfText t \<in> {''government'', ''private'', ''religious'', ''unknown''}"
    then consider "ownershipOfText t = ''government''" | "ownershipOfText t = ''private''"
      | "ownershipOfText t = ''religious''" | "ownershipOfText t = ''unknown''"
      by blast
    then show ?thesis
      by cases (simp_all only: ownershipOfText_fixed)
  next
    assume h: "ownershipOfText t = toLowerCase t"
    have "ownershipOfText (ownershipOfText t) = ownershipOfText (toLowerCase t)"
      by (simp only: h)
    also have "\<dots> = ownershipOfText t"
      by (rule ownershipOfText_lower)
    finally show ?thesis .
  qed
qed

lemma genderOfText_idem: "genderOfText (genderOfText t) = genderOfText t"
proof -
  from genderOfText_range [of t] show ?thesis
  proof (elim disjE conjE)
    assume "genderOfText t \<in> {''boys'', ''girls'', ''mixed'', ''unknown''}"
    then consider "genderOfText t = ''boys''" | "genderOfText t = ''girls''"
      | "genderOfText t = ''mixed''" | "genderOfText t = ''unknown''"
      by blast
    then show ?thesis
      by cases (simp_all only: genderOfText_fixed)
  next
    assume h: "genderOfText t = toLowerCase t"
    have "genderOfText (genderOfText t) = genderOfText (toLowerCase t)"
      by (simp only: h)
    also have "\<dots> = genderOfText t"
      by (rule genderOfText_lower)
    finally show ?thesis .
  qed
qed

lemma guessOwnership_JStr:
  "guessOwnership fmt (JStr v) = Inr (if v = [] then ''unknown'' else ownershipOfText v)"
  by (simp add: guessOwnership_def)

lemma guessGender_JStr:
  "guessGender fmt (JStr v) = Inr (if v = [] then ''unknown'' else genderOfText v)"
  by (simp add: guessGender_def)

lemma guessOwnership_idem:
  "\<exists>s. guessOwnership fmt (JStr v) = Inr s \<and> guessOwnership fmt (JStr s) = Inr s"
proof (cases "v = []")
  case True
  then show ?thesis
    by (simp add: guessOwnership_JStr ownershipOfText_fixed)
next
  case False
  then show ?thesis
    by (simp add: guessOwnership_JStr ownershipOfText_nonempty ownershipOfText_idem)
qed

lemma guessGender_idem:
  "\<exists>s. guessGender fmt (JStr v) = Inr s \<and> guessGender fmt (JStr s) = Inr s"
proof (cases "v = []")
  case True
  then show ?thesis
    by (simp add: guessGender_JStr genderOfText_fixed)
next
  case False
  then show ?thesis
    by (simp add: guessGender_JStr genderOfText_nonempty genderOfText_idem)
qed

text \<open>
  C10. The classifiers are idempotent on strings: each returns a result on every
  string, and classifying that result returns it again.
\<close>

theorem classifiers_idempotent:
  "(\<exists>s. guessOwnership fmt (JStr v) = Inr s \<and> guessOwnership fmt (JStr s) = Inr s)
   \<and> (\<exists>s. guessGender fmt (JStr v) = Inr s \<and> guessGender fmt (JStr s) = Inr s)"
  using guessOwnership_idem [of fmt v] guessGender_idem [of fmt v] by (intro conjI)

lemma guessOwnership_result:
  "guessOwnership fmt v = Inr s \<Longrightarrow> s \<noteq> []"
  by (auto simp: guessOwnership_def ownershipOfText_nonempty map_sum_id_Inr split: if_splits)

lemma guessOwnership_convertible:
  assumes "convertible v"
  shows "\<exists>s. guessOwnership fmt v = Inr s \<and> s \<noteq> []
     \<and> (s \<in> {''government'', ''private'', ''religious'', ''unknown''}
        \<or> (\<exists>t. String_js fmt v = Inr t \<and> s = toLowerCase t))"
proof (cases "truthy v")
  case False
  then show ?thesis by (simp add: guessOwnership_def)
next
  case True
  from assms String_js_convertible(1) [of v fmt] obtain t where t: "String_js fmt v = Inr t"
    by auto
  from True t have g: "guessOwnership fmt v = Inr (ownershipOfText t)"
    by (simp add: guessOwnership_def)
  from ownershipOfText_range [of t] ownershipOfText_nonempty [of t] g t show ?thesis
    by auto
qed

lemma guessOwnership_unconvertible:
  assumes "\<not> convertible v"
  shows "guessOwnership fmt v = Inl TypeError"
proof -
  from assms convertible_not_truthy [of v] have "truthy v" by auto
  moreover from assms String_js_convertible(1) [of v fmt] have "String_js fmt v = Inl TypeError"
    by simp
  ultimately show ?thesis by (simp add: guessOwnership_def)
qed

lemma enrichProperties_ownership:
  assumes "enrichProperties fmt props tbl = Inr p"
  shows "\<exists>s. s \<noteq> [] \<and> getProp p ''ownership'' = JStr s"
proof -
  let ?v = "js_or (getProp props ''ownership'') (js_or (getProp props ''operator:type'')
               (js_or (getProp props ''operator_type'') (js_or (getProp props ''operatorType'')
                 (getProp props ''management''))))"
  show ?thesis
  proof (cases "guessOwnership fmt ?v")
    case (Inl e)
    with assms show ?thesis by (simp add: enrichProperties_def)
  next
    case (Inr s)
    note s = guessOwnership_result [OF Inr]
    from assms Inr have "getProp p ''ownership'' = JStr s"
      unfolding enrichProperties_def Let_def
      by (auto simp: getProp_setProp split: sum.splits if_splits)
    with s show ?thesis by simp
  qed
qed

lemma enrichFeature_ownership:
  assumes "enrichFeature fmt tbl f = Inr g"
  shows "\<exists>s. s \<noteq> [] \<and> field (properties g) ''ownership'' = JStr s"
proof -
  from assms obtain props p where "enrichProperties fmt props tbl = Inr p" and "properties g = JObj p"
    unfolding enrichFeature_def Let_def
    by (auto simp: map_sum_id_Inr)
  with enrichProperties_ownership [of fmt props tbl p] show ?thesis
    by (simp add: field_def)
qed

lemma enrichFeatureCollection_ownership:
  "enrichFeatureCollection fmt tbl fc = Inr out \<Longrightarrow>
   list_all (\<lambda>f. \<exists>s. s \<noteq> [] \<and> field (properties f) ''ownership'' = JStr s) out"
proof (induction fc arbitrary: out)
  case Nil
  then show ?case by simp
next
  case (Cons f fs)
  from Cons.prems obtain g rest where g: "enrichFeature fmt tbl f = Inr g"
    and r: "enrichFeatureCollection fmt tbl fs = Inr rest" and o: "out = g # rest"
    by (auto split: sum.splits)
  from Cons.IH [OF r] enrichFeature_ownership [OF g] o show ?case
    by simp
qed

text \<open>
  C7, as amended. A value has a text unless it is an object with an entry \<open>toString\<close>
  of its own or an array that holds one. On every value that has a text
  \<open>guessOwnership\<close> returns a non-empty string: one of the three classes, \<open>unknown\<close>, or
  the lower-cased text of the value; it returns \<open>unknown\<close> on \<open>null\<close>, \<open>undefined\<close> and
  the empty string. On a value without a text it throws a \<open>TypeError\<close>. Whenever
  \<open>enrichProperties\<close> returns, the \<open>ownership\<close> it has written is a non-empty string,
  and so is the one of every feature of a collection that \<open>enrichFeatureCollection\<close>
  returns.
\<close>

theorem guessOwnership_populated:
  "(convertible v \<longrightarrow>
      (\<exists>s. guessOwnership fmt v = Inr s \<and> s \<noteq> []
         \<and> (s \<in> {''government'', ''private'', ''religious'', ''unknown''}
            \<or> (\<exists>t. String_js fmt v = Inr t \<and> s = toLowerCase t))))
   \<and> (\<not> convertible v \<longrightarrow> guessOwnership fmt v = Inl TypeError)
   \<and> guessOwnership fmt JNull = Inr ''unknown''
   \<and> guessOwnership fmt JUndefined = Inr ''unknown''
   \<and> guessOwnership fmt (JStr []) = Inr ''unknown''
   \<and> (enrichProperties fmt props tbl = Inr p \<longrightarrow> (\<exists>s. s \<noteq> [] \<and> getProp p ''ownership'' = JStr s))
   \<and> (enrichFeatureCollection fmt tbl fc = Inr out \<longrightarrow>
        list_all (\<lambda>f. \<exists>s. s \<noteq> [] \<and> field (properties f) ''ownership'' = JStr s) out)"
proof -
  have c: "guessOwnership fmt JNull = Inr ''unknown''" "guessOwnership fmt JUndefined = Inr ''unknown''"
    "guessOwnership fmt (JStr []) = Inr ''unknown''"
    by (simp_all add: guessOwnership_def)
  from guessOwnership_convertible [of v fmt] guessOwnership_unconvertible [of v fmt] c
    enrichProperties_ownership [of fmt props tbl p] enrichFeatureCollection_ownership [of fmt tbl fc out]
  show ?thesis
    by (intro conjI impI) assumption+
qed

theorem guessOwnership_populated_witness:
  "convertible (JStr ''Gov. Aided'')
   \<and> guessOwnership (\<lambda>n. []) (JStr ''Gov. Aided'') = Inr ''government''
   \<and> \<not> convertible (JArr [JObj [(''toString'', JNull)]])
   \<and> guessOwnership (\<lambda>n. []) (JArr [JObj [(''toString'', JNull)]]) = Inl TypeError
   \<and> enrichProperties (\<lambda>n. []) [(''management'', JStr ''Community'')] (\<lambda>k. JUndefined)
       = Inr [(''management'', JStr ''Community''), (''ownership'', JStr ''community''),
              (''gender'', JStr ''unknown''), (''district'', JNull), (''region'', JNull)]
   \<and> (\<exists>s. s \<noteq> [] \<and> getProp [(''management'', JStr ''Community''), (''ownership'', JStr ''community''),
              (''gender'', JStr ''unknown''), (''district'', JNull), (''region'', JNull)] ''ownership'' = JStr s)
   \<and> enrichFeatureCollection (\<lambda>n. []) (\<lambda>k. JUndefined)
        [\<lparr> geometry = JNull, properties = JObj [(''operator:type'', JBool True)] \<rparr>]
       = Inr [\<lparr> geometry = JNull,
                properties = JObj [(''operator:type'', JBool True), (''ownership'', JStr ''true''),
                                   (''gender'', JStr ''unknown''), (''district'', JNull), (''region'', JNull)] \<rparr>]
   \<and> list_all (\<lambda>f. \<exists>s. s \<noteq> [] \<and> field (properties f) ''ownership'' = JStr s)
        [\<lparr> geometry = JNull,
           properties = JObj [(''operator:type'', JBool True), (''ownership'', JStr ''true''),
                              (''gender'', JStr ''unknown''), (''district'', JNull), (''region'', JNull)] \<rparr>]"
proof -
  let ?fmt = "\<lambda>n :: jsnum. [] :: string"
  let ?tbl = "\<lambda>k :: string. JUndefined"
  let ?p = "[(''management'', JStr ''Community''), (''ownership'', JStr ''community''),
              (''gender'', JStr ''unknown''), (''district'', JNull), (''region'', JNull)]"
  let ?fc = "[\<lparr> geometry = JNull, properties = JObj [(''operator:type'', JBool True)] \<rparr>]"
  let ?out = "[\<lparr> geometry = JNull,
                properties = JObj [(''operator:type'', JBool True), (''ownership'', JStr ''true''),
                                   (''gender'', JStr ''unknown''), (''district'', JNull), (''region'', JNull)] \<rparr>]"
  have c1: "convertible (JStr ''Gov. Aided'')" by simp
  have c2: "\<not> convertible (JArr [JObj [(''toString'', JNull)]])" by simp
  have g: "guessOwnership ?fmt (JStr ''Gov. Aided'') = Inr ''government''"
    by code_simp
  have e: "enrichProperties ?fmt [(''management'', JStr ''Community'')] ?tbl = Inr ?p"
    by code_simp
  have f: "enrichFeatureCollection ?fmt ?tbl ?fc = Inr ?out"
    by code_simp
  note t1 = guessOwnership_populated [of "JArr [JObj [(''toString'', JNull)]]" ?fmt
      "[(''management'', JStr ''Community'')]" ?tbl ?p ?fc ?out]
  from t1 c2 have u: "guessOwnership ?fmt (JArr [JObj [(''toString'', JNull)]]) = Inl TypeError"
    by blast
  from t1 e have pe: "\<exists>s. s \<noteq> [] \<and> getProp ?p ''ownership'' = JStr s"
    by blast
  from t1 f have pf: "list_all (\<lambda>f. \<exists>s. s \<noteq> [] \<and> field (properties f) ''ownership'' = JStr s) ?out"
    by blast
  from c1 g c2 u e pe f pf show ?thesis
    by (intro conjI)
qed

text \<open>
  C7 as stated fails on a value without a text: the classifier returns nothing, and
  the enrichment of a record that holds such a value throws instead of writing an
  \<open>ownership\<close>.
\<close>

theorem guessOwnership_unconvertible_counterexample:
  "guessOwnership (\<lambda>n. []) (JObj [(''toString'', JNum 1)]) = Inl TypeError
   \<and> enrichProperties (\<lambda>n. []) [(''ownership'', JObj [(''toString'', JNum 1)])] (\<lambda>k. JUndefined)
       = Inl TypeError
   \<and> enrichFeatureCollection (\<lambda>n. []) (\<lambda>k. JUndefined)
        [\<lparr> geometry = JNull, properties = JObj [(''ownership'', JObj [(''toString'', JNum 1)])] \<rparr>]
       = Inl TypeError"
  by code_simp

subsection \<open>Region resolution\<close>

text \<open>White space at the ends of a text does not survive \<open>trim\<close>.\<close>

lemma dropWhile_spaces: "list_all isSpace l \<Longrightarrow> dropWhile isSpace (l @ s) = dropWhile isSpace s"
  by (induction l) simp_all

lemma dropWhile_all_spaces: "list_all isSpace l \<Longrightarrow> dropWhile isSpace l = []"
  by (induction l) simp_all

lemma trim_pad:
  assumes "list_all isSpace l" and "list_all isSpace r"
  shows "trim (l @ s @ r) = trim s"
proof -
  from assms(1) have a: "dropWhile isSpace (l @ s @ r) = dropWhile isSpace (s @ r)"
    by (rule dropWhile_spaces)
  from assms(2) have rr: "list_all isSpace (rev r)"
    by (simp add: list_all_iff)
  show ?thesis
  proof (cases "list_all isSpace s")
    case True
    with assms(2) have "list_all isSpace (s @ r)" by simp
    then have "dropWhile isSpace (s @ r) = []"
      by (rule dropWhile_all_spaces)
    moreover from True have "dropWhile isSpace s = []"
      by (rule dropWhile_all_spaces)
    ultimately show ?thesis using a by (simp only: trim_def)
  next
    case False
    then obtain x where "x \<in> set s" and "\<not> isSpace x"
      by (auto simp: list_all_iff)
    then have "dropWhile isSpace (s @ r) = dropWhile isSpace s @ r"
      by (rule dropWhile_append1)
    with a have "trim (l @ s @ r) = rev (dropWhile isSpace (rev r @ rev (dropWhile isSpace s)))"
      by (simp only: trim_def rev_append)
    also have "\<dots> = trim s"
      by (simp only: dropWhile_spaces [OF rr] trim_def)
    finally show ?thesis .
  qed
qed

lemma trim_decomp:
  "\<exists>l r. list_all isSpace l \<and> list_all isSpace r \<and> s = l @ trim s @ r"
proof (intro exI conjI)
  let ?u = "dropWhile isSpace s"
  show "list_all isSpace (takeWhile isSpace s)"
    by (simp add: list_all_iff) (meson set_takeWhileD)
  show "list_all isSpace (rev (takeWhile isSpace (rev ?u)))"
    by (simp add: list_all_iff) (meson set_takeWhileD)
  have "trim s @ rev (takeWhile isSpace (rev ?u)) = rev (takeWhile isSpace (rev ?u) @ dropWhile isSpace (rev ?u))"
    by (simp only: trim_def rev_append)
  also have "\<dots> = ?u"
    by (simp only: takeWhile_dropWhile_id rev_rev_ident)
  finally show "s = takeWhile isSpace s @ trim s @ rev (takeWhile isSpace (rev ?u))"
    by simp
qed

text \<open>White space is not made of word characters, and lower-casing leaves it alone.\<close>

lemma isSpace_not_word: "isSpace c \<Longrightarrow> \<not> isWordChar c"
  by (auto simp: isSpace_def isWordChar_def)

lemma isSpace_lowerChar: "isSpace c \<Longrightarrow> lowerChar c = c"
  by (auto simp: isSpace_def lowerChar_def)

lemma toLowerCase_spaces: "list_all isSpace ws \<Longrightarrow> toLowerCase ws = ws"
  by (induction ws) (simp_all add: toLowerCase_def isSpace_lowerChar)

lemma toLowerCase_append: "toLowerCase (a @ b) = toLowerCase a @ toLowerCase b"
  by (simp add: toLowerCase_def)

text \<open>
  The scan that removes the word \<open>district\<close> treats the text before and the text
  after a character that is not a word character apart from each other.
\<close>

lemma removeDistrictWord_prev:
  "boundaryBefore p = boundaryBefore q \<Longrightarrow> removeDistrictWord p s = removeDistrictWord q s"
  by (cases s) simp_all

lemma startsWith_length: "startsWith w x \<Longrightarrow> length w \<le> length x"
proof (induction w arbitrary: x)
  case Nil
  then show ?case by simp
next
  case (Cons a as)
  then show ?case by (cases x) auto
qed

lemma startsWith_append: "c \<notin> set w \<Longrightarrow> startsWith w (x @ c # y) = startsWith w x"
proof (induction w arbitrary: x)
  case Nil
  then show ?case by simp
next
  case (Cons a as)
  then show ?case by (cases x) auto
qed

lemma not_word_not_in_district: "\<not> isWordChar c \<Longrightarrow> c \<notin> set ''district''"
  by (auto simp: isWordChar_def)

lemma boundaryAfter_append:
  "\<not> isWordChar c \<Longrightarrow> boundaryAfter (u @ c # y) = boundaryAfter u"
  by (cases u) (simp_all add: boundaryAfter_def)

lemma removeDistrictWord_split:
  assumes "\<not> isWordChar c"
  shows "removeDistrictWord p (x @ c # y) = removeDistrictWord p x @ c # removeDistrictWord None y"
proof (induction p x rule: removeDistrictWord.induct)
  case (1 prev)
  from assms have "CHR ''d'' \<noteq> c"
    by (auto simp: isWordChar_def)
  moreover from assms have "removeDistrictWord (Some c) y = removeDistrictWord None y"
    by (intro removeDistrictWord_prev) (simp add: boundaryBefore_def)
  ultimately show ?case by simp
next
  case (2 prev a as)
  have sw: "startsWith ''district'' (a # (as @ c # y)) = startsWith ''district'' (a # as)"
    using startsWith_append [OF not_word_not_in_district [OF assms], of "a # as" y]
    by (simp only: append_Cons)
  have dr: "drop 7 (as @ c # y) = drop 7 as @ c # y" if "startsWith ''district'' (a # as)"
  proof -
    from that have "7 \<le> length as"
      using startsWith_length [of "''district''" "a # as"] by simp
    then show ?thesis by simp
  qed
  have ba: "boundaryAfter (drop 7 (as @ c # y)) = boundaryAfter (drop 7 as)"
    if "startsWith ''district'' (a # as)"
    by (simp only: dr [OF that] boundaryAfter_append [OF assms])
  have cond: "(boundaryBefore prev \<and> startsWith ''district'' (a # (as @ c # y))
               \<and> boundaryAfter (drop 7 (as @ c # y)))
      = (boundaryBefore prev \<and> startsWith ''district'' (a # as) \<and> boundaryAfter (drop 7 as))"
    using sw ba by blast
  show ?case
  proof (cases "boundaryBefore prev \<and> startsWith ''district'' (a # as) \<and> boundaryAfter (drop 7 as)")
    case True
    then have st: "startsWith ''district'' (a # as)" by (rule conjunct2 [THEN conjunct1])
    from True cond have c': "boundaryBefore prev \<and> startsWith ''district'' (a # (as @ c # y))
               \<and> boundaryAfter (drop 7 (as @ c # y))"
      by blast
    have "removeDistrictWord prev ((a # as) @ c # y)
        = removeDistrictWord (Some (CHR ''t'')) (drop 7 (as @ c # y))"
      unfolding append_Cons by (subst removeDistrictWord.simps, rule if_P, rule c')
    also have "\<dots> = removeDistrictWord (Some (CHR ''t'')) (drop 7 as @ c # y)"
      by (simp only: dr [OF st])
    also have "\<dots> = removeDistrictWord (Some (CHR ''t'')) (drop 7 as) @ c # removeDistrictWord None y"
      by (rule "2.IH"(1) [OF True])
    also have "removeDistrictWord (Some (CHR ''t'')) (drop 7 as) = removeDistrictWord prev (a # as)"
      by (rule sym, subst removeDistrictWord.simps, rule if_P, rule True)
    finally show ?thesis .
  next
    case False
    from False cond have c': "\<not> (boundaryBefore prev \<and> startsWith ''district'' (a # (as @ c # y))
               \<and> boundaryAfter (drop 7 (as @ c # y)))"
      by blast
    have "removeDistrictWord prev ((a # as) @ c # y) = a # removeDistrictWord (Some a) (as @ c # y)"
      unfolding append_Cons by (subst removeDistrictWord.simps, rule if_not_P, rule c')
    also have "\<dots> = a # (removeDistrictWord (Some a) as @ c # removeDistrictWord None y)"
      by (simp only: "2.IH"(2) [OF False])
    also have "\<dots> = (a # removeDistrictWord (Some a) as) @ c # removeDistrictWord None y"
      by simp
    also have "a # removeDistrictWord (Some a) as = removeDistrictWord prev (a # as)"
      by (rule sym, subst removeDistrictWord.simps, rule if_not_P, rule False)
    finally show ?thesis .
  qed
qed

lemma removeDistrictWord_run:
  "list_all (\<lambda>c. \<not> isWordChar c) m \<Longrightarrow> m \<noteq> [] \<Longrightarrow>
   removeDistrictWord p (x @ m @ y) = removeDistrictWord p x @ m @ removeDistrictWord None y"
proof (induction m arbitrary: p x)
  case Nil
  then show ?case by simp
next
  case (Cons c m)
  from Cons.prems have c: "\<not> isWordChar c" and m: "list_all (\<lambda>c. \<not> isWordChar c) m"
    by simp_all
  show ?case
  proof (cases "m = []")
    case True
    with removeDistrictWord_split [OF c, of p x y] show ?thesis by simp
  next
    case False
    from Cons.IH [OF m False, of None "[]"]
    have "removeDistrictWord None (m @ y) = m @ removeDistrictWord None y"
      by simp
    with removeDistrictWord_split [OF c, of p x "m @ y"] show ?thesis
      by simp
  qed
qed

lemma removeDistrictWord_pad:
  assumes "list_all (\<lambda>c. \<not> isWordChar c) l" and "list_all (\<lambda>c. \<not> isWordChar c) r"
  shows "removeDistrictWord None (l @ t @ r) = l @ removeDistrictWord None t @ r"
proof -
  have a: "removeDistrictWord None (t @ r) = removeDistrictWord None t @ r"
  proof (cases "r = []")
    case True
    then show ?thesis by simp
  next
    case False
    from removeDistrictWord_run [OF assms(2) False, of None t "[]"] show ?thesis
      by simp
  qed
  show ?thesis
  proof (cases "l = []")
    case True
    with a show ?thesis by simp
  next
    case False
    from removeDistrictWord_run [OF assms(1) False, of None "[]" "t @ r"] a show ?thesis
      by simp
  qed
qed

lemma spaces_not_word: "list_all isSpace ws \<Longrightarrow> list_all (\<lambda>c. \<not> isWordChar c) ws"
  by (induction ws) (simp_all add: isSpace_not_word)

text \<open>
  Collapsing white space: white space around a text stays white space, a run of white
  space inside a text counts as any other run, and characters that are not white space
  are kept as they stand.
\<close>

lemma collapseSpaces_pre:
  assumes "list_all isSpace l"
  shows "\<exists>l'. list_all isSpace l' \<and> collapseSpaces (l @ m) = l' @ collapseSpaces m"
proof (cases l)
  case Nil
  then show ?thesis by (intro exI [of _ "[]"]) simp
next
  case (Cons c l0)
  with assms have c: "isSpace c" and l0: "list_all isSpace l0" by simp_all
  from Cons c have a: "collapseSpaces (l @ m) = CHR 0x20 # collapseSpaces (dropWhile isSpace m)"
    by (simp add: dropWhile_spaces [OF l0])
  show ?thesis
  proof (cases m)
    case Nil
    with a show ?thesis
      by (intro exI [of _ "[CHR 0x20]"]) (simp add: isSpace_def)
  next
    case m: (Cons b m0)
    show ?thesis
    proof (cases "isSpace b")
      case True
      with m a have "collapseSpaces (l @ m) = [] @ collapseSpaces m" by simp
      then show ?thesis by (intro exI [of _ "[]"]) simp
    next
      case False
      with m a have "collapseSpaces (l @ m) = [CHR 0x20] @ collapseSpaces m" by simp
      then show ?thesis by (intro exI [of _ "[CHR 0x20]"]) (simp add: isSpace_def)
    qed
  qed
qed

lemma collapseSpaces_post:
  assumes "list_all isSpace r"
  shows "\<exists>r'. list_all isSpace r' \<and> collapseSpaces (m @ r) = collapseSpaces m @ r'"
proof (induction m rule: collapseSpaces.induct)
  case 1
  show ?case
  proof (cases r)
    case Nil
    then show ?thesis by (intro exI [of _ "[]"]) simp
  next
    case (Cons c r0)
    with assms have "isSpace c" and "list_all isSpace r0" by simp_all
    with Cons have "collapseSpaces ([] @ r) = collapseSpaces [] @ [CHR 0x20]"
      by (simp add: dropWhile_all_spaces)
    then show ?thesis by (intro exI [of _ "[CHR 0x20]"]) (simp add: isSpace_def)
  qed
next
  case (2 c cs)
  show ?case
  proof (cases "isSpace c")
    case False
    from "2.IH"(2) [OF False] obtain r' where r': "list_all isSpace r'"
      and e: "collapseSpaces (cs @ r) = collapseSpaces cs @ r'"
      by blast
    from False e have "collapseSpaces ((c # cs) @ r) = collapseSpaces (c # cs) @ r'" by simp
    with r' show ?thesis by blast
  next
    case True
    show ?thesis
    proof (cases "list_all isSpace cs")
      case all: True
      with assms have "list_all isSpace (cs @ r)" by simp
      then have d1: "dropWhile isSpace (cs @ r) = []" by (rule dropWhile_all_spaces)
      from all have d2: "dropWhile isSpace cs = []" by (rule dropWhile_all_spaces)
      have s1: "collapseSpaces (c # v) = CHR 0x20 # collapseSpaces (dropWhile isSpace v)" for v
        using True by simp
      have "collapseSpaces ((c # cs) @ r) = collapseSpaces (c # cs) @ []"
        by (simp only: append_Cons s1 d1 d2 append_Nil2)
      then show ?thesis by (intro exI [of _ "[]"]) simp
    next
      case False
      then obtain x where "x \<in> set cs" and "\<not> isSpace x"
        by (auto simp: list_all_iff)
      then have d: "dropWhile isSpace (cs @ r) = dropWhile isSpace cs @ r"
        by (rule dropWhile_append1)
      from "2.IH"(1) [OF True] obtain r' where r': "list_all isSpace r'"
        and e: "collapseSpaces (dropWhile isSpace cs @ r) = collapseSpaces (dropWhile isSpace cs) @ r'"
        by blast
      from True d e have "collapseSpaces ((c # cs) @ r) = collapseSpaces (c # cs) @ r'" by simp
      with r' show ?thesis by blast
    qed
  qed
qed

lemma collapseSpaces_run:
  assumes "list_all isSpace ws" and "ws \<noteq> []" and "list_all isSpace ws'" and "ws' \<noteq> []"
  shows "collapseSpaces (a @ ws @ b) = collapseSpaces (a @ ws' @ b)"
proof (induction a rule: collapseSpaces.induct)
  case 1
  have "collapseSpaces (v @ b) = CHR 0x20 # collapseSpaces (dropWhile isSpace b)"
    if "list_all isSpace v" and "v \<noteq> []" for v
  proof -
    from that obtain c v0 where v: "v = c # v0" by (cases v) auto
    with that have "isSpace c" and "list_all isSpace v0" by simp_all
    with v show ?thesis by (simp add: dropWhile_spaces)
  qed
  from this [OF assms(1,2)] this [OF assms(3,4)] show ?case by simp
next
  case (2 c cs)
  show ?case
  proof (cases "isSpace c")
    case False
    with "2.IH"(2) [OF False] show ?thesis by simp
  next
    case True
    show ?thesis
    proof (cases "list_all isSpace cs")
      case all: True
      from all assms(1) have "dropWhile isSpace (cs @ ws @ b) = dropWhile isSpace b"
        by (simp add: dropWhile_spaces)
      moreover from all assms(3) have "dropWhile isSpace (cs @ ws' @ b) = dropWhile isSpace b"
        by (simp add: dropWhile_spaces)
      ultimately show ?thesis using True by simp
    next
      case False
      then obtain x where x: "x \<in> set cs" "\<not> isSpace x"
        by (auto simp: list_all_iff)
      have "dropWhile isSpace (cs @ v) = dropWhile isSpace cs @ v" for v
        using x by (rule dropWhile_append1)
      with "2.IH"(1) [OF True] True show ?thesis by simp
    qed
  qed
qed

lemma collapseSpaces_no_space: "list_all (\<lambda>c. \<not> isSpace c) q \<Longrightarrow> collapseSpaces q = q"
  by (induction q) simp_all

lemma collapseSpaces_append_no_space:
  assumes "list_all (\<lambda>c. \<not> isSpace c) q"
  shows "collapseSpaces (m @ q) = collapseSpaces m @ q"
proof (induction m rule: collapseSpaces.induct)
  case 1
  from assms show ?case by (simp add: collapseSpaces_no_space)
next
  case (2 c cs)
  show ?case
  proof (cases "isSpace c")
    case False
    with "2.IH"(2) [OF False] show ?thesis by simp
  next
    case True
    have d: "dropWhile isSpace (cs @ q) = dropWhile isSpace cs @ q"
    proof (cases "list_all isSpace cs")
      case all: True
      from assms have "dropWhile isSpace q = q" by (cases q) simp_all
      with all show ?thesis
        by (simp add: dropWhile_spaces dropWhile_all_spaces)
    next
      case False
      then obtain x where "x \<in> set cs" and "\<not> isSpace x"
        by (auto simp: list_all_iff)
      then show ?thesis by (rule dropWhile_append1)
    qed
    with "2.IH"(1) [OF True] True show ?thesis by simp
  qed
qed

text \<open>The steps after lower-casing do not see white space around the text.\<close>

lemma filter_keep_spaces:
  "list_all isSpace ws \<Longrightarrow> filter (\<lambda>c. isLowerAZ c \<or> isSpace c) ws = ws"
  by (induction ws) simp_all

lemma normalizeLowered_pad:
  assumes "list_all isSpace l" and "list_all isSpace r"
  shows "normalizeLowered (l @ t @ r) = normalizeLowered t"
proof -
  let ?m = "removeDistrictWord None t"
  have "removeDistrictWord None (l @ t @ r) = l @ ?m @ r"
    using assms by (intro removeDistrictWord_pad spaces_not_word)
  moreover from collapseSpaces_pre [OF assms(1), of "?m @ r"] obtain l' where l': "list_all isSpace l'"
    and a: "collapseSpaces (l @ ?m @ r) = l' @ collapseSpaces (?m @ r)"
    by blast
  moreover from collapseSpaces_post [OF assms(2), of ?m] obtain r' where r': "list_all isSpace r'"
    and b: "collapseSpaces (?m @ r) = collapseSpaces ?m @ r'"
    by blast
  ultimately have "normalizeLowered (l @ t @ r)
      = trim (l' @ filter (\<lambda>c. isLowerAZ c \<or> isSpace c) (collapseSpaces ?m) @ r')"
    by (simp add: normalizeLowered_def filter_keep_spaces)
  also have "\<dots> = normalizeLowered t"
    unfolding normalizeLowered_def using l' r' by (rule trim_pad)
  finally show ?thesis .
qed

lemma normalizeLowered_trim: "normalizeLowered (trim t) = normalizeLowered t"
proof -
  from trim_decomp [of t] obtain l r where l: "list_all isSpace l" and r: "list_all isSpace r"
    and t: "t = l @ trim t @ r"
    by blast
  from normalizeLowered_pad [OF l r, of "trim t"] t show ?thesis
    by simp
qed

lemma normalizeDistrictText_lowered: "normalizeDistrictText t = normalizeLowered (toLowerCase t)"
  by (simp add: normalizeDistrictText_def normalizeLowered_trim)

text \<open>The invariances of the normalised form.\<close>

lemma normalizeDistrictText_case:
  "toLowerCase a = toLowerCase b \<Longrightarrow> normalizeDistrictText a = normalizeDistrictText b"
  by (simp add: normalizeDistrictText_def)

lemma normalizeDistrictText_pad:
  assumes "list_all isSpace l" and "list_all isSpace r"
  shows "normalizeDistrictText (l @ d @ r) = normalizeDistrictText d"
  using normalizeLowered_pad [OF assms, of "toLowerCase d"] assms
  by (simp add: normalizeDistrictText_lowered toLowerCase_append toLowerCase_spaces)

lemma normalizeDistrictText_run:
  assumes "list_all isSpace ws" and "ws \<noteq> []" and "list_all isSpace ws'" and "ws' \<noteq> []"
  shows "normalizeDistrictText (x @ ws @ y) = normalizeDistrictText (x @ ws' @ y)"
proof -
  let ?x = "removeDistrictWord None (toLowerCase x)"
  let ?y = "removeDistrictWord None (toLowerCase y)"
  have r: "removeDistrictWord None (toLowerCase x @ v @ toLowerCase y) = ?x @ v @ ?y"
    if "list_all isSpace v" and "v \<noteq> []" for v
    using that by (intro removeDistrictWord_run spaces_not_word)
  have "collapseSpaces (?x @ ws @ ?y) = collapseSpaces (?x @ ws' @ ?y)"
    using assms by (rule collapseSpaces_run)
  with r [OF assms(1,2)] r [OF assms(3,4)] assms(1,3) show ?thesis
    by (simp add: normalizeDistrictText_lowered normalizeLowered_def toLowerCase_append toLowerCase_spaces)
qed

lemma removeDistrictWord_district: "removeDistrictWord None ''district'' = []"
  by (simp add: boundaryBefore_def boundaryAfter_def)

lemma normalizeDistrictText_suffix:
  assumes "list_all isSpace ws" and "ws \<noteq> []" and "toLowerCase suffix = ''district''"
  shows "normalizeDistrictText (d @ ws @ suffix) = normalizeDistrictText d"
proof -
  let ?m = "removeDistrictWord None (toLowerCase d)"
  have "removeDistrictWord None (toLowerCase d @ ws @ ''district'') = ?m @ ws @ removeDistrictWord None ''district''"
    using assms(1,2) by (intro removeDistrictWord_run spaces_not_word)
  then have r: "removeDistrictWord None (toLowerCase d @ ws @ ''district'') = ?m @ ws"
    by (simp only: removeDistrictWord_district append_Nil2)
  from collapseSpaces_post [OF assms(1), of ?m] obtain r' where r': "list_all isSpace r'"
    and c: "collapseSpaces (?m @ ws) = collapseSpaces ?m @ r'"
    by blast
  have n: "list_all isSpace []" by simp
  have "normalizeDistrictText (d @ ws @ suffix)
      = trim ([] @ filter (\<lambda>c. isLowerAZ c \<or> isSpace c) (collapseSpaces ?m) @ r')"
    using assms(1,3) r' by (simp add: normalizeDistrictText_lowered normalizeLowered_def toLowerCase_append
        toLowerCase_spaces r c filter_keep_spaces)
  also have "\<dots> = normalizeLowered (toLowerCase d)"
    unfolding normalizeLowered_def using n r' by (rule trim_pad)
  finally show ?thesis
    by (simp only: normalizeDistrictText_lowered)
qed

lemma isPunctuation_lowerChar:
  "isPunctuation c \<Longrightarrow>
   \<not> isWordChar (lowerChar c) \<and> \<not> isSpace (lowerChar c) \<and> \<not> isLowerAZ (lowerChar c)"
  unfolding isPunctuation_def isWordChar_def isSpace_def isLowerAZ_def lowerChar_def Let_def
  by (auto simp: char_of_eq_iff_nat eq_char_of_iff_nat split: if_splits)

lemma normalizeDistrictText_punctuation:
  assumes "list_all isPunctuation ps"
  shows "normalizeDistrictText (d @ ps) = normalizeDistrictText d"
proof (cases "ps = []")
  case True
  then show ?thesis by simp
next
  case False
  let ?q = "toLowerCase ps"
  let ?m = "removeDistrictWord None (toLowerCase d)"
  from assms have q: "list_all (\<lambda>c. \<not> isWordChar c) ?q" "list_all (\<lambda>c. \<not> isSpace c) ?q"
    "filter (\<lambda>c. isLowerAZ c \<or> isSpace c) ?q = []"
    by (induction ps) (simp_all add: toLowerCase_def isPunctuation_lowerChar)
  from False have ne: "?q \<noteq> []" by (simp add: toLowerCase_def)
  from removeDistrictWord_run [OF q(1) ne, of None "toLowerCase d" "[]"]
  have r: "removeDistrictWord None (toLowerCase d @ ?q) = ?m @ ?q"
    by simp
  from q(3) show ?thesis
    by (simp add: normalizeDistrictText_lowered normalizeLowered_def toLowerCase_append r
        collapseSpaces_append_no_space [OF q(2)])
qed

text \<open>
  The region resolved for a record with a non-empty district string depends on the
  string only through its normalised form.
\<close>

lemma regionOf_normalised:
  assumes "d1 \<noteq> []" and "d2 \<noteq> []" and "normalizeDistrictText d1 = normalizeDistrictText d2"
  shows "regionOf fmt tbl props d1 = regionOf fmt tbl props d2"
proof -
  let ?own = "js_or (getProp props ''ownership'') (js_or (getProp props ''operator:type'')
               (js_or (getProp props ''operator_type'') (js_or (getProp props ''operatorType'')
                 (getProp props ''management''))))"
  let ?gen = "js_or (getProp props ''gender'') (js_or (getProp props ''gender_of_students'') (getProp props ''sex''))"
  let ?reg = "js_or (getProp props ''region'') (js_or (getProp props ''ADM1_NAME'')
                               (js_or (getProp props ''province'') JNull))"
  have e: "regionOf fmt tbl props d =
      (case guessOwnership fmt ?own of
         Inl e \<Rightarrow> Inl e
       | Inr ownership \<Rightarrow>
           (case guessGender fmt ?gen of
              Inl e \<Rightarrow> Inl e
            | Inr gender \<Rightarrow>
                Inr (if truthy ?reg then ?reg else js_or (tbl (normalizeDistrictText d)) JNull)))"
    if "d \<noteq> []" for d
  proof (cases "guessOwnership fmt ?own")
    case (Inl err)
    then show ?thesis
      by (simp add: regionOf_def enrichProperties_def Let_def getProp_setProp)
  next
    case own: (Inr ownership)
    show ?thesis
    proof (cases "guessGender fmt ?gen")
      case (Inl err)
      with own show ?thesis
        by (simp add: regionOf_def enrichProperties_def Let_def getProp_setProp)
    next
      case (Inr gender)
      with own that show ?thesis
        by (simp add: regionOf_def enrichProperties_def Let_def getProp_setProp js_or_truthy
            normalizeDistrictName_def)
    qed
  qed
  show ?thesis
    by (simp only: e [OF assms(1)] e [OF assms(2)] assms(3))
qed

text \<open>
  C8, as amended. For every lookup table and every record, the region resolved for a
  non-empty district string is the same for any two strings with the same normalised
  form, and the normalised form, hence the region, does not change with the case of
  the letters, with white space before or after the name, with the length or kind of
  a run of white space inside it, with the word \<open>District\<close> (in any case) set off by
  white space at the end, or with punctuation at the end.
\<close>

theorem region_invariant_under_variation:
  "(d1 \<noteq> [] \<and> d2 \<noteq> [] \<and> normalizeDistrictText d1 = normalizeDistrictText d2
      \<longrightarrow> regionOf fmt tbl props d1 = regionOf fmt tbl props d2)
   \<and> (d \<noteq> [] \<and> toLowerCase d' = toLowerCase d
      \<longrightarrow> regionOf fmt tbl props d' = regionOf fmt tbl props d)
   \<and> (d \<noteq> [] \<and> list_all isSpace l \<and> list_all isSpace r
      \<longrightarrow> regionOf fmt tbl props (l @ d @ r) = regionOf fmt tbl props d)
   \<and> (list_all isSpace ws \<and> ws \<noteq> [] \<and> list_all isSpace ws' \<and> ws' \<noteq> []
      \<longrightarrow> regionOf fmt tbl props (x @ ws @ y) = regionOf fmt tbl props (x @ ws' @ y))
   \<and> (d \<noteq> [] \<and> list_all isSpace ws \<and> ws \<noteq> [] \<and> toLowerCase suffix = ''district''
      \<longrightarrow> regionOf fmt tbl props (d @ ws @ suffix) = regionOf fmt tbl props d)
   \<and> (d \<noteq> [] \<and> list_all isPunctuation ps
      \<longrightarrow> regionOf fmt tbl props (d @ ps) = regionOf fmt tbl props d)"
proof (intro conjI impI)
  assume "d1 \<noteq> [] \<and> d2 \<noteq> [] \<and> normalizeDistrictText d1 = normalizeDistrictText d2"
  then show "regionOf fmt tbl props d1 = regionOf fmt tbl props d2"
    by (intro regionOf_normalised) simp_all
next
  assume h: "d \<noteq> [] \<and> toLowerCase d' = toLowerCase d"
  then have "d' \<noteq> []" by (auto simp: toLowerCase_def)
  with h show "regionOf fmt tbl props d' = regionOf fmt tbl props d"
    by (intro regionOf_normalised normalizeDistrictText_case) simp_all
next
  assume h: "d \<noteq> [] \<and> list_all isSpace l \<and> list_all isSpace r"
  then show "regionOf fmt tbl props (l @ d @ r) = regionOf fmt tbl props d"
    by (intro regionOf_normalised normalizeDistrictText_pad) simp_all
next
  assume h: "list_all isSpace ws \<and> ws \<noteq> [] \<and> list_all isSpace ws' \<and> ws' \<noteq> []"
  then show "regionOf fmt tbl props (x @ ws @ y) = regionOf fmt tbl props (x @ ws' @ y)"
    by (intro regionOf_normalised normalizeDistrictText_run) simp_all
next
  assume h: "d \<noteq> [] \<and> list_all isSpace ws \<and> ws \<noteq> [] \<and> toLowerCase suffix = ''district''"
  then show "regionOf fmt tbl props (d @ ws @ suffix) = regionOf fmt tbl props d"
    by (intro regionOf_normalised normalizeDistrictText_suffix) simp_all
next
  assume h: "d \<noteq> [] \<and> list_all isPunctuation ps"
  then show "regionOf fmt tbl props (d @ ps) = regionOf fmt tbl props d"
    by (intro regionOf_normalised normalizeDistrictText_punctuation) simp_all
qed

theorem region_invariant_witness:
  "regionOf (\<lambda>n. []) (\<lambda>k. if k = ''kampala'' then JStr ''Central'' else JUndefined)
      [(''name'', JStr ''A'')] ''Kampala District''
   = regionOf (\<lambda>n. []) (\<lambda>k. if k = ''kampala'' then JStr ''Central'' else JUndefined)
      [(''name'', JStr ''A'')] ''  kampala ''
   \<and> regionOf (\<lambda>n. []) (\<lambda>k. if k = ''kampala'' then JStr ''Central'' else JUndefined)
      [(''name'', JStr ''A'')] ''  kampala '' = Inr (JStr ''Central'')
   \<and> regionOf (\<lambda>n. []) (\<lambda>k. if k = ''kampala'' then JStr ''Central'' else JUndefined)
      [(''name'', JStr ''A'')] ''Kampala.''
   = regionOf (\<lambda>n. []) (\<lambda>k. if k = ''kampala'' then JStr ''Central'' else JUndefined)
      [(''name'', JStr ''A'')] ''Kampala''
   \<and> regionOf (\<lambda>n. []) (\<lambda>k. if k = ''kampala'' then JStr ''Central'' else JUndefined)
      [(''name'', JStr ''A'')] (''Kampala'' @ [CHR 0x09, CHR 0x20] @ ''District'')
   = regionOf (\<lambda>n. []) (\<lambda>k. if k = ''kampala'' then JStr ''Central'' else JUndefined)
      [(''name'', JStr ''A'')] ''Kampala District''"
proof -
  let ?fmt = "\<lambda>n :: jsnum. [] :: string"
  let ?tbl = "\<lambda>k. if k = ''kampala'' then JStr ''Central'' else JUndefined"
  let ?props = "[(''name'', JStr ''A'')]"
  let ?R = "regionOf ?fmt ?tbl ?props"
  have lo: "toLowerCase ''District'' = ''district''" "toLowerCase ''kampala'' = toLowerCase ''Kampala''"
    by (simp_all add: toLowerCase_def lowerChar_def char_of_eq_iff_nat eq_char_of_iff_nat)
  note t = region_invariant_under_variation
    [where d = "''Kampala''" and ws = "'' ''" and suffix = "''District''" and fmt = ?fmt and tbl = ?tbl
       and props = ?props and d' = "''kampala''" and ps = "''.''"
       and ws' = "[CHR 0x09, CHR 0x20]" and x = "''Kampala''" and y = "''District''"]
  note t' = region_invariant_under_variation
    [where d = "''kampala''" and l = "''  ''" and r = "'' ''" and fmt = ?fmt and tbl = ?tbl and props = ?props]
  have a: "?R (''Kampala'' @ '' '' @ ''District'') = ?R ''Kampala''"
    by (rule t [THEN conjunct2, THEN conjunct2, THEN conjunct2, THEN conjunct2, THEN conjunct1, THEN mp])
       (simp add: isSpace_def lo)
  have b: "?R ''kampala'' = ?R ''Kampala''"
    by (rule t [THEN conjunct2, THEN conjunct1, THEN mp]) (simp add: lo)
  have c: "?R (''  '' @ ''kampala'' @ '' '') = ?R ''kampala''"
    by (rule t' [THEN conjunct2, THEN conjunct2, THEN conjunct1, THEN mp]) (simp add: isSpace_def)
  have p: "?R (''Kampala'' @ ''.'') = ?R ''Kampala''"
    by (rule t [THEN conjunct2, THEN conjunct2, THEN conjunct2, THEN conjunct2, THEN conjunct2, THEN mp])
       (simp add: isPunctuation_def isSpace_def isWordChar_def)
  have u: "?R (''Kampala'' @ '' '' @ ''District'') = ?R (''Kampala'' @ [CHR 0x09, CHR 0x20] @ ''District'')"
    by (rule t [THEN conjunct2, THEN conjunct2, THEN conjunct2, THEN conjunct1, THEN mp])
       (simp add: isSpace_def)
  have val: "?R ''kampala'' = Inr (JStr ''Central'')"
    by code_simp
  have e1: "''Kampala'' @ '' '' @ ''District'' = ''Kampala District''"
    and e2: "''  '' @ ''kampala'' @ '' '' = ''  kampala ''"
    and e3: "''Kampala'' @ ''.'' = ''Kampala.''"
    by simp_all
  from a b c have 1: "?R ''Kampala District'' = ?R ''  kampala ''"
    by (simp only: e1 e2)
  from c val have 2: "?R ''  kampala '' = Inr (JStr ''Central'')"
    by (simp only: e2)
  from p have 3: "?R ''Kampala.'' = ?R ''Kampala''"
    by (simp only: e3)
  from u have 4: "?R (''Kampala'' @ [CHR 0x09, CHR 0x20] @ ''District'') = ?R ''Kampala District''"
    by (simp only: e1)
  from 1 2 3 4 show ?thesis
    by (intro conjI)
qed

text \<open>
  C8 as stated fails in two ways. Punctuation inside a name is removed after the
  white space has been collapsed, so the two spaces it leaves behind stay: two names
  that differ only by a hyphen have different normalised forms and different regions.
  And the empty district string has the normalised form of \<open>District\<close>, the empty
  string, but an empty district is falsy and never looked up, so a table with an entry
  for the empty key gives the two records different regions.
\<close>

theorem region_variation_counterexample:
  "normalizeDistrictText ''Kampala - Central'' = ''kampala  central''
   \<and> normalizeDistrictText ''Kampala  Central'' = ''kampala central''
   \<and> regionOf (\<lambda>n. []) (\<lambda>k. if k = ''kampala central'' then JStr ''Central'' else JUndefined) []
        ''Kampala - Central'' = Inr JNull
   \<and> regionOf (\<lambda>n. []) (\<lambda>k. if k = ''kampala central'' then JStr ''Central'' else JUndefined) []
        ''Kampala  Central'' = Inr (JStr ''Central'')
   \<and> normalizeDistrictText [] = normalizeDistrictText ''District''
   \<and> regionOf (\<lambda>n. []) (\<lambda>k. if k = [] then JStr ''Central'' else JUndefined) [] [] = Inr JNull
   \<and> regionOf (\<lambda>n. []) (\<lambda>k. if k = [] then JStr ''Central'' else JUndefined) [] ''District''
        = Inr (JStr ''Central'')"
  by code_simp

subsection \<open>CSV rows\<close>












subsection \<open>Centroid collapse\<close>

lemma centroidStep_pairOf:
  "centroidStep ar (sx, sy, n) c =
     (case pairOf c of None \<Rightarrow> (sx, sy, n) | Some (x, y) \<Rightarrow> (numAdd ar sx x, numAdd ar sy y, Suc n))"
  by (simp add: centroidStep_def pairOf_def split: jsval.splits list.splits)

lemma foldl_centroidStep:
  "foldl (centroidStep ar) (sx, sy, n) cs =
     (foldl (numAdd ar) sx (map fst (coordinatePairs cs)),
      foldl (numAdd ar) sy (map snd (coordinatePairs cs)),
      n + length (coordinatePairs cs))"
proof (induction cs arbitrary: sx sy n)
  case Nil
  then show ?case by (simp add: coordinatePairs_def List.map_filter_simps)
next
  case (Cons c cs)
  show ?case
  proof (cases "pairOf c")
    case None
    then show ?thesis
      by (simp add: centroidStep_pairOf Cons.IH coordinatePairs_def List.map_filter_simps)
  next
    case (Some p)
    obtain x y where p: "p = (x, y)" by (cases p)
    with Some show ?thesis
      by (simp add: centroidStep_pairOf Cons.IH coordinatePairs_def List.map_filter_simps)
  qed
qed

lemma basicCentroid_JArr:
  "basicCentroid ar (JArr cs) =
     Inr (if coordinatePairs cs = [] then JNull else meanPoint ar (coordinatePairs cs))"
  by (simp add: basicCentroid_def foldl_centroidStep meanPoint_def)

lemma field_JStr_truthy: "field g k = JStr t \<Longrightarrow> truthy g"
  by (cases g) (simp_all add: field_def)

lemma field_pointGeometry: "field (pointGeometry c) ''coordinates'' = c"
  by (simp add: pointGeometry_def field_def getProp_def)

lemma keepsPoint_meanPoint: "keepsPoint (pointGeometry (meanPoint ar ps))"
  by (simp add: keepsPoint_def field_pointGeometry) (simp add: pointGeometry_def meanPoint_def)

lemma keepsPoint_null: "\<not> keepsPoint (pointGeometry JNull)"
  by (simp add: keepsPoint_def field_pointGeometry)

lemma toPointGeometry_lines:
  assumes "field g ''type'' = JStr t"
    and "(t, depth) \<in> {(''LineString'', 0), (''MultiLineString'', 1), (''Polygon'', 1), (''MultiPolygon'', 2)}"
    and "field g ''coordinates'' = JArr xs"
  shows "toPointGeometry ar g =
     Inr (pointGeometry (if coordinatePairs ((flat1 ^^ depth) xs) = [] then JNull
                         else meanPoint ar (coordinatePairs ((flat1 ^^ depth) xs))))"
proof -
  have tr: "truthy g" using assms(1) by (rule field_JStr_truthy)
  have cp: "centroidPoint ar (Inr (JArr cs)) =
      Inr (pointGeometry (if coordinatePairs cs = [] then JNull else meanPoint ar (coordinatePairs cs)))" for cs
    by (simp add: centroidPoint_def basicCentroid_JArr)
  from assms(2) consider "t = ''LineString''" "depth = 0" | "t = ''MultiLineString''" "depth = 1"
    | "t = ''Polygon''" "depth = 1" | "t = ''MultiPolygon''" "depth = 2"
    by auto
  then show ?thesis
  proof cases
    case 1
    then show ?thesis using tr assms(1,3) by (simp add: toPointGeometry_def cp)
  next
    case 2
    then show ?thesis using tr assms(1,3) by (simp add: toPointGeometry_def cp)
  next
    case 3
    then show ?thesis using tr assms(1,3) by (simp add: toPointGeometry_def cp)
  next
    case 4
    then show ?thesis using tr assms(1,3) by (simp add: toPointGeometry_def cp)
  qed
qed

lemma toPointGeometry_MultiPoint:
  assumes "field g ''type'' = JStr ''MultiPoint''" and "field g ''coordinates'' = JArr (x # rest)"
  shows "toPointGeometry ar g = Inr (pointGeometry x)"
  using field_JStr_truthy [OF assms(1)] assms by (simp add: toPointGeometry_def)

lemma coerce_single:
  assumes "toPointGeometry ar g = Inr geom"
  shows "coerceToPoints ar (featureCollection (JArr [JObj [(''geometry'', g), (''properties'', props)]])) =
     Inr (if keepsPoint geom then [\<lparr> geometry = geom, properties = js_or props (JObj []) \<rparr>] else [])"
  using assms
  by (simp add: coerceToPoints_def featureCollection_def field_def getProp_def js_or_def)

lemma toPointGeometry_not_iterable:
  assumes "field g ''type'' = JStr t"
    and "t \<in> {''LineString'', ''MultiLineString'', ''Polygon'', ''MultiPolygon''}"
    and "\<not> isArray (field g ''coordinates'')" and "\<forall>s. field g ''coordinates'' \<noteq> JStr s"
  shows "toPointGeometry ar g = Inl TypeError"
proof -
  have tr: "truthy g" using assms(1) by (rule field_JStr_truthy)
  from assms(3,4) have i: "iterate (field g ''coordinates'') = Inl TypeError"
    by (cases "field g ''coordinates''") simp_all
  from assms(3) have f: "flat n (field g ''coordinates'') = Inl TypeError" for n
    by (cases "field g ''coordinates''") simp_all
  from assms(2) consider "t = ''LineString''" | "t = ''MultiLineString''" | "t = ''Polygon''"
    | "t = ''MultiPolygon''"
    by auto
  then show ?thesis
  proof cases
    case 1
    then show ?thesis using tr assms(1) i
      by (simp add: toPointGeometry_def centroidPoint_def basicCentroid_def)
  next
    case 2
    then show ?thesis using tr assms(1) f by (simp add: toPointGeometry_def centroidPoint_def)
  next
    case 3
    then show ?thesis using tr assms(1) f by (simp add: toPointGeometry_def centroidPoint_def)
  next
    case 4
    then show ?thesis using tr assms(1) f by (simp add: toPointGeometry_def centroidPoint_def)
  qed
qed

lemma coerce_single_throws:
  assumes "toPointGeometry ar g = Inl e"
  shows "coerceToPoints ar (featureCollection (JArr [JObj [(''geometry'', g), (''properties'', props)]])) = Inl e"
  using assms
  by (simp add: coerceToPoints_def featureCollection_def field_def getProp_def js_or_def)

lemma meanPoint_exact:
  assumes "exactSums ar (map fst qs)" and "exactSums ar (map snd qs)"
  shows "meanPoint ar (map (map_prod Fin Fin) qs) =
     JArr [JNum (sum_list (map fst qs) / of_nat (length qs)),
           JNum (sum_list (map snd qs) / of_nat (length qs))]"
proof -
  have f: "map fst (map (map_prod Fin Fin) qs) = map Fin (map fst qs)"
    and s: "map snd (map (map_prod Fin Fin) qs) = map Fin (map snd qs)"
    by (simp_all add: comp_def)
  from assms show ?thesis
    unfolding meanPoint_def f s exactSums_def by simp
qed

text \<open>
  C6, as amended. On the Point-only path a LineString, MultiLineString, Polygon or
  MultiPolygon whose coordinates are an array is collapsed to the point computed from
  the numeric coordinate pairs among the elements of its coordinates flattened 0, 1,
  1 and 2 levels: each component is summed from 0 in the order of the pairs and divided
  by their number, in the arithmetic of doubles. When there is no such pair the record
  is dropped; otherwise it is kept, whatever the numbers computed. Where the sums and
  quotients are exact the point is the component-wise mean. A MultiPoint is collapsed
  to its first point. When the coordinates of a geometry of the four types are neither
  an array nor a string, the conversion of the collection throws.
\<close>

theorem toPointGeometry_centroid:
  assumes "field g ''type'' = JStr t"
    and "(t, depth) \<in> {(''LineString'', 0), (''MultiLineString'', 1), (''Polygon'', 1), (''MultiPolygon'', 2)}"
    and "field g ''coordinates'' = JArr xs"
    and "ps = coordinatePairs ((flat1 ^^ depth) xs)"
    and "field m ''type'' = JStr ''MultiPoint''"
    and "field m ''coordinates'' = JArr (x # rest)"
  shows "toPointGeometry ar g = Inr (pointGeometry (if ps = [] then JNull else meanPoint ar ps))
    \<and> coerceToPoints ar (featureCollection (JArr [JObj [(''geometry'', g), (''properties'', props)]])) =
        Inr (if ps = [] then []
             else [\<lparr> geometry = pointGeometry (meanPoint ar ps), properties = js_or props (JObj []) \<rparr>])
    \<and> (ps = map (map_prod Fin Fin) qs \<and> exactSums ar (map fst qs) \<and> exactSums ar (map snd qs) \<longrightarrow>
          meanPoint ar ps = JArr [JNum (sum_list (map fst qs) / of_nat (length qs)),
                                  JNum (sum_list (map snd qs) / of_nat (length qs))])
    \<and> toPointGeometry ar m = Inr (pointGeometry x)
    \<and> (field h ''type'' = JStr t \<and> \<not> isArray (field h ''coordinates'')
          \<and> (\<forall>s. field h ''coordinates'' \<noteq> JStr s) \<longrightarrow>
        toPointGeometry ar h = Inl TypeError
        \<and> coerceToPoints ar (featureCollection (JArr [JObj [(''geometry'', h), (''properties'', props)]]))
            = Inl TypeError)"
proof -
  have a: "toPointGeometry ar g = Inr (pointGeometry (if ps = [] then JNull else meanPoint ar ps))"
    using toPointGeometry_lines [OF assms(1,2,3)] assms(4) by simp
  have b: "coerceToPoints ar (featureCollection (JArr [JObj [(''geometry'', g), (''properties'', props)]])) =
        Inr (if ps = [] then []
             else [\<lparr> geometry = pointGeometry (meanPoint ar ps), properties = js_or props (JObj []) \<rparr>])"
    by (simp add: coerce_single [OF a] keepsPoint_meanPoint keepsPoint_null)
  have c: "ps = map (map_prod Fin Fin) qs \<and> exactSums ar (map fst qs) \<and> exactSums ar (map snd qs) \<longrightarrow>
          meanPoint ar ps = JArr [JNum (sum_list (map fst qs) / of_nat (length qs)),
                                  JNum (sum_list (map snd qs) / of_nat (length qs))]"
    using meanPoint_exact [of ar qs] by blast
  have d: "toPointGeometry ar m = Inr (pointGeometry x)"
    using assms(5,6) by (rule toPointGeometry_MultiPoint)
  have t: "t \<in> {''LineString'', ''MultiLineString'', ''Polygon'', ''MultiPolygon''}"
    using assms(2) by auto
  have e: "field h ''type'' = JStr t \<and> \<not> isArray (field h ''coordinates'')
          \<and> (\<forall>s. field h ''coordinates'' \<noteq> JStr s) \<longrightarrow>
        toPointGeometry ar h = Inl TypeError
        \<and> coerceToPoints ar (featureCollection (JArr [JObj [(''geometry'', h), (''properties'', props)]]))
            = Inl TypeError"
  proof (intro impI, elim conjE)
    assume h: "field h ''type'' = JStr t" "\<not> isArray (field h ''coordinates'')"
      "\<forall>s. field h ''coordinates'' \<noteq> JStr s"
    from toPointGeometry_not_iterable [OF h(1) t h(2,3)]
    have x: "toPointGeometry ar h = Inl TypeError" .
    from x coerce_single_throws [OF x] show "toPointGeometry ar h = Inl TypeError
        \<and> coerceToPoints ar (featureCollection (JArr [JObj [(''geometry'', h), (''properties'', props)]]))
            = Inl TypeError"
      by (intro conjI)
  qed
  from a b c d e show ?thesis by (intro conjI)
qed

theorem toPointGeometry_centroid_witness:
  "toPointGeometry exactArith (JObj [(''type'', JStr ''Polygon''),
       (''coordinates'', JArr [JArr [JArr [JNum 0, JNum 0], JArr [JNum 2, JNum 2], JArr [JNum 4, JNum 7]]])])
     = Inr (pointGeometry (JArr [JNum 2, JNum 3]))
   \<and> coerceToPoints exactArith (featureCollection (JArr [JObj [(''geometry'', JObj [(''type'', JStr ''Polygon''),
       (''coordinates'', JArr [JArr [JArr [JNum 0, JNum 0], JArr [JNum 2, JNum 2], JArr [JNum 4, JNum 7]]])]),
       (''properties'', JUndefined)]]))
     = Inr [\<lparr> geometry = pointGeometry (JArr [JNum 2, JNum 3]), properties = JObj [] \<rparr>]
   \<and> toPointGeometry exactArith (JObj [(''type'', JStr ''MultiPoint''),
       (''coordinates'', JArr [JArr [JNum 5, JNum 6], JArr [JNum 7, JNum 8]])])
     = Inr (pointGeometry (JArr [JNum 5, JNum 6]))
   \<and> toPointGeometry exactArith (JObj [(''type'', JStr ''Polygon''), (''coordinates'', JNull)])
     = Inl TypeError"
proof -
  let ?xs = "[JArr [JArr [JNum 0, JNum 0], JArr [JNum 2, JNum 2], JArr [JNum 4, JNum 7]]]"
  let ?g = "JObj [(''type'', JStr ''Polygon''), (''coordinates'', JArr ?xs)]"
  let ?m = "JObj [(''type'', JStr ''MultiPoint''),
       (''coordinates'', JArr [JArr [JNum 5, JNum 6], JArr [JNum 7, JNum 8]])]"
  let ?qs = "[(0, 0), (2, 2), (4, 7)] :: (rat \<times> rat) list"
  let ?ps = "map (map_prod Fin Fin) ?qs"
  have h1: "field ?g ''type'' = JStr ''Polygon''"
    by (simp add: field_def getProp_def)
  have h2: "(''Polygon'', 1) \<in> {(''LineString'', 0), (''MultiLineString'', 1), (''Polygon'', 1), (''MultiPolygon'', 2 :: nat)}"
    by simp
  have h3: "field ?g ''coordinates'' = JArr ?xs"
    by (simp add: field_def getProp_def)
  have h4: "?ps = coordinatePairs ((flat1 ^^ 1) ?xs)"
    by (simp add: coordinatePairs_def flat1_def pairOf_def List.map_filter_simps)
  have h5: "field ?m ''type'' = JStr ''MultiPoint''"
    by (simp add: field_def getProp_def)
  have h6: "field ?m ''coordinates'' = JArr (JArr [JNum 5, JNum 6] # [JArr [JNum 7, JNum 8]])"
    by (simp add: field_def getProp_def)
  have e1: "exactSums exactArith (map fst ?qs)"
    by (simp add: exactSums_def exactArith_def)
  have e2: "exactSums exactArith (map snd ?qs)"
    by (simp add: exactSums_def exactArith_def)
  let ?h = "JObj [(''type'', JStr ''Polygon''), (''coordinates'', JNull)]"
  have h7: "field ?h ''type'' = JStr ''Polygon'' \<and> \<not> isArray (field ?h ''coordinates'')
          \<and> (\<forall>s. field ?h ''coordinates'' \<noteq> JStr s)"
    by (simp add: field_def getProp_def)
  note t = toPointGeometry_centroid [OF h1 h2 h3 h4 h5 h6, of exactArith JUndefined ?qs ?h]
  from t e1 e2 have mp: "meanPoint exactArith ?ps = JArr [JNum 2, JNum 3]"
    by simp
  have ne: "?ps \<noteq> []" by simp
  from t have a: "toPointGeometry exactArith ?g = Inr (pointGeometry (JArr [JNum 2, JNum 3]))"
    unfolding mp using ne by simp
  from t have b: "coerceToPoints exactArith (featureCollection (JArr [JObj [(''geometry'', ?g), (''properties'', JUndefined)]]))
      = Inr [\<lparr> geometry = pointGeometry (JArr [JNum 2, JNum 3]), properties = JObj [] \<rparr>]"
    unfolding mp using ne by (simp add: js_or_def)
  from t have c: "toPointGeometry exactArith ?m = Inr (pointGeometry (JArr [JNum 5, JNum 6]))"
    by simp
  from t h7 have d: "toPointGeometry exactArith ?h = Inl TypeError"
    by blast
  from a b c d show ?thesis by (intro conjI)
qed

text \<open>
  C6 as stated fails in three ways. A MultiPoint becomes its first point, not the mean
  of its coordinate pairs. Pairs nested deeper than the flattening reaches are not
  found: a LineString whose coordinates hold its two pairs one level down is dropped.
  And a LineString without coordinates is not dropped: the conversion of the whole
  collection throws.
\<close>

theorem toPointGeometry_centroid_counterexample:
  "toPointGeometry exactArith (JObj [(''type'', JStr ''MultiPoint''),
       (''coordinates'', JArr [JArr [JNum 0, JNum 0], JArr [JNum 2, JNum 2]])])
     = Inr (pointGeometry (JArr [JNum 0, JNum 0]))
   \<and> nestedPairs (JArr [JArr [JNum 0, JNum 0], JArr [JNum 2, JNum 2]]) = [(Fin 0, Fin 0), (Fin 2, Fin 2)]
   \<and> meanPoint exactArith [(Fin 0, Fin 0), (Fin 2, Fin 2)] = JArr [JNum 1, JNum 1]
   \<and> coerceToPoints exactArith (featureCollection (JArr [JObj [(''geometry'', JObj [(''type'', JStr ''LineString''),
         (''coordinates'', JArr [JArr [JArr [JNum 0, JNum 0], JArr [JNum 2, JNum 2]]])])]])) = Inr []
   \<and> nestedPairs (JArr [JArr [JArr [JNum 0, JNum 0], JArr [JNum 2, JNum 2]]]) = [(Fin 0, Fin 0), (Fin 2, Fin 2)]
   \<and> coerceToPoints exactArith (featureCollection (JArr
        [JObj [(''geometry'', JObj [(''type'', JStr ''Point''), (''coordinates'', JArr [JNum 32, JNum 1])])],
         JObj [(''geometry'', JObj [(''type'', JStr ''LineString'')])]])) = Inl TypeError"
  by (simp add: toPointGeometry_def field_def getProp_def meanPoint_def exactArith_def coerceToPoints_def
      featureCollection_def js_or_def centroidPoint_def basicCentroid_def centroidStep_def keepsPoint_def
      pointGeometry_def)

subsection \<open>Fiber geometry\<close>


lemma member_Inr: "member v k = Inr x \<Longrightarrow> x = field v k"
  by (cases v) (auto simp: field_def)

lemma vertexPairs_Inr: "vertexPairs vs = Inr out \<Longrightarrow> out = map vertexPair vs"
proof (induction vs arbitrary: out)
  case Nil
  then show ?case by simp
next
  case (Cons p ps)
  then show ?case
    by (auto simp: vertexPair_def split: sum.splits dest: member_Inr)
qed


lemma memberLines_Inr: "memberLines ms = Inr lines \<Longrightarrow> lines = relationLines ms"
proof (induction ms arbitrary: lines)
  case Nil
  then show ?case by (simp add: relationLines_def List.map_filter_simps)
next
  case (Cons m ms)
  show ?case
  proof (cases "wayVertices m")
    case None
    with Cons show ?thesis
      by (auto simp: relationLines_def List.map_filter_simps split: sum.splits)
  next
    case (Some vs)
    with Cons show ?thesis
      by (auto simp: relationLines_def List.map_filter_simps split: sum.splits dest: vertexPairs_Inr)
  qed
qed



lemma fiberGeometry_relation:
  assumes "field el ''type'' = JStr ''relation''" and "field el ''members'' = JArr ms"
    and "memberLines ms = Inr lines"
  shows "fiberGeometry el =
     Inr (case lines of [] \<Rightarrow> JNull | [l] \<Rightarrow> lineGeometry ''LineString'' l
          | _ \<Rightarrow> lineGeometry ''MultiLineString'' (JArr lines))"
  using assms by (simp add: fiberGeometry_def split: list.splits)




subsection \<open>Emitted geometry\<close>

lemma isNumber_numericLeaves: "isNumber v \<Longrightarrow> numericLeaves v"
  by (cases v) simp_all

lemma field_lineGeometry: "field (lineGeometry t c) ''coordinates'' = c"
  by (simp add: lineGeometry_def field_def getProp_def)

lemma field_pointGeometry': "field (pointGeometry c) ''coordinates'' = c"
  by (simp add: pointGeometry_def field_def getProp_def)

lemma numericLeaves_vertexPair: "numericVertex p \<Longrightarrow> numericLeaves (vertexPair p)"
  by (simp add: numericVertex_def vertexPair_def isNumber_numericLeaves)

lemma numericLeaves_line: "list_all numericVertex vs \<Longrightarrow> numericLeaves (JArr (map vertexPair vs))"
  by (induction vs) (simp_all add: numericLeaves_vertexPair)

lemma relationLines_Cons:
  "relationLines (m # ms) =
     (case wayVertices m of None \<Rightarrow> relationLines ms
      | Some vs \<Rightarrow> JArr (map vertexPair vs) # relationLines ms)"
  by (simp add: relationLines_def List.map_filter_simps split: option.splits)

lemma numericLeaves_relationLines:
  "list_all numericVertex (concat (List.map_filter wayVertices ms))
   \<Longrightarrow> list_all numericLeaves (relationLines ms)"
proof (induction ms)
  case Nil
  then show ?case by (simp add: relationLines_def List.map_filter_simps)
next
  case (Cons m ms)
  show ?case
  proof (cases "wayVertices m")
    case None
    with Cons show ?thesis
      by (simp add: relationLines_Cons List.map_filter_simps)
  next
    case (Some vs)
    with Cons.prems have a: "list_all numericVertex vs"
      and b: "list_all numericVertex (concat (List.map_filter wayVertices ms))"
      by (simp_all add: List.map_filter_simps)
    from Some numericLeaves_line [OF a] Cons.IH [OF b] show ?thesis
      by (simp add: relationLines_Cons)
  qed
qed

lemma isArray_iff: "isArray v = (\<exists>xs. v = JArr xs)"
  by (cases v) simp_all

lemma fiberGeometry_node:
  "field el ''type'' = JStr ''node'' \<Longrightarrow> isNumber (field el ''lon'') \<Longrightarrow> isNumber (field el ''lat'')
   \<Longrightarrow> fiberGeometry el = Inr (pointGeometry (JArr [field el ''lon'', field el ''lat'']))"
  by (simp add: fiberGeometry_def)

lemma fiberGeometry_way:
  "field el ''type'' = JStr ''way'' \<Longrightarrow> field el ''geometry'' = JArr vs
   \<Longrightarrow> fiberGeometry el = map_sum id (\<lambda>coords. lineGeometry ''LineString'' (JArr coords)) (vertexPairs vs)"
  by (simp add: fiberGeometry_def)

lemma fiberGeometry_none:
  "\<not> (field el ''type'' = JStr ''node'' \<and> isNumber (field el ''lon'') \<and> isNumber (field el ''lat''))
   \<Longrightarrow> \<not> (field el ''type'' = JStr ''way'' \<and> isArray (field el ''geometry''))
   \<Longrightarrow> \<not> (field el ''type'' = JStr ''relation'' \<and> isArray (field el ''members''))
   \<Longrightarrow> fiberGeometry el = Inr JNull"
  unfolding fiberGeometry_def by (simp only: if_False)

lemma fiberGeometry_numeric:
  assumes "fiberGeometry el = Inr geom" and "truthy geom"
    and "list_all numericVertex (elementVertices el)"
  shows "numericLeaves (field geom ''coordinates'')"
proof (cases "field el ''type'' = JStr ''node'' \<and> isNumber (field el ''lon'') \<and> isNumber (field el ''lat'')")
  case True
  with assms(1) have "geom = pointGeometry (JArr [field el ''lon'', field el ''lat''])"
    by (simp add: fiberGeometry_node)
  with True show ?thesis
    by (simp add: field_pointGeometry' isNumber_numericLeaves)
next
  case nn: False
  show ?thesis
  proof (cases "field el ''type'' = JStr ''way'' \<and> isArray (field el ''geometry'')")
    case True
    then obtain vs where t: "field el ''type'' = JStr ''way''" and v: "field el ''geometry'' = JArr vs"
      by (auto simp: isArray_iff)
    from assms(1) obtain out where o: "vertexPairs vs = Inr out"
      and g: "geom = lineGeometry ''LineString'' (JArr out)"
      by (cases "vertexPairs vs") (simp_all add: fiberGeometry_way [OF t v])
    from t v assms(3) have "list_all numericVertex vs"
      by (simp add: elementVertices_def)
    with vertexPairs_Inr [OF o] g show ?thesis
      by (simp only: field_lineGeometry numericLeaves_line)
  next
    case nw: False
    show ?thesis
    proof (cases "field el ''type'' = JStr ''relation'' \<and> isArray (field el ''members'')")
      case True
      then obtain ms where t: "field el ''type'' = JStr ''relation''" and m: "field el ''members'' = JArr ms"
        by (auto simp: isArray_iff)
      from assms(1) obtain lines where o: "memberLines ms = Inr lines"
        by (cases "memberLines ms") (simp_all add: fiberGeometry_def t m)
      from t m assms(3) have "list_all numericVertex (concat (List.map_filter wayVertices ms))"
        by (simp add: elementVertices_def)
      from numericLeaves_relationLines [OF this] memberLines_Inr [OF o]
      have nl: "list_all numericLeaves lines"
        by simp
      from assms(1) fiberGeometry_relation [OF t m o]
      have g: "geom = (case lines of [] \<Rightarrow> JNull | [l] \<Rightarrow> lineGeometry ''LineString'' l
            | _ \<Rightarrow> lineGeometry ''MultiLineString'' (JArr lines))"
        by simp
      show ?thesis
      proof (cases lines)
        case Nil
        with g assms(2) show ?thesis by simp
      next
        case (Cons l rest)
        with nl g show ?thesis
          by (cases rest) (simp_all add: field_lineGeometry)
      qed
    next
      case False
      from assms(1,2) fiberGeometry_none [OF nn nw False] show ?thesis by simp
    qed
  qed
qed

lemma elementToGeoJSONFeature_valid:
  assumes "elementToGeoJSONFeature conv el = Inr (Some f)"
  shows "truthy (geometry f)"
    and "list_all numericVertex (elementVertices el) \<Longrightarrow> validGeometry (geometry f)"
proof -
  from assms obtain geom where g: "fiberGeometry el = Inr geom" and t: "truthy geom"
    and f: "geometry f = geom"
    by (auto simp: elementToGeoJSONFeature_def split: sum.splits if_splits)
  from t f show "truthy (geometry f)" by simp
  assume "list_all numericVertex (elementVertices el)"
  from fiberGeometry_numeric [OF g t this] t f show "validGeometry (geometry f)"
    by (simp add: validGeometry_def)
qed

lemma buildFeatureCollection_valid:
  "buildFeatureCollection conv els = Inr fs \<Longrightarrow>
     list_all (\<lambda>f. truthy (geometry f)) fs
     \<and> (list_all (\<lambda>el. list_all numericVertex (elementVertices el)) els
          \<longrightarrow> list_all (\<lambda>f. validGeometry (geometry f)) fs)"
proof (induction els arbitrary: fs)
  case Nil
  then show ?case by simp
next
  case (Cons el els)
  from Cons.prems obtain f rest where e: "elementToGeoJSONFeature conv el = Inr f"
    and r: "buildFeatureCollection conv els = Inr rest"
    and fs: "fs = (case f of None \<Rightarrow> rest | Some x \<Rightarrow> x # rest)"
    by (auto split: sum.splits)
  show ?case
  proof (cases f)
    case None
    with fs Cons.IH [OF r] show ?thesis by simp
  next
    case (Some x)
    with e have ex: "elementToGeoJSONFeature conv el = Inr (Some x)" by simp
    from Some fs Cons.IH [OF r] elementToGeoJSONFeature_valid [OF ex] show ?thesis
      by simp
  qed
qed

lemma keepsPoint_valid: "keepsPoint geom \<Longrightarrow> validGeometry geom"
proof -
  assume k: "keepsPoint geom"
  have "list_all isNumber ns \<Longrightarrow> list_all numericLeaves ns" for ns
    by (induction ns) (simp_all add: isNumber_numericLeaves)
  with k show ?thesis
    by (auto simp: keepsPoint_def validGeometry_def split: jsval.splits)
qed

lemma coerceFeatures_valid:
  "coerceFeatures ar fs = Inr out \<Longrightarrow> list_all (\<lambda>f. validGeometry (geometry f)) out"
proof (induction fs arbitrary: out)
  case Nil
  then show ?case by simp
next
  case (Cons f fs)
  then show ?case
    by (auto split: sum.splits if_splits simp: keepsPoint_valid)
qed

lemma coerceToPoints_valid:
  "coerceToPoints ar fc = Inr out \<Longrightarrow> list_all (\<lambda>f. validGeometry (geometry f)) out"
  by (auto simp: coerceToPoints_def split: sum.splits dest: coerceFeatures_valid)

lemma collect_all:
  "collect body xs = Inr out \<Longrightarrow> (\<And>x y. body x = Inr (Some y) \<Longrightarrow> P y) \<Longrightarrow> list_all P out"
proof (induction xs arbitrary: out)
  case Nil
  then show ?case by simp
next
  case (Cons x xs)
  from Cons.prems(1) obtain y rest where b: "body x = Inr y" and r: "collect body xs = Inr rest"
    and o: "out = (case y of None \<Rightarrow> rest | Some v \<Rightarrow> v # rest)"
    by (auto split: sum.splits)
  from Cons.IH [OF r Cons.prems(2)] have ih: "list_all P rest" .
  show ?case
  proof (cases y)
    case None
    with o ih show ?thesis by simp
  next
    case (Some v)
    with b Cons.prems(2) [of x v] have "P v" by simp
    with Some o ih show ?thesis by simp
  qed
qed

lemma validGeometry_point: "validGeometry (pointGeometry (JArr [JNum lon, JNum lat]))"
  by (simp add: validGeometry_def pointGeometry_def field_def getProp_def)

lemma rowFeature_valid:
  assumes "rowFeature num fmt la lo nk ow gk dk r = Inr (Some f)"
  shows "validGeometry (geometry f)"
proof -
  from assms obtain lat lon where "geometry f = pointGeometry (JArr [JNum lon, JNum lat])"
    by (cases "toNumber num fmt (getProp r la)"; cases "toNumber num fmt (getProp r lo)")
       (auto simp: rowFeature_def Let_def split: option.splits)
  then show ?thesis
    by (simp only: validGeometry_point)
qed

lemma rowsToGeoJSON_shape:
  assumes "rowsToGeoJSON num fmt rows = Inr out"
  shows "\<exists>la lo nk ow gk dk. collect (rowFeature num fmt la lo nk ow gk dk) rows = Inr out"
proof (cases rows)
  case Nil
  with assms have "out = []" by (simp add: rowsToGeoJSON_def)
  with Nil show ?thesis by simp
next
  case (Cons first rest)
  let ?la = "detectField first [''lat'', ''latitude'', ''y'', ''geom_lat'', ''Latitude'', ''Lat'']"
  let ?lo = "detectField first
                 [''lon'', ''lng'', ''longitude'', ''x'', ''geom_lon'', ''Longitude'', ''Long'', ''Lng'']"
  from assms Cons obtain la lo where la: "?la = Some la" and lo: "?lo = Some lo"
    by (cases ?la; cases ?lo) (simp_all add: rowsToGeoJSON_def Let_def)
  from assms have "(case rows of [] \<Rightarrow> Inr [] | first # x \<Rightarrow>
       (case (?la, ?lo) of
          (Some la, Some lo) \<Rightarrow>
            collect
                   (rowFeature num fmt la lo
                      (detectField first [''name'', ''school'', ''school_name'', ''name_of_school'', ''Name''])
                      (detectField first [''ownership'', ''ownership_type'', ''management'', ''operator:type''])
                      (detectField first [''gender'', ''gender_of_students'', ''sex''])
                      (detectField first [''district'', ''adm2'', ''admin2'', ''ADM2_NAME''])) rows
        | _ \<Rightarrow> Inl (Error ''CSV dataset does not contain recognizable lat/lon columns''))) = Inr out"
    unfolding rowsToGeoJSON_def Let_def Cons list.case by (simp only: Cons [symmetric])
  then have "collect
                   (rowFeature num fmt la lo
                      (detectField first [''name'', ''school'', ''school_name'', ''name_of_school'', ''Name''])
                      (detectField first [''ownership'', ''ownership_type'', ''management'', ''operator:type''])
                      (detectField first [''gender'', ''gender_of_students'', ''sex''])
                      (detectField first [''district'', ''adm2'', ''admin2'', ''ADM2_NAME''])) rows
      = (Inr out :: js_error + feature list)"
    unfolding Cons list.case la lo by (simp only: prod.case option.case)
  then show ?thesis
    by blast
qed

lemma rowsToGeoJSON_valid:
  assumes "rowsToGeoJSON num fmt rows = Inr out"
  shows "list_all (\<lambda>f. validGeometry (geometry f)) out"
proof -
  from rowsToGeoJSON_shape [OF assms] obtain la lo nk ow gk dk where
    c: "collect (rowFeature num fmt la lo nk ow gk dk) rows = Inr out"
    by blast
  show ?thesis
    by (rule collect_all [OF c]) (rule rowFeature_valid)
qed

text \<open>
  C4, as amended. Every feature either pipeline emits has a geometry that is not null.
  On the schools path (\<open>coerceToPoints\<close>, \<open>rowsToGeoJSON\<close>) every coordinate of an emitted
  feature is a number. On the fiber path the same holds when the vertices of the ways
  and of the member ways of relations carry numeric \<open>lon\<close> and \<open>lat\<close>; the position of a
  node is checked by the code itself.
\<close>

theorem emitted_geometry_valid:
  "(buildFeatureCollection conv els = Inr fs \<longrightarrow>
      list_all (\<lambda>f. truthy (geometry f)) fs
      \<and> (list_all (\<lambda>el. list_all numericVertex (elementVertices el)) els
           \<longrightarrow> list_all (\<lambda>f. validGeometry (geometry f)) fs))
   \<and> (coerceToPoints ar fc = Inr out \<longrightarrow> list_all (\<lambda>f. validGeometry (geometry f)) out)
   \<and> (rowsToGeoJSON num fmt rows = Inr out' \<longrightarrow> list_all (\<lambda>f. validGeometry (geometry f)) out')"
  using buildFeatureCollection_valid [of conv els fs]
    coerceToPoints_valid [of ar fc out] rowsToGeoJSON_valid [of num fmt rows out']
  by blast

theorem emitted_geometry_valid_witness:
  "(\<exists>fs. buildFeatureCollection (\<lambda>v. [])
          [JObj [(''type'', JStr ''node''), (''id'', JNum 1), (''lon'', JNum 32), (''lat'', JNum 1)],
           JObj [(''type'', JStr ''node''), (''id'', JNum 2), (''lon'', JNum 32)],
           JObj [(''type'', JStr ''way''), (''id'', JNum 3),
                 (''geometry'', JArr [JObj [(''lat'', JNum 1), (''lon'', JNum 2)],
                                      JObj [(''lat'', JNum 3), (''lon'', JNum 4)]])]] = Inr fs
        \<and> length fs = 2 \<and> list_all (\<lambda>f. validGeometry (geometry f)) fs)
   \<and> coerceToPoints exactArith (featureCollection (JArr
          [JObj [(''geometry'', JObj [(''type'', JStr ''Point''), (''coordinates'', JArr [JNum 32, JNum 1])])],
           JObj [(''geometry'', JObj [(''type'', JStr ''Point''), (''coordinates'', JArr [JNum 32, JStr ''x''])])],
           JObj [(''geometry'', JObj [(''type'', JStr ''LineString''), (''coordinates'', JArr [])])]]))
       = Inr [\<lparr> geometry = JObj [(''type'', JStr ''Point''), (''coordinates'', JArr [JNum 32, JNum 1])],
                properties = JObj [] \<rparr>]
   \<and> validGeometry (JObj [(''type'', JStr ''Point''), (''coordinates'', JArr [JNum 32, JNum 1])])
   \<and> rowsToGeoJSON (\<lambda>s. if s = ''1'' then Some 1 else if s = ''32'' then Some 32 else None) (\<lambda>n. [])
          [[(''Lat'', JStr ''1''), (''Lng'', JStr '' 32'')], [(''Lat'', JStr ''x''), (''Lng'', JStr ''32'')]]
       = Inr [\<lparr> geometry = pointGeometry (JArr [JNum 32, JNum 1]), properties = JObj [] \<rparr>]
   \<and> validGeometry (pointGeometry (JArr [JNum 32, JNum 1]))"
proof -
  let ?els = "[JObj [(''type'', JStr ''node''), (''id'', JNum 1), (''lon'', JNum 32), (''lat'', JNum 1)],
           JObj [(''type'', JStr ''node''), (''id'', JNum 2), (''lon'', JNum 32)],
           JObj [(''type'', JStr ''way''), (''id'', JNum 3),
                 (''geometry'', JArr [JObj [(''lat'', JNum 1), (''lon'', JNum 2)],
                                      JObj [(''lat'', JNum 3), (''lon'', JNum 4)]])]]"
  let ?fc = "featureCollection (JArr
          [JObj [(''geometry'', JObj [(''type'', JStr ''Point''), (''coordinates'', JArr [JNum 32, JNum 1])])],
           JObj [(''geometry'', JObj [(''type'', JStr ''Point''), (''coordinates'', JArr [JNum 32, JStr ''x''])])],
           JObj [(''geometry'', JObj [(''type'', JStr ''LineString''), (''coordinates'', JArr [])])]])"
  let ?out = "[\<lparr> geometry = JObj [(''type'', JStr ''Point''), (''coordinates'', JArr [JNum 32, JNum 1])],
                properties = JObj [] \<rparr>]"
  let ?num = "\<lambda>s. if s = ''1'' then Some (1 :: rat) else if s = ''32'' then Some 32 else None"
  let ?rows = "[[(''Lat'', JStr ''1''), (''Lng'', JStr '' 32'')], [(''Lat'', JStr ''x''), (''Lng'', JStr ''32'')]]"
  let ?out' = "[\<lparr> geometry = pointGeometry (JArr [JNum 32, JNum 1]), properties = JObj [] \<rparr>]"
  have "map_sum id length (buildFeatureCollection (\<lambda>v. []) ?els) = Inr 2"
    by code_simp
  then obtain fs where fs: "buildFeatureCollection (\<lambda>v. []) ?els = Inr fs" and len: "length fs = 2"
    by (cases "buildFeatureCollection (\<lambda>v. []) ?els") auto
  have v: "list_all (\<lambda>el. list_all numericVertex (elementVertices el)) ?els"
    by (simp add: elementVertices_def numericVertex_def field_def getProp_def)
  have c: "coerceToPoints exactArith ?fc = Inr ?out"
    by code_simp
  have r: "rowsToGeoJSON ?num (\<lambda>n. []) ?rows = Inr ?out'"
    by code_simp
  from emitted_geometry_valid [of "\<lambda>v. []" ?els fs exactArith ?fc ?out ?num "\<lambda>n. []" ?rows ?out'] fs v c r
  have "list_all (\<lambda>f. validGeometry (geometry f)) fs"
    and "list_all (\<lambda>f. validGeometry (geometry f)) ?out"
    and "list_all (\<lambda>f. validGeometry (geometry f)) ?out'"
    by blast+
  with fs len c r show ?thesis
    by simp
qed

text \<open>
  C4 as stated fails on the fiber path: the vertices of a way are copied without a
  check, so a way with a vertex that has no \<open>lon\<close> is emitted with a coordinate that is
  not a number.
\<close>

theorem emitted_geometry_counterexample:
  "map_sum id (map_option geometry)
     (elementToGeoJSONFeature (\<lambda>v. [])
        (JObj [(''type'', JStr ''way''), (''id'', JNum 1), (''geometry'', JArr [JObj [(''lat'', JNum 1)]])]))
   = Inr (Some (lineGeometry ''LineString'' (JArr [JArr [JUndefined, JNum 1]])))
   \<and> \<not> validGeometry (lineGeometry ''LineString'' (JArr [JArr [JUndefined, JNum 1]]))"
  by (simp add: elementToGeoJSONFeature_def fiberGeometry_def field_def getProp_def lineGeometry_def
      validGeometry_def)

subsection \<open>Retry coordinator\<close>

declare retryLoop.simps [simp del]

lemma retryLoop_done:
  "\<not> a \<le> A \<Longrightarrow> retryLoop fmt net delay endpoints A D a le =
     \<lparr> requests = [], sleeps = [],
       outcome = Inl (case le of Some e \<Rightarrow> e | None \<Rightarrow> Error ''Overpass query failed'') \<rparr>"
  by (subst retryLoop.simps) simp

lemma retryLoop_ok:
  "a \<le> A \<Longrightarrow> responseOutcome fmt (net a (endpointOf endpoints a)) = Inr json \<Longrightarrow>
   retryLoop fmt net delay endpoints A D a le =
     \<lparr> requests = [endpointOf endpoints a], sleeps = [], outcome = Inr json \<rparr>"
  by (subst retryLoop.simps) (simp add: Let_def)

lemma retryLoop_step:
  "a \<le> A \<Longrightarrow> responseOutcome fmt (net a (endpointOf endpoints a)) = Inl err \<Longrightarrow>
   retryLoop fmt net delay endpoints A D a le =
     (retryLoop fmt net delay endpoints A D (Suc a) (Some err))
       \<lparr> requests := endpointOf endpoints a
            # requests (retryLoop fmt net delay endpoints A D (Suc a) (Some err)),
         sleeps := (if a < A
                    then delay D a
                         # sleeps (retryLoop fmt net delay endpoints A D (Suc a) (Some err))
                    else sleeps (retryLoop fmt net delay endpoints A D (Suc a) (Some err))) \<rparr>"
  by (subst retryLoop.simps) (simp add: Let_def)

lemma retryLoop_fail:
  assumes "a \<le> A" and "responseOutcome fmt (net a (endpointOf endpoints a)) = Inl err"
  shows "requests (retryLoop fmt net delay endpoints A D a le) =
     endpointOf endpoints a # requests (retryLoop fmt net delay endpoints A D (Suc a) (Some err))
   \<and> outcome (retryLoop fmt net delay endpoints A D a le) =
     outcome (retryLoop fmt net delay endpoints A D (Suc a) (Some err))"
  by (simp add: retryLoop_step [where net=net and endpoints=endpoints and a=a, OF assms])

lemma retryLoop_requests:
  "i < length (requests (retryLoop fmt net delay endpoints A D a le)) \<Longrightarrow>
   requests (retryLoop fmt net delay endpoints A D a le) ! i = endpointOf endpoints (a + i)"
proof (induction fmt net delay endpoints A D a le arbitrary: i rule: retryLoop.induct)
  case (1 fmt net delay endpoints A D a le)
  show ?case
  proof (cases "a \<le> A")
    case False
    with "1.prems" show ?thesis by (simp add: retryLoop_done)
  next
    case True
    show ?thesis
    proof (cases "responseOutcome fmt (net a (endpointOf endpoints a))")
      case (Inr json)
      with True "1.prems" show ?thesis by (simp add: retryLoop_ok)
    next
      case (Inl err)
      note f = retryLoop_fail [where net=net and endpoints=endpoints and a=a and delay=delay and D=D and le=le, OF True Inl]
      show ?thesis
      proof (cases i)
        case 0
        with f show ?thesis by simp
      next
        case (Suc j)
        with "1.prems" f
        have "j < length (requests (retryLoop fmt net delay endpoints A D (Suc a) (Some err)))"
          by simp
        from "1.IH" [OF True refl Inl this] f Suc show ?thesis
          by simp
      qed
    qed
  qed
qed

lemma retryLoop_length:
  "length (requests (retryLoop fmt net delay endpoints A D a le)) \<le> Suc A - a"
proof (induction fmt net delay endpoints A D a le rule: retryLoop.induct)
  case (1 fmt net delay endpoints A D a le)
  show ?case
  proof (cases "a \<le> A")
    case False
    then show ?thesis by (simp add: retryLoop_done)
  next
    case True
    show ?thesis
    proof (cases "responseOutcome fmt (net a (endpointOf endpoints a))")
      case (Inr json)
      with True show ?thesis by (simp add: retryLoop_ok)
    next
      case (Inl err)
      from "1.IH" [OF True refl Inl] retryLoop_fail [where net=net and endpoints=endpoints and a=a and delay=delay and D=D and le=le, OF True Inl] True
      show ?thesis by simp
    qed
  qed
qed

lemma retryLoop_all_fail:
  "a \<le> A \<Longrightarrow> (\<forall>i. a \<le> i \<and> i \<le> A \<longrightarrow> isl (responseOutcome fmt (net i (endpointOf endpoints i)))) \<Longrightarrow>
   length (requests (retryLoop fmt net delay endpoints A D a le)) = Suc A - a
   \<and> outcome (retryLoop fmt net delay endpoints A D a le) = responseOutcome fmt (net A (endpointOf endpoints A))"
proof (induction fmt net delay endpoints A D a le rule: retryLoop.induct)
  case (1 fmt net delay endpoints A D a le)
  from "1.prems" obtain err where e: "responseOutcome fmt (net a (endpointOf endpoints a)) = Inl err"
    by (cases "responseOutcome fmt (net a (endpointOf endpoints a))") auto
  note f = retryLoop_fail [where net=net and endpoints=endpoints and a=a and delay=delay and D=D and le=le, OF "1.prems"(1) e]
  show ?case
  proof (cases "Suc a \<le> A")
    case True
    with "1.prems" have "\<forall>i. Suc a \<le> i \<and> i \<le> A \<longrightarrow> isl (responseOutcome fmt (net i (endpointOf endpoints i)))"
      by simp
    from "1.IH" [OF "1.prems"(1) refl e True this] f True show ?thesis
      by simp
  next
    case False
    with "1.prems"(1) have "a = A" by simp
    with f e False show ?thesis
      by (simp add: retryLoop_done)
  qed
qed

lemma retryLoop_first_success:
  "a \<le> k \<Longrightarrow> k \<le> A \<Longrightarrow> responseOutcome fmt (net k (endpointOf endpoints k)) = Inr json \<Longrightarrow>
   (\<forall>i. a \<le> i \<and> i < k \<longrightarrow> isl (responseOutcome fmt (net i (endpointOf endpoints i)))) \<Longrightarrow>
   outcome (retryLoop fmt net delay endpoints A D a le) = Inr json
   \<and> length (requests (retryLoop fmt net delay endpoints A D a le)) = Suc k - a"
proof (induction fmt net delay endpoints A D a le rule: retryLoop.induct)
  case (1 fmt net delay endpoints A D a le)
  from "1.prems" have aA: "a \<le> A" by simp
  show ?case
  proof (cases "a = k")
    case True
    with "1.prems" aA show ?thesis by (simp add: retryLoop_ok)
  next
    case False
    with "1.prems" have lt: "a < k" by simp
    with "1.prems" obtain err where e: "responseOutcome fmt (net a (endpointOf endpoints a)) = Inl err"
      by (cases "responseOutcome fmt (net a (endpointOf endpoints a))") auto
    note f = retryLoop_fail [where net=net and endpoints=endpoints and a=a and delay=delay and D=D and le=le, OF aA e]
    from lt have sk: "Suc a \<le> k" by simp
    from "1.prems" have "\<forall>i. Suc a \<le> i \<and> i < k \<longrightarrow> isl (responseOutcome fmt (net i (endpointOf endpoints i)))"
      by simp
    from "1.IH" [OF aA refl e sk "1.prems"(2,3) this] f lt show ?thesis
      by simp
  qed
qed

lemma endpointOf_rotated: "endpoints \<noteq> [] \<Longrightarrow> endpointOf endpoints i = rotated endpoints i"
  by (simp add: endpointOf_def rotated_def)

text \<open>
  C1. With at least one endpoint and a maximum of at least one attempt, the request of
  attempt \<open>i\<close> is handed to \<open>fetch\<close> with the endpoint \<open>endpoints[(i - 1) mod N]\<close>, and
  the coordinator acts on how that request settles. Never more than the maximum is
  attempted; when every attempt fails exactly the maximum is attempted and the error
  thrown is the one of the last attempt; when attempt \<open>k\<close> is the first to succeed its
  payload is returned and exactly \<open>k\<close> attempts are made.
\<close>

theorem postJSONWithRetry_contract:
  assumes "1 \<le> maxAttempts" and "endpoints \<noteq> []"
    and "r = postJSONWithRetry fmt net delay endpoints maxAttempts baseDelayMs"
  shows "(\<forall>i. 1 \<le> i \<and> i \<le> length (requests r) \<longrightarrow>
            requests r ! (i - 1) = Some (endpoints ! ((i - 1) mod length endpoints)))
    \<and> length (requests r) \<le> maxAttempts
    \<and> ((\<forall>i. 1 \<le> i \<and> i \<le> maxAttempts \<longrightarrow> isl (responseOutcome fmt (net i (rotated endpoints i)))) \<longrightarrow>
          length (requests r) = maxAttempts \<and> isl (outcome r)
          \<and> outcome r = responseOutcome fmt (net maxAttempts (rotated endpoints maxAttempts)))
    \<and> (\<forall>k json. 1 \<le> k \<and> k \<le> maxAttempts \<and> responseOutcome fmt (net k (rotated endpoints k)) = Inr json
            \<and> (\<forall>i. 1 \<le> i \<and> i < k \<longrightarrow> isl (responseOutcome fmt (net i (rotated endpoints i)))) \<longrightarrow>
          outcome r = Inr json \<and> length (requests r) = k)"
proof -
  have r: "r = retryLoop fmt net delay endpoints maxAttempts baseDelayMs 1 None"
    using assms(3) by (simp only: postJSONWithRetry_def)
  note rot = endpointOf_rotated [OF assms(2), symmetric]
  have a: "\<forall>i. 1 \<le> i \<and> i \<le> length (requests r) \<longrightarrow>
            requests r ! (i - 1) = Some (endpoints ! ((i - 1) mod length endpoints))"
  proof (intro allI impI)
    fix i assume i: "1 \<le> i \<and> i \<le> length (requests r)"
    then have "i - 1 < length (requests r)"
      by arith
    then have "requests r ! (i - 1) = endpointOf endpoints (1 + (i - 1))"
      unfolding r by (rule retryLoop_requests)
    with assms(2) show "requests r ! (i - 1) = Some (endpoints ! ((i - 1) mod length endpoints))"
      by (simp add: endpointOf_def)
  qed
  have b: "length (requests r) \<le> maxAttempts"
    using retryLoop_length [of fmt net delay endpoints maxAttempts baseDelayMs 1 None]
    unfolding r by simp
  have c: "(\<forall>i. 1 \<le> i \<and> i \<le> maxAttempts \<longrightarrow> isl (responseOutcome fmt (net i (rotated endpoints i)))) \<longrightarrow>
          length (requests r) = maxAttempts \<and> isl (outcome r)
          \<and> outcome r = responseOutcome fmt (net maxAttempts (rotated endpoints maxAttempts))"
  proof
    assume h: "\<forall>i. 1 \<le> i \<and> i \<le> maxAttempts \<longrightarrow> isl (responseOutcome fmt (net i (rotated endpoints i)))"
    then have h': "\<forall>i. 1 \<le> i \<and> i \<le> maxAttempts \<longrightarrow> isl (responseOutcome fmt (net i (endpointOf endpoints i)))"
      by (simp only: rot)
    from h assms(1) have l: "isl (responseOutcome fmt (net maxAttempts (rotated endpoints maxAttempts)))"
      by simp
    from retryLoop_all_fail [where net=net and endpoints=endpoints and a=1 and A=maxAttempts and fmt=fmt and delay=delay and D=baseDelayMs and le=None, OF assms(1) h'] l
    show "length (requests r) = maxAttempts \<and> isl (outcome r)
          \<and> outcome r = responseOutcome fmt (net maxAttempts (rotated endpoints maxAttempts))"
      unfolding r by (simp add: rot)
  qed
  have d: "\<forall>k json. 1 \<le> k \<and> k \<le> maxAttempts \<and> responseOutcome fmt (net k (rotated endpoints k)) = Inr json
            \<and> (\<forall>i. 1 \<le> i \<and> i < k \<longrightarrow> isl (responseOutcome fmt (net i (rotated endpoints i)))) \<longrightarrow>
          outcome r = Inr json \<and> length (requests r) = k"
  proof (intro allI impI, elim conjE)
    fix k json
    assume k: "1 \<le> k" "k \<le> maxAttempts" "responseOutcome fmt (net k (rotated endpoints k)) = Inr json"
      "\<forall>i. 1 \<le> i \<and> i < k \<longrightarrow> isl (responseOutcome fmt (net i (rotated endpoints i)))"
    from k(3) have k3: "responseOutcome fmt (net k (endpointOf endpoints k)) = Inr json"
      by (simp only: rot)
    from k(4) have k4: "\<forall>i. 1 \<le> i \<and> i < k \<longrightarrow> isl (responseOutcome fmt (net i (endpointOf endpoints i)))"
      by (simp only: rot)
    from retryLoop_first_success [where net=net and endpoints=endpoints and a=1 and k=k and fmt=fmt and delay=delay and D=baseDelayMs and le=None, OF k(1,2) k3 k4]
    show "outcome r = Inr json \<and> length (requests r) = k"
      unfolding r by simp
  qed
  from a b c d show ?thesis by (intro conjI)
qed

theorem postJSONWithRetry_contract_witness:
  "length (requests (postJSONWithRetry (\<lambda>n. [])
       (\<lambda>i e. Rejected (Error (case e of Some u \<Rightarrow> u | None \<Rightarrow> []))) (\<lambda>d i. 0)
       [''a'', ''b'', ''c''] 6 1000)) = 6
   \<and> outcome (postJSONWithRetry (\<lambda>n. [])
       (\<lambda>i e. Rejected (Error (case e of Some u \<Rightarrow> u | None \<Rightarrow> []))) (\<lambda>d i. 0)
       [''a'', ''b'', ''c''] 6 1000) = Inl (Error ''c'')
   \<and> requests (postJSONWithRetry (\<lambda>n. [])
       (\<lambda>i e. Rejected (Error (case e of Some u \<Rightarrow> u | None \<Rightarrow> []))) (\<lambda>d i. 0)
       [''a'', ''b'', ''c''] 6 1000) ! (4 - 1) = Some ''a''
   \<and> requests (postJSONWithRetry (\<lambda>n. [])
       (\<lambda>i e. Rejected (Error (case e of Some u \<Rightarrow> u | None \<Rightarrow> []))) (\<lambda>d i. 0)
       [''a'', ''b'', ''c''] 6 1000) ! (1 - 1) = Some ''a''
   \<and> outcome (postJSONWithRetry (\<lambda>n. [])
       (\<lambda>i e. if e = Some ''c'' then Response True 200 ''OK'' (Inr ''{}'') (Inr (JObj [(''elements'', JArr [])]))
               else Rejected (Error ''down''))
       (\<lambda>d i. 0) [''a'', ''b'', ''c''] 6 1000) = Inr (JObj [(''elements'', JArr [])])
   \<and> length (requests (postJSONWithRetry (\<lambda>n. [])
       (\<lambda>i e. if e = Some ''c'' then Response True 200 ''OK'' (Inr ''{}'') (Inr (JObj [(''elements'', JArr [])]))
               else Rejected (Error ''down''))
       (\<lambda>d i. 0) [''a'', ''b'', ''c''] 6 1000)) = 3"
proof -
  let ?fmt = "\<lambda>n :: jsnum. [] :: string"
  let ?delay = "\<lambda>(d :: rat) (i :: nat). 0 :: int"
  let ?eps = "[''a'', ''b'', ''c'']"
  let ?net = "\<lambda>(i :: nat) (e :: string option). Rejected (Error (case e of Some u \<Rightarrow> u | None \<Rightarrow> []))"
  let ?net' = "\<lambda>(i :: nat) (e :: string option).
      if e = Some ''c'' then Response True 200 ''OK'' (Inr ''{}'') (Inr (JObj [(''elements'', JArr [])]))
      else Rejected (Error ''down'')"
  have h1: "(1 :: nat) \<le> 6" by simp
  have h2: "?eps \<noteq> []" by simp
  have f: "responseOutcome ?fmt (?net i (rotated ?eps i)) = Inl (Error (?eps ! ((i - 1) mod 3)))" for i
    by (simp add: responseOutcome_def rotated_def)
  have s1: "responseOutcome ?fmt (?net' 1 (rotated ?eps 1)) = Inl (Error ''down'')"
    and s2: "responseOutcome ?fmt (?net' 2 (rotated ?eps 2)) = Inl (Error ''down'')"
    and s3: "responseOutcome ?fmt (?net' 3 (rotated ?eps 3)) = Inr (JObj [(''elements'', JArr [])])"
    by (simp_all add: responseOutcome_def rotated_def field_def getProp_def)
  define r where "r = postJSONWithRetry ?fmt ?net ?delay ?eps 6 1000"
  define r' where "r' = postJSONWithRetry ?fmt ?net' ?delay ?eps 6 1000"
  note t = postJSONWithRetry_contract [OF h1 h2 r_def]
  note t' = postJSONWithRetry_contract [OF h1 h2 r'_def]
  have allf: "\<forall>i. 1 \<le> i \<and> i \<le> 6 \<longrightarrow> isl (responseOutcome ?fmt (?net i (rotated ?eps i)))"
    by (simp only: f) simp
  from t allf have "length (requests r) = 6 \<and> isl (outcome r)
      \<and> outcome r = responseOutcome ?fmt (?net 6 (rotated ?eps 6))"
    by blast
  then have len: "length (requests r) = 6" and out: "outcome r = Inl (Error ''c'')"
    by (simp_all only: f) simp_all
  from t have A: "\<forall>i. 1 \<le> i \<and> i \<le> length (requests r) \<longrightarrow>
            requests r ! (i - 1) = Some (?eps ! ((i - 1) mod length ?eps))"
    by blast
  have "1 \<le> (4 :: nat) \<and> 4 \<le> length (requests r)" "1 \<le> (1 :: nat) \<and> 1 \<le> length (requests r)"
    using len by simp_all
  from A [rule_format, OF this(1)] A [rule_format, OF this(2)]
  have r4: "requests r ! (4 - 1) = Some ''a''" and r1: "requests r ! (1 - 1) = Some ''a''"
    by simp_all
  have early: "\<forall>i. 1 \<le> i \<and> i < 3 \<longrightarrow> isl (responseOutcome ?fmt (?net' i (rotated ?eps i)))"
  proof (intro allI impI)
    fix i :: nat
    assume "1 \<le> i \<and> i < 3"
    then have "i = 1 \<or> i = 2" by arith
    then show "isl (responseOutcome ?fmt (?net' i (rotated ?eps i)))"
      using s1 s2 by (elim disjE) (simp_all only: sum.disc)
  qed
  have first: "1 \<le> (3 :: nat) \<and> 3 \<le> (6 :: nat)
      \<and> responseOutcome ?fmt (?net' 3 (rotated ?eps 3)) = Inr (JObj [(''elements'', JArr [])])
      \<and> (\<forall>i. 1 \<le> i \<and> i < 3 \<longrightarrow> isl (responseOutcome ?fmt (?net' i (rotated ?eps i))))"
    using s3 early by simp
  from t' have D: "\<forall>k json. 1 \<le> k \<and> k \<le> 6
            \<and> responseOutcome ?fmt (?net' k (rotated ?eps k)) = Inr json
            \<and> (\<forall>i. 1 \<le> i \<and> i < k \<longrightarrow> isl (responseOutcome ?fmt (?net' i (rotated ?eps i)))) \<longrightarrow>
          outcome r' = Inr json \<and> length (requests r') = k"
    by blast
  from D [rule_format, OF first]
  have ok: "outcome r' = Inr (JObj [(''elements'', JArr [])])" "length (requests r') = 3"
    by simp_all
  from len out r4 r1 ok show ?thesis
    unfolding r_def r'_def by (intro conjI)
qed

subsection \<open>Sourcing of the schools dataset\<close>

lemma fst_fetchOverpass: "fst (fetchOverpass w) = [Post (overpassEndpoint w)]"
  by (simp add: fetchOverpass_def)

lemma loadLocalOfficial_source:
  "loadLocalOfficial w tbl p = Inr (Some (src, fc)) \<Longrightarrow> src = ''official-local''"
  unfolding loadLocalOfficial_def
  by (auto simp: map_sum_id_Inr split: option.splits sum.splits if_splits)

lemma loadLocalOfficial_not_null: "loadLocalOfficial w tbl p \<noteq> Inr None"
  unfolding loadLocalOfficial_def
  by (auto simp: map_sum_id_Inr split: option.splits sum.splits if_splits)

lemma loadRemoteOfficial_source:
  "snd (loadRemoteOfficial w tbl) = Inr (Some (src, fc)) \<Longrightarrow>
   fst (loadRemoteOfficial w tbl) = [Get (officialUrl w)]
   \<and> (src = ''official-remote'' \<or> src = ''official-remote-csv'')"
  unfolding loadRemoteOfficial_def
  by (auto simp: map_sum_id_Inr split: option.splits sum.splits if_splits)

lemma main_fallback:
  assumes "regionsTable w = Inr tbl" and "tryLoadOfficialDataset w tbl = (effs, r)"
    and "\<forall>x. r \<noteq> Inr (Some x)"
  shows "fst (main w) = effs @ fallbackEffects w tbl \<and> snd (main w) = fallbackResult w tbl"
proof -
  obtain effs' res where f: "fetchOverpass w = (effs', res)" by (cases "fetchOverpass w")
  with fst_fetchOverpass [of w] have e: "effs' = [Post (overpassEndpoint w)]" by simp
  have m: "main w = (case fetchOverpass w of
                  (effs', Inl e) \<Rightarrow> (effs @ effs', Inl e)
                | (effs', Inr overpassFC) \<Rightarrow>
                    (case enrichFeatureCollection (formatNumber w) tbl overpassFC of
                       Inl e \<Rightarrow> (effs @ effs', Inl e)
                     | Inr fc \<Rightarrow> writeOutput w (effs @ effs') ''overpass'' fc))"
  proof (cases r)
    case (Inl err)
    with assms(1,2) show ?thesis by (simp add: main_def)
  next
    case (Inr x)
    with assms(3) have "x = None" by (cases x) auto
    with Inr assms(1,2) show ?thesis by (simp add: main_def)
  qed
  show ?thesis
  proof (cases res)
    case (Inl err)
    with m f e show ?thesis
      by (simp add: fallbackEffects_def fallbackResult_def fallbackCollection_def)
  next
    case (Inr overpassFC)
    show ?thesis
    proof (cases "enrichFeatureCollection (formatNumber w) tbl overpassFC")
      case (Inl err)
      with Inr m f e show ?thesis
        by (simp add: fallbackEffects_def fallbackResult_def fallbackCollection_def)
    next
      case ok: (Inr fc)
      with Inr m f e show ?thesis
        by (simp add: fallbackEffects_def fallbackResult_def fallbackCollection_def writeOutput_def
            written_def)
    qed
  qed
qed

lemma main_official:
  assumes "regionsTable w = Inr tbl" and "tryLoadOfficialDataset w tbl = (effs, Inr (Some (src, fc)))"
  shows "main w = (effs @ [WriteFile outputPath], written w (src, fc))"
  using assms by (simp add: main_def writeOutput_def written_def)

lemma isl_written: "isl (written w x) \<longleftrightarrow> writeResult w \<noteq> None"
  by (cases "writeResult w") (simp_all add: written_def)

lemma isl_fallbackResult:
  "isl (fallbackResult w tbl) \<longleftrightarrow> isl (fallbackCollection w tbl) \<or> writeResult w \<noteq> None"
  by (cases "fallbackCollection w tbl") (simp_all add: fallbackResult_def isl_written)

text \<open>
  C2, as amended. Once the lookup table is set up, the run reads the first local
  candidate file that exists and only when none exists requests the URL of the
  environment. A collection the official step returns, empty or not, ends the search
  and is written with the label \<open>official-local\<close>, or \<open>official-remote\<close> or
  \<open>official-remote-csv\<close>. When the local file fails to load, the run goes on to Overpass
  without requesting the URL; when no local file exists and the URL is absent, fails or
  yields nothing, the run goes on to Overpass. The run is fatal exactly when the
  official step returns no collection and the fallback has none either, or when writing
  the output file fails.
\<close>

theorem main_sourcing:
  assumes "regionsTable w = Inr tbl"
  shows "(\<forall>p src fc. tryReadLocalOfficialDataset w = Some p \<and> loadLocalOfficial w tbl p = Inr (Some (src, fc))
            \<longrightarrow> src = ''official-local''
                \<and> main w = ([ReadFile p, WriteFile outputPath], written w (src, fc)))
    \<and> (\<forall>p e. tryReadLocalOfficialDataset w = Some p \<and> loadLocalOfficial w tbl p = Inl e
            \<longrightarrow> fst (main w) = ReadFile p # fallbackEffects w tbl \<and> snd (main w) = fallbackResult w tbl)
    \<and> (\<forall>src fc. tryReadLocalOfficialDataset w = None \<and> snd (loadRemoteOfficial w tbl) = Inr (Some (src, fc))
            \<longrightarrow> (src = ''official-remote'' \<or> src = ''official-remote-csv'')
                \<and> main w = ([Get (officialUrl w), WriteFile outputPath], written w (src, fc)))
    \<and> (tryReadLocalOfficialDataset w = None
          \<and> (snd (loadRemoteOfficial w tbl) = Inr None \<or> isl (snd (loadRemoteOfficial w tbl)))
            \<longrightarrow> fst (main w) = fst (loadRemoteOfficial w tbl) @ fallbackEffects w tbl
                \<and> snd (main w) = fallbackResult w tbl)
    \<and> (isl (snd (main w)) \<longleftrightarrow>
          ((\<forall>x. snd (tryLoadOfficialDataset w tbl) \<noteq> Inr (Some x)) \<and> isl (fallbackCollection w tbl))
          \<or> writeResult w \<noteq> None)
    \<and> (\<forall>x. snd (main w) = Inr x \<longrightarrow> writeResult w = None \<and> last (fst (main w)) = WriteFile outputPath)"
proof -
  have a: "\<forall>p src fc. tryReadLocalOfficialDataset w = Some p \<and> loadLocalOfficial w tbl p = Inr (Some (src, fc))
            \<longrightarrow> src = ''official-local''
                \<and> main w = ([ReadFile p, WriteFile outputPath], written w (src, fc))"
  proof (intro allI impI, elim conjE)
    fix p src fc
    assume l: "tryReadLocalOfficialDataset w = Some p" and r: "loadLocalOfficial w tbl p = Inr (Some (src, fc))"
    from l r have "tryLoadOfficialDataset w tbl = ([ReadFile p], Inr (Some (src, fc)))"
      by (simp add: tryLoadOfficialDataset_def)
    from main_official [OF assms this] loadLocalOfficial_source [OF r]
    show "src = ''official-local'' \<and> main w = ([ReadFile p, WriteFile outputPath], written w (src, fc))"
      by simp
  qed
  have b: "\<forall>p e. tryReadLocalOfficialDataset w = Some p \<and> loadLocalOfficial w tbl p = Inl e
            \<longrightarrow> fst (main w) = ReadFile p # fallbackEffects w tbl \<and> snd (main w) = fallbackResult w tbl"
  proof (intro allI impI, elim conjE)
    fix p e
    assume l: "tryReadLocalOfficialDataset w = Some p" and r: "loadLocalOfficial w tbl p = Inl e"
    from l r have t: "tryLoadOfficialDataset w tbl = ([ReadFile p], Inl e)"
      by (simp add: tryLoadOfficialDataset_def)
    have "\<forall>x. (Inl e :: js_error + (string \<times> feature list) option) \<noteq> Inr (Some x)"
      by simp
    from main_fallback [OF assms t this]
    show "fst (main w) = ReadFile p # fallbackEffects w tbl \<and> snd (main w) = fallbackResult w tbl"
      by simp
  qed
  have c: "\<forall>src fc. tryReadLocalOfficialDataset w = None \<and> snd (loadRemoteOfficial w tbl) = Inr (Some (src, fc))
            \<longrightarrow> (src = ''official-remote'' \<or> src = ''official-remote-csv'')
                \<and> main w = ([Get (officialUrl w), WriteFile outputPath], written w (src, fc))"
  proof (intro allI impI, elim conjE)
    fix src fc
    assume l: "tryReadLocalOfficialDataset w = None"
      and r: "snd (loadRemoteOfficial w tbl) = Inr (Some (src, fc))"
    note s = loadRemoteOfficial_source [OF r]
    from l r s have "tryLoadOfficialDataset w tbl = ([Get (officialUrl w)], Inr (Some (src, fc)))"
      by (simp add: tryLoadOfficialDataset_def prod_eq_iff)
    from main_official [OF assms this] s
    show "(src = ''official-remote'' \<or> src = ''official-remote-csv'')
                \<and> main w = ([Get (officialUrl w), WriteFile outputPath], written w (src, fc))"
      by simp
  qed
  have d: "tryReadLocalOfficialDataset w = None
          \<and> (snd (loadRemoteOfficial w tbl) = Inr None \<or> isl (snd (loadRemoteOfficial w tbl)))
            \<longrightarrow> fst (main w) = fst (loadRemoteOfficial w tbl) @ fallbackEffects w tbl
                \<and> snd (main w) = fallbackResult w tbl"
  proof (intro impI, elim conjE)
    assume l: "tryReadLocalOfficialDataset w = None"
      and r: "snd (loadRemoteOfficial w tbl) = Inr None \<or> isl (snd (loadRemoteOfficial w tbl))"
    from l have t: "tryLoadOfficialDataset w tbl =
        (fst (loadRemoteOfficial w tbl), snd (loadRemoteOfficial w tbl))"
      by (simp add: tryLoadOfficialDataset_def)
    from r have "\<forall>x. snd (loadRemoteOfficial w tbl) \<noteq> Inr (Some x)"
      by auto
    from main_fallback [OF assms t this]
    show "fst (main w) = fst (loadRemoteOfficial w tbl) @ fallbackEffects w tbl
                \<and> snd (main w) = fallbackResult w tbl"
      by simp
  qed
  have ef: "(isl (snd (main w)) \<longleftrightarrow>
          ((\<forall>x. snd (tryLoadOfficialDataset w tbl) \<noteq> Inr (Some x)) \<and> isl (fallbackCollection w tbl))
          \<or> writeResult w \<noteq> None)
    \<and> (\<forall>x. snd (main w) = Inr x \<longrightarrow> writeResult w = None \<and> last (fst (main w)) = WriteFile outputPath)"
  proof (cases "\<exists>x. snd (tryLoadOfficialDataset w tbl) = Inr (Some x)")
    case True
    then obtain src fc where "snd (tryLoadOfficialDataset w tbl) = Inr (Some (src, fc))"
      by auto
    then have "tryLoadOfficialDataset w tbl = (fst (tryLoadOfficialDataset w tbl), Inr (Some (src, fc)))"
      by (simp add: prod_eq_iff)
    from main_official [OF assms this] True show ?thesis
      by (cases "writeResult w") (simp_all add: written_def)
  next
    case False
    then have n: "\<forall>x. snd (tryLoadOfficialDataset w tbl) \<noteq> Inr (Some x)"
      by simp
    have "tryLoadOfficialDataset w tbl = (fst (tryLoadOfficialDataset w tbl), snd (tryLoadOfficialDataset w tbl))"
      by simp
    note m = main_fallback [OF assms this n]
    show ?thesis
    proof (cases "fallbackCollection w tbl")
      case (Inl err)
      with m n show ?thesis
        by (simp add: fallbackResult_def)
    next
      case (Inr fc)
      with m n show ?thesis
        by (cases "writeResult w") (simp_all add: fallbackResult_def fallbackEffects_def written_def)
    qed
  qed
  note e = ef [THEN conjunct1] and f = ef [THEN conjunct2]
  from a b c d e f show ?thesis by (intro conjI)
qed

theorem main_sourcing_witness:
  "main localCsvWorld =
     ([ReadFile ''data/official_secondary_schools.csv'', WriteFile outputPath],
      Inr (''official-local'',
           [\<lparr> geometry = pointGeometry (JArr [JNum (65 / 2), JNum (3 / 10)]),
              properties = JObj [(''name'', JStr ''St. Marys''), (''ownership'', JStr ''government''),
                                 (''gender'', JStr ''unknown''), (''district'', JNull), (''region'', JNull)] \<rparr>]))
   \<and> fst (main brokenLocalWorld) =
       [ReadFile ''data/official_secondary_schools.json'', Post ''https://overpass-api.de/api/interpreter'',
        WriteFile outputPath]
   \<and> snd (main brokenLocalWorld) = Inr (''overpass'', [])
   \<and> fst (main unconvertibleLocalWorld) =
       [ReadFile ''data/official_secondary_schools.json'', Post ''https://overpass-api.de/api/interpreter'',
        WriteFile outputPath]
   \<and> snd (main unconvertibleLocalWorld) = Inr (''overpass'', [])
   \<and> main remoteOnlyWorld =
       ([Get ''http://official.example/schools'', WriteFile outputPath],
        Inr (''official-remote'',
           [\<lparr> geometry = pointGeometry (JArr [JNum 32, JNum 1]),
              properties = JObj [(''ownership'', JStr ''unknown''), (''gender'', JStr ''unknown''),
                                 (''district'', JNull), (''region'', JNull)] \<rparr>]))
   \<and> main unwritableWorld =
       ([Get ''http://official.example/schools'', WriteFile outputPath], Inl (Error ''EACCES''))
   \<and> isl (snd (main unwritableWorld))"
proof -
  let ?tbl = "\<lambda>k :: string. JUndefined"
  let ?fc = "[\<lparr> geometry = pointGeometry (JArr [JNum (65 / 2), JNum (3 / 10)]),
              properties = JObj [(''name'', JStr ''St. Marys''), (''ownership'', JStr ''government''),
                                 (''gender'', JStr ''unknown''), (''district'', JNull), (''region'', JNull)] \<rparr>]"
  let ?fc' = "[\<lparr> geometry = pointGeometry (JArr [JNum 32, JNum 1]),
              properties = JObj [(''ownership'', JStr ''unknown''), (''gender'', JStr ''unknown''),
                                 (''district'', JNull), (''region'', JNull)] \<rparr>]"
  have r1: "regionsTable localCsvWorld = Inr ?tbl"
    by (simp add: localCsvWorld_def baseWorld_def)
  have r2: "regionsTable brokenLocalWorld = Inr ?tbl"
    by (simp add: brokenLocalWorld_def baseWorld_def)
  have r3: "regionsTable remoteOnlyWorld = Inr ?tbl"
    by (simp add: remoteOnlyWorld_def baseWorld_def)
  have r4: "regionsTable unconvertibleLocalWorld = Inr ?tbl"
    by (simp add: unconvertibleLocalWorld_def baseWorld_def)
  have r5: "regionsTable unwritableWorld = Inr ?tbl"
    by (simp add: unwritableWorld_def baseWorld_def)
  have l1: "tryReadLocalOfficialDataset localCsvWorld = Some ''data/official_secondary_schools.csv''
      \<and> loadLocalOfficial localCsvWorld ?tbl ''data/official_secondary_schools.csv''
          = Inr (Some (''official-local'', ?fc))"
    by code_simp
  have l2: "tryReadLocalOfficialDataset brokenLocalWorld = Some ''data/official_secondary_schools.json''
      \<and> loadLocalOfficial brokenLocalWorld ?tbl ''data/official_secondary_schools.json''
          = Inl (Error ''Failed to parse local official dataset JSON'')"
    by code_simp
  have l3: "tryReadLocalOfficialDataset remoteOnlyWorld = None
      \<and> snd (loadRemoteOfficial remoteOnlyWorld ?tbl) = Inr (Some (''official-remote'', ?fc'))"
    by code_simp
  have l4: "tryReadLocalOfficialDataset unconvertibleLocalWorld = Some ''data/official_secondary_schools.json''
      \<and> loadLocalOfficial unconvertibleLocalWorld ?tbl ''data/official_secondary_schools.json''
          = Inl TypeError"
    by code_simp
  have l5: "tryReadLocalOfficialDataset unwritableWorld = None
      \<and> snd (loadRemoteOfficial unwritableWorld ?tbl) = Inr (Some (''official-remote'', ?fc'))"
    by code_simp
  have f2: "fallbackEffects brokenLocalWorld ?tbl = [Post ''https://overpass-api.de/api/interpreter'', WriteFile outputPath]"
    "fallbackResult brokenLocalWorld ?tbl = Inr (''overpass'', [])"
    by code_simp+
  have f4: "fallbackEffects unconvertibleLocalWorld ?tbl = [Post ''https://overpass-api.de/api/interpreter'', WriteFile outputPath]"
    "fallbackResult unconvertibleLocalWorld ?tbl = Inr (''overpass'', [])"
    by code_simp+
  have u: "officialUrl remoteOnlyWorld = ''http://official.example/schools''"
    "officialUrl unwritableWorld = ''http://official.example/schools''"
    by code_simp+
  have w1: "written localCsvWorld (''official-local'', ?fc) = Inr (''official-local'', ?fc)"
    by (simp add: written_def localCsvWorld_def baseWorld_def)
  have w3: "written remoteOnlyWorld (''official-remote'', ?fc') = Inr (''official-remote'', ?fc')"
    by (simp add: written_def remoteOnlyWorld_def baseWorld_def)
  have w5: "written unwritableWorld (''official-remote'', ?fc') = Inl (Error ''EACCES'')"
    by (simp add: written_def unwritableWorld_def baseWorld_def)
  have nw: "writeResult unwritableWorld \<noteq> None"
    by (simp add: unwritableWorld_def baseWorld_def)
  from main_sourcing [OF r1] l1
  have m1: "main localCsvWorld = ([ReadFile ''data/official_secondary_schools.csv'', WriteFile outputPath],
      written localCsvWorld (''official-local'', ?fc))"
    by blast
  from main_sourcing [OF r2] l2
  have m2: "fst (main brokenLocalWorld) = ReadFile ''data/official_secondary_schools.json'' # fallbackEffects brokenLocalWorld ?tbl
      \<and> snd (main brokenLocalWorld) = fallbackResult brokenLocalWorld ?tbl"
    by blast
  from main_sourcing [OF r4] l4
  have m4: "fst (main unconvertibleLocalWorld) = ReadFile ''data/official_secondary_schools.json'' # fallbackEffects unconvertibleLocalWorld ?tbl
      \<and> snd (main unconvertibleLocalWorld) = fallbackResult unconvertibleLocalWorld ?tbl"
    by blast
  from main_sourcing [OF r3] l3
  have m3: "main remoteOnlyWorld = ([Get (officialUrl remoteOnlyWorld), WriteFile outputPath],
      written remoteOnlyWorld (''official-remote'', ?fc'))"
    by blast
  from main_sourcing [OF r5] l5
  have m5: "main unwritableWorld = ([Get (officialUrl unwritableWorld), WriteFile outputPath],
      written unwritableWorld (''official-remote'', ?fc'))"
    by blast
  from main_sourcing [OF r5] nw
  have m6: "isl (snd (main unwritableWorld))"
    by blast
  from m1 m2 m3 m4 m5 m6 show ?thesis
    by (simp only: f2 f4 u w1 w3 w5 simp_thms)
qed

text \<open>
  C2 as stated fails twice. A local file that does not parse sends the run to Overpass
  although the remote state, never attempted, would have yielded a collection with one
  feature; and a local CSV file with no data row ends the search with an empty
  collection labelled \<open>official-local\<close>.
\<close>

theorem main_sourcing_counterexample:
  "main brokenLocalWorld =
     ([ReadFile ''data/official_secondary_schools.json'', Post ''https://overpass-api.de/api/interpreter'',
       WriteFile outputPath], Inr (''overpass'', []))
   \<and> loadLocalOfficial brokenLocalWorld (\<lambda>k. JUndefined) ''data/official_secondary_schools.json''
       = Inl (Error ''Failed to parse local official dataset JSON'')
   \<and> map_sum id (map_option (\<lambda>x. (fst x, length (snd x))))
         (snd (loadRemoteOfficial brokenLocalWorld (\<lambda>k. JUndefined))) = Inr (Some (''official-remote'', 1))
   \<and> main headerOnlyWorld =
       ([ReadFile ''data/official_secondary_schools.csv'', WriteFile outputPath], Inr (''official-local'', []))"
  by code_simp

end
